(* ===== verification/Prelude.thy ===== *)
theory Prelude
  imports Main "HOL-Library.Word"
begin

text \<open>
  Shared vocabulary of the development: the outcome of a Go call that may panic, the
  indexing operation of Go slices, the fact collections the component theories feed, the
  enumeration of a map by a \<open>range\<close> loop, and two interfaces (a transition system with an
  inductive invariant, and a table of ports with \<open>Open\<close> and \<open>Close\<close>).
\<close>

named_theorems go_simps \<open>equations that evaluate the model of the Go library\<close>
named_theorems wf_intros \<open>preservation of the components' invariants\<close>

section \<open>Calls that may panic\<close>

text \<open>
  A Go function either returns or panics. An out-of-range slice index is the only panic the
  program can raise; the model makes it a value, so that no theorem hides it.
\<close>

datatype 'a go = Ret 'a | Panic

primrec returns :: "'a go \<Rightarrow> bool" where
  "returns (Ret a) = True"
| "returns Panic = False"

lemma returns_iff: "returns r \<longleftrightarrow> (\<exists>a. r = Ret a)"
  by (cases r) auto

definition slice_at :: "'a list \<Rightarrow> int \<Rightarrow> 'a go" where
  "slice_at xs i = (if 0 \<le> i \<and> i < int (length xs) then Ret (xs ! nat i) else Panic)"

lemma slice_at_Ret: "slice_at xs i = Ret x \<longleftrightarrow> 0 \<le> i \<and> i < int (length xs) \<and> x = xs ! nat i"
  by (auto simp: slice_at_def)

lemma slice_at_Panic: "slice_at xs i = Panic \<longleftrightarrow> i < 0 \<or> int (length xs) \<le> i"
  by (auto simp: slice_at_def)

lemma slice_at_mem: "slice_at xs i = Ret x \<Longrightarrow> x \<in> set xs"
  by (auto simp: slice_at_Ret)

section \<open>Ranging over a Go map\<close>

text \<open>
  The order in which a \<open>range\<close> loop visits the keys of a map is not determined. Operations
  that range over a map take the order as an argument; an order is legitimate when it
  enumerates the keys, each once.
\<close>

definition enumerates :: "'k list \<Rightarrow> ('k \<rightharpoonup> 'v) \<Rightarrow> bool" where
  "enumerates ks m \<longleftrightarrow> distinct ks \<and> set ks = dom m"

definition range_vals :: "'k list \<Rightarrow> ('k \<rightharpoonup> 'v) \<Rightarrow> 'v list" where
  "range_vals ks m = List.map_filter m ks"

lemma range_vals_Nil [simp]: "range_vals [] m = []"
  by (simp add: range_vals_def List.map_filter_def)

lemma range_vals_Cons [simp]:
  "range_vals (k # ks) m = (case m k of None \<Rightarrow> range_vals ks m | Some v \<Rightarrow> v # range_vals ks m)"
  by (auto simp: range_vals_def List.map_filter_def split: option.splits)

lemma set_range_vals: "set (range_vals ks m) = {v. \<exists>k\<in>set ks. m k = Some v}"
  by (induction ks) (auto split: option.splits)

lemma range_vals_conv: "range_vals ks m = concat (map (\<lambda>k. case m k of None \<Rightarrow> [] | Some v \<Rightarrow> [v]) ks)"
  by (induction ks) (auto split: option.splits)

lemma enumerates_same_set: "enumerates ks m \<Longrightarrow> enumerates ls m \<Longrightarrow> set ks = set ls"
  by (simp add: enumerates_def)

lemma distinct_range_vals:
  assumes "distinct ks" and "inj_on m (dom m)"
  shows "distinct (range_vals ks m)"
  using assms(1)
proof (induction ks)
  case (Cons k ks)
  show ?case
  proof (cases "m k")
    case (Some v)
    have "v \<notin> set (range_vals ks m)"
    proof
      assume "v \<in> set (range_vals ks m)"
      then obtain l where "l \<in> set ks" and "m l = Some v"
        by (auto simp: set_range_vals)
      with Some assms(2) have "l = k" by (auto dest!: inj_onD [where x = l and y = k])
      with \<open>l \<in> set ks\<close> Cons.prems show False by simp
    qed
    with Cons Some show ?thesis by simp
  qed (use Cons in simp)
qed simp

section \<open>Transition systems and invariants\<close>

inductive reach :: "('s \<Rightarrow> bool) \<Rightarrow> ('s \<Rightarrow> 's \<Rightarrow> bool) \<Rightarrow> 's \<Rightarrow> bool"
  for start :: "'s \<Rightarrow> bool" and step :: "'s \<Rightarrow> 's \<Rightarrow> bool" where
  reach_start: "start s \<Longrightarrow> reach start step s"
| reach_step: "reach start step s \<Longrightarrow> step s t \<Longrightarrow> reach start step t"

text \<open>
  The contract between a step relation and an invariant: it holds at the start and every
  step keeps it. Each concurrent part of the program interprets it on its own relation.
\<close>

locale inductive_invariant =
  fixes start :: "'s \<Rightarrow> bool"
    and step :: "'s \<Rightarrow> 's \<Rightarrow> bool"
    and inv :: "'s \<Rightarrow> bool"
  assumes start_inv: "start s \<Longrightarrow> inv s"
    and step_inv: "inv s \<Longrightarrow> step s t \<Longrightarrow> inv t"
begin

lemma reach_inv: "reach start step s \<Longrightarrow> inv s"
  by (induction rule: reach.induct) (auto intro: start_inv step_inv)

lemma steps_inv: "step\<^sup>*\<^sup>* s t \<Longrightarrow> inv s \<Longrightarrow> inv t"
  by (induction rule: rtranclp_induct) (auto intro: step_inv)

end

lemma reach_steps: "step\<^sup>*\<^sup>* s t \<Longrightarrow> reach start step s \<Longrightarrow> reach start step t"
  by (induction rule: rtranclp_induct) (auto intro: reach_step)

section \<open>Tables of ports\<close>

text \<open>
  Both the listener manager and the forward manager keep at most one entry per local port:
  \<open>Open\<close> fails on a port that is present, \<open>Close\<close> on one that is not. \<open>op\<close> stands for
  the further arguments of \<open>Open\<close>, \<open>cl\<close> for those of \<open>Close\<close>.
\<close>

locale port_table =
  fixes present :: "'s \<Rightarrow> int \<Rightarrow> bool"
    and topen :: "'a \<Rightarrow> int \<Rightarrow> 's \<Rightarrow> string + 's"
    and tclose :: "'c \<Rightarrow> int \<Rightarrow> 's \<Rightarrow> string + 's"
  assumes open_present: "present s p \<Longrightarrow> \<exists>e. topen a p s = Inl e"
    and open_adds: "topen a p s = Inr t \<Longrightarrow> present t q \<longleftrightarrow> q = p \<or> present s q"
    and close_absent: "\<not> present s p \<Longrightarrow> \<exists>e. tclose c p s = Inl e"
    and close_removes: "present s p \<Longrightarrow>
      \<exists>t. tclose c p s = Inr t \<and> (\<forall>q. present t q \<longleftrightarrow> q \<noteq> p \<and> present s q)"
begin

lemmas table_laws = open_present open_adds close_absent close_removes

lemma open_new: "topen a p s = Inr t \<Longrightarrow> \<not> present s p"
  using open_present [of s p a] by auto

lemma open_twice: "topen a p s = Inr t \<Longrightarrow> \<exists>e. topen b p t = Inl e"
  by (rule open_present) (simp add: open_adds)

lemma close_present: "tclose c p s = Inr t \<Longrightarrow> present s p"
  using close_absent [of s p c] by auto

lemma close_result: "tclose c p s = Inr t \<Longrightarrow> present t q \<longleftrightarrow> q \<noteq> p \<and> present s q"
  using close_present [of c p s t] close_removes [of s p c] by auto

lemma open_close:
  assumes "topen a p s = Inr t"
  shows "\<exists>u. tclose c p t = Inr u \<and> (\<forall>q. present u q \<longleftrightarrow> present s q)"
proof -
  have "present t p" using assms by (simp add: open_adds)
  then obtain u where "tclose c p t = Inr u" "\<forall>q. present u q \<longleftrightarrow> q \<noteq> p \<and> present t q"
    using close_removes by blast
  moreover have "present t q \<longleftrightarrow> q = p \<or> present s q" for q
    using assms by (rule open_adds)
  ultimately show ?thesis using open_new [OF assms] by auto
qed

text \<open>\<open>CloseAll\<close> of both managers closes a snapshot of the keys, ignoring errors.\<close>

primrec close_list :: "'c \<Rightarrow> int list \<Rightarrow> 's \<Rightarrow> 's" where
  "close_list c [] s = s"
| "close_list c (p # ps) s =
     close_list c ps (case tclose c p s of Inl e \<Rightarrow> s | Inr t \<Rightarrow> t)"

lemma present_close_list: "present (close_list c ps s) q \<longleftrightarrow> q \<notin> set ps \<and> present s q"
proof (induction ps arbitrary: s)
  case (Cons p ps)
  show ?case
  proof (cases "tclose c p s")
    case (Inl e)
    then have "\<not> present s p" using close_removes [of s p c] by auto
    with Inl Cons.IH show ?thesis by auto
  next
    case (Inr t)
    with Cons.IH show ?thesis by (auto simp: close_result [OF Inr])
  qed
qed simp

lemma close_list_empty: "(\<And>q. present s q \<Longrightarrow> q \<in> set ps) \<Longrightarrow> \<not> present (close_list c ps s) q"
  by (auto simp: present_close_list)

end

end
