(* ===== verification/Go_Text.thy ===== *)
theory Go_Text
  imports Prelude
begin

text \<open>
  The functions of Go's \<open>strings\<close>, \<open>strconv\<close> and \<open>fmt\<close> packages that the program uses, on
  strings as lists of bytes. White space and letter case are those of ASCII text: a byte
  from 0x80 up is neither white space nor a letter, and \<open>%q\<close> shows it as a hex escape.
\<close>

section \<open>White space and tokens\<close>

definition is_space :: "char \<Rightarrow> bool" where
  "is_space c \<longleftrightarrow> c = CHR 0x20 \<or> c = CHR 0x09 \<or> c = CHR 0x0A \<or> c = CHR 0x0B \<or> c = CHR 0x0C \<or> c = CHR 0x0D"

definition trim_left :: "string \<Rightarrow> string" where
  "trim_left s = dropWhile is_space s"

definition trim_space :: "string \<Rightarrow> string" where
  "trim_space s = rev (trim_left (rev (trim_left s)))"

text \<open>\<open>strings.TrimRight(s, cutset)\<close>\<close>

definition trim_right :: "string \<Rightarrow> string \<Rightarrow> string" where
  "trim_right s cutset = rev (dropWhile (\<lambda>c. c \<in> set cutset) (rev s))"

text \<open>\<open>strings.Fields\<close>: the maximal runs of bytes that are not white space.\<close>

function str_fields :: "string \<Rightarrow> string list" where
  "str_fields [] = []"
| "str_fields (c # cs) =
     (if is_space c then str_fields cs
      else (c # takeWhile (\<lambda>d. \<not> is_space d) cs) # str_fields (dropWhile (\<lambda>d. \<not> is_space d) cs))"
  by pat_completeness auto
termination
  by (relation "measure length") (auto simp: le_imp_less_Suc length_dropWhile_le)

lemma str_fields_trim_left: "str_fields (trim_left s) = str_fields s"
  unfolding trim_left_def by (induction s) auto

lemma str_fields_nonempty: "\<not> (\<forall>c\<in>set s. is_space c) \<Longrightarrow> str_fields s \<noteq> []"
  by (induction s rule: str_fields.induct) auto

lemma str_fields_tokens: "t \<in> set (str_fields s) \<Longrightarrow> t \<noteq> [] \<and> (\<forall>c\<in>set t. \<not> is_space c)"
proof (induction s rule: str_fields.induct)
  case (2 c cs)
  show ?case
  proof (cases "is_space c")
    case True
    with 2 show ?thesis by simp
  next
    case False
    have "\<forall>d\<in>set (takeWhile (\<lambda>d. \<not> is_space d) cs). \<not> is_space d"
      by (blast dest: set_takeWhileD)
    with False have "\<forall>d\<in>set (c # takeWhile (\<lambda>d. \<not> is_space d) cs). \<not> is_space d"
      by simp
    moreover have "t = c # takeWhile (\<lambda>d. \<not> is_space d) cs
        \<or> t \<in> set (str_fields (dropWhile (\<lambda>d. \<not> is_space d) cs))"
      using "2.prems" False by simp
    ultimately show ?thesis using "2.IH"(2) [OF False] by blast
  qed
qed simp

lemma str_fields_single:
  "t \<noteq> [] \<Longrightarrow> \<forall>c\<in>set t. \<not> is_space c \<Longrightarrow> is_space d \<Longrightarrow> str_fields (t @ d # s) = t # str_fields s"
  by (cases t) (auto simp: takeWhile_append dropWhile_append)

lemma str_fields_last:
  "t \<noteq> [] \<Longrightarrow> \<forall>c\<in>set t. \<not> is_space c \<Longrightarrow> str_fields t = [t]"
  by (cases t) (auto simp: takeWhile_eq_all_conv [THEN iffD2] dropWhile_eq_Nil_conv [THEN iffD2])

text \<open>\<open>strings.Join\<close>\<close>

fun join :: "string list \<Rightarrow> string \<Rightarrow> string" where
  "join [] sep = []"
| "join [t] sep = t"
| "join (t # u # ts) sep = t @ sep @ join (u # ts) sep"

definition is_token :: "string \<Rightarrow> bool" where
  "is_token t \<longleftrightarrow> t \<noteq> [] \<and> (\<forall>c\<in>set t. \<not> is_space c)"

lemma str_fields_join: "\<forall>t\<in>set ts. is_token t \<Longrightarrow> str_fields (join ts '' '') = ts"
proof (induction ts "'' ''" rule: join.induct)
  case (2 t)
  then show ?case by (simp add: is_token_def str_fields_last)
next
  case (3 t u ts)
  have "str_fields (t @ CHR 0x20 # join (u # ts) '' '') = t # str_fields (join (u # ts) '' '')"
    using 3 by (intro str_fields_single) (auto simp: is_token_def is_space_def)
  with 3 show ?case by simp
qed simp

lemma trim_left_nonspace: "s \<noteq> [] \<Longrightarrow> \<not> is_space (hd s) \<Longrightarrow> trim_left s = s"
  by (cases s) (auto simp: trim_left_def)

lemma trim_space_trimmed:
  "s \<noteq> [] \<Longrightarrow> \<not> is_space (hd s) \<Longrightarrow> \<not> is_space (last s) \<Longrightarrow> trim_space s = s"
  by (simp add: trim_space_def trim_left_nonspace hd_rev)

lemma trim_left_Nil_iff: "trim_left s = [] \<longleftrightarrow> (\<forall>c\<in>set s. is_space c)"
  by (auto simp: trim_left_def)

lemma trim_space_Nil_iff: "trim_space s = [] \<longleftrightarrow> (\<forall>c\<in>set s. is_space c)"
proof -
  have "trim_space s = [] \<longleftrightarrow> (\<forall>c\<in>set (trim_left s). is_space c)"
    by (simp add: trim_space_def trim_left_Nil_iff)
  also have "\<dots> \<longleftrightarrow> trim_left s = []"
    by (metis empty_iff empty_set hd_dropWhile list.set_sel(1) trim_left_def)
  finally show ?thesis by (simp add: trim_left_Nil_iff)
qed

lemma trim_left_hd: "trim_left s \<noteq> [] \<Longrightarrow> \<not> is_space (hd (trim_left s))"
  unfolding trim_left_def by (rule hd_dropWhile)

lemma trim_space_hd:
  assumes "trim_space s \<noteq> []"
  shows "\<not> is_space (hd (trim_space s))"
proof -
  define u where "u = trim_left s"
  have pre: "trim_space s = take (length (trim_space s)) u"
    unfolding trim_space_def trim_left_def u_def [symmetric, unfolded trim_left_def]
    by (metis append_eq_conv_conj rev_append rev_rev_ident takeWhile_dropWhile_id)
  have "hd (trim_space s) = hd u"
    using assms pre by (metis hd_take length_greater_0_conv take_eq_Nil)
  moreover have "u \<noteq> []"
    using assms pre by auto
  ultimately show ?thesis
    using trim_left_hd by (simp add: u_def)
qed

lemma trim_space_last:
  assumes "trim_space s \<noteq> []"
  shows "\<not> is_space (last (trim_space s))"
proof -
  have "trim_left (rev (trim_left s)) \<noteq> []"
    using assms by (simp add: trim_space_def)
  then show ?thesis
    by (simp add: trim_space_def last_rev trim_left_hd)
qed

lemma trim_space_idem: "trim_space (trim_space s) = trim_space s"
proof (cases "trim_space s = []")
  case True
  then have "trim_space (trim_space s) = trim_space []" by (rule arg_cong)
  also have "trim_space [] = trim_space s"
    unfolding True by (simp add: trim_space_def trim_left_def)
  finally show ?thesis .
next
  case False
  then show ?thesis
    by (intro trim_space_trimmed) (simp_all add: trim_space_hd trim_space_last)
qed

section \<open>Letter case, prefixes, separators\<close>

definition lower_char :: "char \<Rightarrow> char" where
  "lower_char c = (if 65 \<le> (of_char c :: nat) \<and> (of_char c :: nat) \<le> 90
     then char_of ((of_char c :: nat) + 32) else c)"

definition to_lower :: "string \<Rightarrow> string" where
  "to_lower s = map lower_char s"

lemma lower_char_idem: "lower_char (lower_char c) = lower_char c"
  by (auto simp: lower_char_def of_char_of)

lemma to_lower_idem: "to_lower (to_lower s) = to_lower s"
  by (simp add: to_lower_def lower_char_idem)

text \<open>Lowering produces nothing but letters.\<close>

lemma lower_char_eq:
  assumes "lower_char c = d" and "(of_char d :: nat) < 97 \<or> 122 < (of_char d :: nat)"
  shows "c = d"
proof (rule ccontr)
  assume n: "c \<noteq> d"
  then have r: "65 \<le> (of_char c :: nat)" "(of_char c :: nat) \<le> 90" "char_of ((of_char c :: nat) + 32) = d"
    using assms(1) by (auto simp: lower_char_def split: if_splits)
  from r(3) have "(of_char (char_of ((of_char c :: nat) + 32) :: char) :: nat) = of_char d" by metis
  with r(1,2) assms(2) show False by (simp add: of_char_of)
qed

lemma lower_char_space: "is_space (lower_char c) = is_space c"
proof
  assume "is_space (lower_char c)"
  then have "lower_char c = c" using lower_char_eq [of c "lower_char c"] by (auto simp: is_space_def)
  with \<open>is_space (lower_char c)\<close> show "is_space c" by simp
next
  assume "is_space c"
  then show "is_space (lower_char c)" by (auto simp: is_space_def lower_char_def)
qed

definition has_prefix :: "string \<Rightarrow> string \<Rightarrow> bool" where
  "has_prefix s p \<longleftrightarrow> take (length p) s = p"

text \<open>\<open>strings.SplitN(s, sep, n)\<close> for a separator of one byte and a positive \<open>n\<close>.\<close>

fun splitn :: "string \<Rightarrow> char \<Rightarrow> nat \<Rightarrow> string list" where
  "splitn s sep 0 = []"
| "splitn s sep (Suc 0) = [s]"
| "splitn s sep (Suc (Suc n)) =
     (if sep \<in> set s
      then takeWhile (\<lambda>c. c \<noteq> sep) s # splitn (tl (dropWhile (\<lambda>c. c \<noteq> sep) s)) sep (Suc n)
      else [s])"

lemma splitn_cut:
  "sep \<notin> set a \<Longrightarrow> splitn (a @ sep # b) sep (Suc (Suc n)) = a # splitn b sep (Suc n)"
  by (simp add: takeWhile_append dropWhile_append)

lemma splitn_whole: "sep \<notin> set s \<Longrightarrow> splitn s sep (Suc n) = [s]"
  by (cases n) simp_all

lemma splitn_nonempty: "0 < n \<Longrightarrow> splitn s sep n \<noteq> []"
  by (induction s sep n rule: splitn.induct) auto

text \<open>\<open>strings.LastIndex(s, sep)\<close> for a separator of one byte.\<close>

definition last_index :: "string \<Rightarrow> char \<Rightarrow> int" where
  "last_index s sep =
     (if sep \<in> set s
      then int (length s) - 1 - int (length (takeWhile (\<lambda>c. c \<noteq> sep) (rev s))) else -1)"

lemma last_index_cut: "sep \<notin> set b \<Longrightarrow> last_index (a @ sep # b) sep = int (length a)"
  by (simp add: last_index_def takeWhile_append)

lemma last_index_none: "last_index s sep < 0 \<longleftrightarrow> sep \<notin> set s"
proof -
  have "length (takeWhile (\<lambda>c. c \<noteq> sep) (rev s)) < length s" if "sep \<in> set s"
  proof -
    obtain u v where "rev s = u @ sep # v" "sep \<notin> set u"
      using \<open>sep \<in> set s\<close> by (metis set_rev split_list_first)
    then have "takeWhile (\<lambda>c. c \<noteq> sep) (rev s) = u" "length (rev s) = Suc (length u + length v)"
      by (simp_all add: takeWhile_append)
    then show ?thesis by simp
  qed
  then show ?thesis by (auto simp: last_index_def)
qed

section \<open>Numbers\<close>

definition digit_char :: "nat \<Rightarrow> char" where
  "digit_char d = char_of (48 + d)"

fun nat_digits :: "nat \<Rightarrow> string" where
  "nat_digits n = (if n < 10 then [digit_char n] else nat_digits (n div 10) @ [digit_char (n mod 10)])"

declare nat_digits.simps [simp del]

text \<open>\<open>strconv.Itoa\<close>, and the verb \<open>%d\<close> of \<open>fmt\<close>\<close>

definition itoa :: "int \<Rightarrow> string" where
  "itoa i = (if i < 0 then CHR ''-'' # nat_digits (nat (- i)) else nat_digits (nat i))"

definition is_digit :: "char \<Rightarrow> bool" where
  "is_digit c \<longleftrightarrow> 48 \<le> (of_char c :: nat) \<and> (of_char c :: nat) \<le> 57"

definition digits_val :: "string \<Rightarrow> nat" where
  "digits_val s = foldl (\<lambda>n c. 10 * n + (of_char c - 48)) 0 s"

definition max_int64 :: int where
  "max_int64 = 9223372036854775807"

definition min_int64 :: int where
  "min_int64 = - 9223372036854775808"

definition in_int64 :: "int \<Rightarrow> bool" where
  "in_int64 i \<longleftrightarrow> min_int64 \<le> i \<and> i \<le> max_int64"

text \<open>
  \<open>strconv.Atoi\<close> on a 64-bit platform: an optional sign, then decimal digits only, and the
  value in the range of \<open>int\<close>. \<open>None\<close> is the error; its text is never used.
\<close>

definition atoi :: "string \<Rightarrow> int option" where
  "atoi s =
     (let neg = (s \<noteq> [] \<and> hd s = CHR ''-'');
          body = (if s \<noteq> [] \<and> (hd s = CHR ''-'' \<or> hd s = CHR ''+'') then tl s else s);
          v = (if neg then - int (digits_val body) else int (digits_val body))
      in if body \<noteq> [] \<and> list_all is_digit body \<and> in_int64 v then Some v else None)"

lemma of_char_digit: "d < 10 \<Longrightarrow> of_char (digit_char d) = 48 + d"
  by (simp add: digit_char_def of_char_of)

lemma digits_val_snoc: "digits_val (s @ [c]) = 10 * digits_val s + (of_char c - 48)"
  by (simp add: digits_val_def)

lemma digits_val_nat_digits: "digits_val (nat_digits n) = n"
proof (induction n rule: nat_digits.induct)
  case (1 n)
  show ?case
  proof (cases "n < 10")
    case True
    then show ?thesis
      by (subst nat_digits.simps) (simp add: digits_val_def of_char_digit)
  next
    case False
    with 1 have "digits_val (nat_digits (n div 10)) = n div 10" by blast
    with False show ?thesis
      by (subst nat_digits.simps) (simp add: digits_val_snoc of_char_digit)
  qed
qed

lemma nat_digits_nonempty [simp]: "nat_digits n \<noteq> []"
  by (subst nat_digits.simps) simp

lemma is_digit_nat_digits: "list_all is_digit (nat_digits n)"
proof (induction n rule: nat_digits.induct)
  case (1 n)
  have "is_digit (digit_char d)" if "d < 10" for d
    using that by (simp add: is_digit_def of_char_digit)
  with 1 show ?case by (subst nat_digits.simps) auto
qed

lemma is_digit_props:
  "is_digit c \<Longrightarrow> c \<noteq> CHR ''-'' \<and> c \<noteq> CHR ''+'' \<and> c \<noteq> CHR '':'' \<and> \<not> is_space c"
  by (auto simp: is_digit_def is_space_def)

lemma nat_digits_hd: "is_digit (hd (nat_digits n))"
  using is_digit_nat_digits [of n] nat_digits_nonempty [of n]
  by (cases "nat_digits n") (simp_all del: nat_digits_nonempty)

theorem atoi_itoa: "in_int64 i \<Longrightarrow> atoi (itoa i) = Some i"
  using is_digit_props [OF nat_digits_hd, of "nat i"]
  by (auto simp: atoi_def itoa_def Let_def digits_val_nat_digits is_digit_nat_digits)

lemma itoa_chars: "c \<in> set (itoa i) \<Longrightarrow> c = CHR ''-'' \<or> is_digit c"
  using is_digit_nat_digits by (auto simp: itoa_def list_all_iff split: if_splits)

lemma itoa_no_colon: "CHR '':'' \<notin> set (itoa i)"
  using itoa_chars [of "CHR '':''" i] is_digit_props by auto

lemma itoa_no_space: "c \<in> set (itoa i) \<Longrightarrow> \<not> is_space c"
  using itoa_chars is_digit_props by (fastforce simp: is_space_def)

lemma itoa_nonempty [simp]: "itoa i \<noteq> []"
  by (simp add: itoa_def)

lemma itoa_inject: "itoa i = itoa j \<Longrightarrow> in_int64 i \<Longrightarrow> in_int64 j \<Longrightarrow> i = j"
  by (metis atoi_itoa option.inject)

lemma atoi_range: "atoi s = Some i \<Longrightarrow> in_int64 i"
  by (auto simp: atoi_def Let_def split: if_splits)

lemma atoi_Nil [simp]: "atoi [] = None"
  by (simp add: atoi_def)

section \<open>Quoting\<close>

definition hex_digit :: "nat \<Rightarrow> char" where
  "hex_digit d = (if d < 10 then char_of (48 + d) else char_of (87 + d))"

definition quote_char :: "char \<Rightarrow> string" where
  "quote_char c =
     (let n = of_char c :: nat in
      if n = 34 \<or> n = 92 then [CHR 0x5C, c]
      else if n = 7 then [CHR 0x5C, CHR ''a''] else if n = 8 then [CHR 0x5C, CHR ''b'']
      else if n = 12 then [CHR 0x5C, CHR ''f''] else if n = 10 then [CHR 0x5C, CHR ''n'']
      else if n = 13 then [CHR 0x5C, CHR ''r''] else if n = 9 then [CHR 0x5C, CHR ''t'']
      else if n = 11 then [CHR 0x5C, CHR ''v'']
      else if n < 32 \<or> 127 \<le> n then [CHR 0x5C, CHR ''x'', hex_digit (n div 16), hex_digit (n mod 16)]
      else [c])"

text \<open>\<open>%q\<close>\<close>

definition go_quote :: "string \<Rightarrow> string" where
  "go_quote s = CHR 0x22 # concat (map quote_char s) @ [CHR 0x22]"

end
