(* ===== verification/Session_Model.thy ===== *)
theory Session_Model
  imports Go_Text
begin

text \<open>
  One accepted connection: \<open>internal/session/state.go\<close> and \<open>internal/session/session.go\<close>.
  A session record has the fields of the Go struct; its mutexes guard single operations,
  so each operation below is one atomic step. The connection is the part of a TCP
  connection the program acts on: the bytes handed to the kernel, the half-close, the
  linger option and the close. What the kernel answers to a write or a read is an argument.
\<close>

section \<open>States\<close>

datatype State = StateActive | StateForeground | StateBackground | StateDead

fun State_String :: "State \<Rightarrow> string" where
  "State_String StateActive = ''active''"
| "State_String StateForeground = ''foreground''"
| "State_String StateBackground = ''background''"
| "State_String StateDead = ''dead''"

fun iota :: "State \<Rightarrow> nat" where
  "iota StateActive = 0"
| "iota StateForeground = 1"
| "iota StateBackground = 2"
| "iota StateDead = 3"

lemma iota_inject: "iota s = iota t \<longleftrightarrow> s = t"
  by (cases s; cases t) simp_all

text \<open>The constants of the Go type are consecutive integers, so the type is ordered.\<close>

instantiation State :: linorder
begin

definition less_eq_State :: "State \<Rightarrow> State \<Rightarrow> bool" where
  "less_eq_State s t \<longleftrightarrow> iota s \<le> iota t"

definition less_State :: "State \<Rightarrow> State \<Rightarrow> bool" where
  "less_State s t \<longleftrightarrow> iota s < iota t"

instance
  by standard (auto simp: less_eq_State_def less_State_def iota_inject)

end

lemma StateDead_greatest: "s \<le> StateDead"
  by (cases s) (simp_all add: less_eq_State_def)

lemma State_String_inject: "State_String s = State_String t \<longleftrightarrow> s = t"
  by (cases s; cases t) simp_all

section \<open>Connections and sessions\<close>

record conn =
  c_remote :: string
  c_tcp :: bool
  c_out :: string
  c_keepalive :: bool
  c_fin :: bool
  c_linger0 :: bool
  c_closed :: bool

record session =
  s_ID :: int
  s_Port :: int
  s_RemoteAddr :: string
  s_Conn :: conn
  s_ConnectedAt :: int
  s_BytesTX :: "64 word"
  s_BytesRX :: "64 word"
  s_lastActivity :: int
  s_state :: State
  s_history :: "string list"
  s_rxBuf :: string

text \<open>A connection as \<open>Accept\<close> returns it.\<close>

definition fresh_conn :: "string \<Rightarrow> conn" where
  "fresh_conn remote = \<lparr>c_remote = remote, c_tcp = True, c_out = [], c_keepalive = False,
     c_fin = False, c_linger0 = False, c_closed = False\<rparr>"

definition newSession :: "int \<Rightarrow> int \<Rightarrow> conn \<Rightarrow> int \<Rightarrow> session" where
  "newSession sid port c now =
     \<lparr>s_ID = sid, s_Port = port, s_RemoteAddr = c_remote c,
      s_Conn = (if c_tcp c then c\<lparr>c_keepalive := True\<rparr> else c),
      s_ConnectedAt = now, s_BytesTX = 0, s_BytesRX = 0, s_lastActivity = now,
      s_state = StateActive, s_history = [], s_rxBuf = []\<rparr>"

definition SetState :: "session \<Rightarrow> State \<Rightarrow> session" where
  "SetState s st = s\<lparr>s_state := st\<rparr>"

definition AddHistory :: "session \<Rightarrow> string \<Rightarrow> session" where
  "AddHistory s line = s\<lparr>s_history := s_history s @ [line]\<rparr>"

definition History :: "session \<Rightarrow> string list" where
  "History s = s_history s"

definition Duration :: "session \<Rightarrow> int \<Rightarrow> int" where
  "Duration s now = now - s_ConnectedAt s"

definition LastActivity :: "session \<Rightarrow> int" where
  "LastActivity s = s_lastActivity s"

definition IdleDuration :: "session \<Rightarrow> int \<Rightarrow> int" where
  "IdleDuration s now = now - LastActivity s"

text \<open>
  One turn of the loop of \<open>StartRxLoop\<close>: \<open>Read\<close> returned the bytes \<open>data\<close>, and an error
  when \<open>err\<close>. The second result says whether the loop goes on.
\<close>

definition rx_turn :: "session \<Rightarrow> int \<Rightarrow> string \<Rightarrow> bool \<Rightarrow> session \<times> bool" where
  "rx_turn s now data err =
     (let s1 = (if data \<noteq> []
                then s\<lparr>s_BytesRX := s_BytesRX s + of_nat (length data), s_lastActivity := now,
                       s_rxBuf := s_rxBuf s @ data\<rparr>
                else s)
      in if err
         then (if s_state s1 \<noteq> StateDead then SetState s1 StateDead else s1, False)
         else (s1, True))"

text \<open>\<open>ReadBuffered\<close>, and \<open>DrainRxBuf\<close> whose caller holds the lock: \<open>None\<close> is \<open>nil\<close>.\<close>

definition ReadBuffered :: "session \<Rightarrow> string option \<times> session" where
  "ReadBuffered s =
     (if s_rxBuf s = [] then (None, s) else (Some (s_rxBuf s), s\<lparr>s_rxBuf := []\<rparr>))"

definition DrainRxBuf :: "session \<Rightarrow> string option \<times> session" where
  "DrainRxBuf s =
     (if s_rxBuf s = [] then (None, s) else (Some (s_rxBuf s), s\<lparr>s_rxBuf := []\<rparr>))"

text \<open>
  \<open>Conn.Write\<close>: a closed connection refuses; otherwise the kernel answers \<open>ans data\<close>, the
  number of bytes it took and an error. \<open>writes_ok\<close> is the contract of \<open>io.Writer\<close>.
\<close>

type_synonym write_answer = "string \<Rightarrow> nat \<times> string option"

definition writes_ok :: "write_answer \<Rightarrow> bool" where
  "writes_ok ans \<longleftrightarrow>
     (\<forall>d. fst (ans d) \<le> length d \<and> (fst (ans d) < length d \<longrightarrow> snd (ans d) \<noteq> None))"

definition conn_write :: "conn \<Rightarrow> string \<Rightarrow> write_answer \<Rightarrow> conn \<times> nat \<times> string option" where
  "conn_write c data ans =
     (if c_closed c then (c, 0, Some ''use of closed network connection'')
      else (c\<lparr>c_out := c_out c @ take (fst (ans data)) data\<rparr>, fst (ans data), snd (ans data)))"

definition session_Write :: "session \<Rightarrow> string \<Rightarrow> write_answer \<Rightarrow> session \<times> nat \<times> string option" where
  "session_Write s data ans =
     (case conn_write (s_Conn s) data ans of
        (c, n, err) \<Rightarrow> (s\<lparr>s_Conn := c, s_BytesTX := s_BytesTX s + of_nat n\<rparr>, n, err))"

definition session_Close :: "session \<Rightarrow> session" where
  "session_Close s =
     (let c = s_Conn s;
          c1 = (if c_tcp c then c\<lparr>c_fin := True\<rparr> else c)
      in SetState (s\<lparr>s_Conn := c1\<lparr>c_closed := True\<rparr>\<rparr>) StateDead)"

definition session_ForceClose :: "session \<Rightarrow> session" where
  "session_ForceClose s =
     (let c = s_Conn s;
          c1 = (if c_tcp c then c\<lparr>c_linger0 := True\<rparr> else c)
      in SetState (s\<lparr>s_Conn := c1\<lparr>c_closed := True\<rparr>\<rparr>) StateDead)"

text \<open>The test of the loop of \<open>WaitDead\<close>: it returns when this holds.\<close>

definition WaitDead_done :: "session \<Rightarrow> bool" where
  "WaitDead_done s \<longleftrightarrow> s_state s = StateDead"

lemmas session_defs = SetState_def AddHistory_def rx_turn_def ReadBuffered_def DrainRxBuf_def
  conn_write_def session_Write_def session_Close_def session_ForceClose_def Let_def

section \<open>The life of a session\<close>

text \<open>
  The operations other goroutines apply to a session, as a trace. \<open>sess_step\<close> returns the
  session and the bytes the operation handed to its caller.
\<close>

datatype sess_op =
    RxData string int
  | RxError
  | Drain
  | WriteOp string write_answer
  | StateOp State
  | HistoryOp string
  | CloseOp
  | ForceCloseOp

fun sess_step :: "session \<Rightarrow> sess_op \<Rightarrow> session \<times> string" where
  "sess_step s (RxData d now) = (fst (rx_turn s now d False), [])"
| "sess_step s RxError = (fst (rx_turn s 0 [] True), [])"
| "sess_step s Drain = (case ReadBuffered s of (None, s1) \<Rightarrow> (s1, []) | (Some d, s1) \<Rightarrow> (s1, d))"
| "sess_step s (WriteOp d ans) = (fst (session_Write s d ans), [])"
| "sess_step s (StateOp st) = (SetState s st, [])"
| "sess_step s (HistoryOp l) = (AddHistory s l, [])"
| "sess_step s CloseOp = (session_Close s, [])"
| "sess_step s ForceCloseOp = (session_ForceClose s, [])"

fun sess_run :: "session \<Rightarrow> sess_op list \<Rightarrow> session \<times> string" where
  "sess_run s [] = (s, [])"
| "sess_run s (x # xs) =
     (case sess_step s x of (s1, d) \<Rightarrow> (case sess_run s1 xs of (s2, e) \<Rightarrow> (s2, d @ e)))"

fun received :: "sess_op list \<Rightarrow> string" where
  "received [] = []"
| "received (RxData d now # xs) = d @ received xs"
| "received (x # xs) = received xs"

text \<open>
  The abstract receive buffer is a FIFO of bytes: whatever is drained, followed by what is
  still buffered, is what was buffered before followed by what arrived.
\<close>

lemma received_Cons: "received (x # xs) = received [x] @ received xs"
  by (cases x) simp_all

lemma sess_step_buffer:
  "sess_step s x = (s1, d) \<Longrightarrow> d @ s_rxBuf s1 = s_rxBuf s @ received [x]"
  by (cases x) (auto simp: session_defs split: if_splits prod.splits)

lemma sess_run_buffer: "sess_run s xs = (s1, d) \<Longrightarrow> d @ s_rxBuf s1 = s_rxBuf s @ received xs"
proof (induction xs arbitrary: s d)
  case (Cons x xs)
  obtain t e where t: "sess_step s x = (t, e)" by force
  obtain f where f: "sess_run t xs = (s1, f)" and d: "d = e @ f"
    using Cons.prems t by (auto split: prod.splits)
  have "d @ s_rxBuf s1 = (e @ s_rxBuf t) @ received xs"
    using Cons.IH [OF f] d by simp
  also have "\<dots> = s_rxBuf s @ received (x # xs)"
    unfolding sess_step_buffer [OF t] received_Cons [of x xs] by simp
  finally show ?case .
qed simp

lemma sess_step_RX:
  "sess_step s x = (s1, d) \<Longrightarrow>
   s_BytesRX s1 = s_BytesRX s + of_nat (length (received [x]))"
  by (cases x) (auto simp: session_defs split: if_splits prod.splits)

lemma sess_run_RX:
  "sess_run s xs = (s1, d) \<Longrightarrow> s_BytesRX s1 = s_BytesRX s + of_nat (length (received xs))"
proof (induction xs arbitrary: s d)
  case (Cons x xs)
  obtain t e where t: "sess_step s x = (t, e)" by force
  obtain f where f: "sess_run t xs = (s1, f)" using Cons.prems t by (auto split: prod.splits)
  show ?case
    unfolding Cons.IH [OF f] sess_step_RX [OF t] received_Cons [of x xs] by simp
qed simp

text \<open>What no operation changes.\<close>

lemma sess_step_frame:
  "s_ID (fst (sess_step s x)) = s_ID s \<and> s_Port (fst (sess_step s x)) = s_Port s
   \<and> s_RemoteAddr (fst (sess_step s x)) = s_RemoteAddr s
   \<and> s_ConnectedAt (fst (sess_step s x)) = s_ConnectedAt s"
  by (cases x) (auto simp: session_defs split: prod.splits)

lemma sess_run_frame:
  "s_ID (fst (sess_run s xs)) = s_ID s \<and> s_Port (fst (sess_run s xs)) = s_Port s
   \<and> s_RemoteAddr (fst (sess_run s xs)) = s_RemoteAddr s"
proof (induction xs arbitrary: s)
  case (Cons x xs)
  then show ?case
    using sess_step_frame [of s x] by (simp split: prod.splits) (metis fst_conv)
qed simp

text \<open>A closed connection stays closed and takes no more bytes.\<close>

lemma sess_step_closed:
  "c_closed (s_Conn s) \<Longrightarrow>
   c_closed (s_Conn (fst (sess_step s x))) \<and> c_out (s_Conn (fst (sess_step s x))) = c_out (s_Conn s)"
  by (cases x) (auto simp: session_defs split: prod.splits)

text \<open>Only \<open>SetState\<close> takes a session out of the dead state.\<close>

definition revives :: "sess_op \<Rightarrow> bool" where
  "revives x \<longleftrightarrow> (\<exists>st. x = StateOp st \<and> st \<noteq> StateDead)"

lemma sess_step_dead:
  "s_state s = StateDead \<Longrightarrow> \<not> revives x \<Longrightarrow> s_state (fst (sess_step s x)) = StateDead"
  by (cases x) (auto simp: revives_def session_defs split: prod.splits)

lemma sess_run_dead:
  "s_state s = StateDead \<Longrightarrow> \<forall>x\<in>set xs. \<not> revives x \<Longrightarrow> s_state (fst (sess_run s xs)) = StateDead"
proof (induction xs arbitrary: s)
  case (Cons x xs)
  then have "s_state (fst (sess_step s x)) = StateDead" by (simp add: sess_step_dead)
  with Cons show ?case by (simp split: prod.splits) (metis fst_conv)
qed simp

lemma session_Write_count:
  assumes "session_Write s d ans = (s1, n, err)" and "writes_ok ans"
  shows "n \<le> length d \<and> s_BytesTX s1 = s_BytesTX s + of_nat n
    \<and> c_out (s_Conn s1) = c_out (s_Conn s) @ take n d \<and> (err = None \<longrightarrow> n = length d)"
proof (cases "c_closed (s_Conn s)")
  case True
  with assms show ?thesis by (auto simp: session_defs)
next
  case False
  then have n: "n = fst (ans d)" and err: "err = snd (ans d)"
    using assms(1) by (auto simp: session_defs case_prod_beta)
  have "n \<le> length d" "err = None \<longrightarrow> n = length d"
    using assms(2) unfolding writes_ok_def n err by (metis le_neq_implies_less)+
  with assms(1) False show ?thesis by (auto simp: session_defs case_prod_beta)
qed

end
