(* ===== verification/Session_Mgr.thy ===== *)
theory Session_Mgr
  imports Session_Model
begin

text \<open>
  \<open>internal/session/manager.go\<close>. Sessions are shared by pointer: the manager's map, the
  goroutines of a listener and the REPL hold the same object. The store makes the pointers
  explicit: \<open>st_heap\<close> holds every session ever accepted, an address is a position in it,
  and the manager's map goes from identifiers to addresses. Operations that range over the
  map take the order of the range as an argument.
\<close>

record store =
  st_heap :: "session list"
  st_sessions :: "int \<rightharpoonup> nat"
  st_counter :: "32 word"

definition NewManager :: store where
  "NewManager = \<lparr>st_heap = [], st_sessions = Map.empty, st_counter = 0\<rparr>"

definition sess :: "store \<Rightarrow> nat \<Rightarrow> session" where
  "sess st a = st_heap st ! a"

definition upd_sess :: "nat \<Rightarrow> (session \<Rightarrow> session) \<Rightarrow> store \<Rightarrow> store" where
  "upd_sess a f st = st\<lparr>st_heap := (st_heap st)[a := f (sess st a)]\<rparr>"

definition mgr_Accept :: "int \<Rightarrow> conn \<Rightarrow> int \<Rightarrow> store \<Rightarrow> nat \<times> store" where
  "mgr_Accept port c now st =
     (let cnt = st_counter st + 1;
          sid = sint cnt;
          a = length (st_heap st)
      in (a, st\<lparr>st_heap := st_heap st @ [newSession sid port c now],
                st_sessions := (st_sessions st)(sid \<mapsto> a),
                st_counter := cnt\<rparr>))"

definition mgr_Get :: "int \<Rightarrow> store \<Rightarrow> nat option" where
  "mgr_Get sid st = st_sessions st sid"

definition ByPort :: "int list \<Rightarrow> int \<Rightarrow> store \<Rightarrow> nat list" where
  "ByPort ord port st =
     filter (\<lambda>a. s_Port (sess st a) = port \<and> s_state (sess st a) \<noteq> StateDead)
       (range_vals ord (st_sessions st))"

definition mgr_All :: "int list \<Rightarrow> store \<Rightarrow> nat list" where
  "mgr_All ord st = filter (\<lambda>a. s_state (sess st a) \<noteq> StateDead) (range_vals ord (st_sessions st))"

definition mgr_Remove :: "int \<Rightarrow> store \<Rightarrow> store" where
  "mgr_Remove sid st = st\<lparr>st_sessions := (st_sessions st)(sid := None)\<rparr>"

definition mgr_CloseAll :: "int list \<Rightarrow> int \<Rightarrow> store \<Rightarrow> store" where
  "mgr_CloseAll ord port st = fold (\<lambda>a. upd_sess a session_Close) (ByPort ord port st) st"

section \<open>The invariant of the store\<close>

definition store_wf :: "store \<Rightarrow> bool" where
  "store_wf st \<longleftrightarrow> finite (dom (st_sessions st)) \<and>
     (\<forall>sid a. st_sessions st sid = Some a \<longrightarrow> a < length (st_heap st) \<and> s_ID (sess st a) = sid)"

lemma store_wfD:
  "store_wf st \<Longrightarrow> st_sessions st sid = Some a \<Longrightarrow> a < length (st_heap st) \<and> s_ID (sess st a) = sid"
  by (simp add: store_wf_def)

lemma store_wf_inj: "store_wf st \<Longrightarrow> inj_on (st_sessions st) (dom (st_sessions st))"
  by (rule inj_onI) (metis domD store_wfD)

lemma NewManager_wf [wf_intros]: "store_wf NewManager"
  by (simp add: store_wf_def NewManager_def)

lemma sess_upd:
  "a < length (st_heap st) \<Longrightarrow> sess (upd_sess a f st) b = (if b = a then f (sess st a) else sess st b)"
  by (simp add: sess_def upd_sess_def nth_list_update)

lemma sess_upd_other: "b \<noteq> a \<Longrightarrow> sess (upd_sess a f st) b = sess st b"
  by (simp add: sess_def upd_sess_def)

lemma upd_sess_frame [simp]:
  "st_sessions (upd_sess a f st) = st_sessions st"
  "st_counter (upd_sess a f st) = st_counter st"
  "length (st_heap (upd_sess a f st)) = length (st_heap st)"
  by (simp_all add: upd_sess_def)

lemma upd_sess_wf [wf_intros]:
  assumes "store_wf st" and "\<And>s. s_ID (f s) = s_ID s"
  shows "store_wf (upd_sess a f st)"
proof (cases "a < length (st_heap st)")
  case True
  with assms show ?thesis by (simp add: store_wf_def sess_upd)
next
  case False
  then have "upd_sess a f st = st" by (simp add: upd_sess_def list_update_beyond)
  with assms show ?thesis by simp
qed

lemma mgr_Accept_wf [wf_intros]: "store_wf st \<Longrightarrow> store_wf (snd (mgr_Accept port c now st))"
  by (auto simp: store_wf_def mgr_Accept_def Let_def sess_def nth_append newSession_def less_SucI)

lemma mgr_Remove_wf [wf_intros]: "store_wf st \<Longrightarrow> store_wf (mgr_Remove sid st)"
  by (auto simp: store_wf_def mgr_Remove_def sess_def)

lemma mgr_Remove_frame [simp]:
  "st_heap (mgr_Remove sid st) = st_heap st" "sess (mgr_Remove sid st) = sess st"
  "st_counter (mgr_Remove sid st) = st_counter st"
  "st_sessions (mgr_Remove sid st) = (st_sessions st)(sid := None)"
  by (simp_all add: mgr_Remove_def sess_def [abs_def])

lemma session_ops_ID [simp]:
  "s_ID (SetState s t) = s_ID s" "s_ID (session_Close s) = s_ID s"
  "s_ID (session_ForceClose s) = s_ID s" "s_ID (AddHistory s l) = s_ID s"
  "s_ID (fst (session_Write s d ans)) = s_ID s" "s_ID (snd (ReadBuffered s)) = s_ID s"
  "s_ID (snd (DrainRxBuf s)) = s_ID s" "s_ID (fst (rx_turn s now d e)) = s_ID s"
  by (simp_all add: session_defs split: prod.splits)

lemma session_ops_Port [simp]:
  "s_Port (SetState s t) = s_Port s" "s_Port (session_Close s) = s_Port s"
  "s_Port (session_ForceClose s) = s_Port s" "s_Port (AddHistory s l) = s_Port s"
  "s_Port (fst (session_Write s d ans)) = s_Port s" "s_Port (snd (ReadBuffered s)) = s_Port s"
  "s_Port (snd (DrainRxBuf s)) = s_Port s" "s_Port (fst (rx_turn s now d e)) = s_Port s"
  by (simp_all add: session_defs split: prod.splits)

lemma close_dead [simp]:
  "s_state (session_Close s) = StateDead" "s_state (session_ForceClose s) = StateDead"
  "s_state (SetState s t) = t"
  by (simp_all add: session_defs)

section \<open>The abstract manager: a map from identifiers to sessions\<close>

definition mgr_view :: "store \<Rightarrow> (int \<rightharpoonup> session)" where
  "mgr_view st = (\<lambda>sid. map_option (sess st) (st_sessions st sid))"

definition live_on :: "int \<Rightarrow> session \<Rightarrow> bool" where
  "live_on port s \<longleftrightarrow> s_Port s = port \<and> s_state s \<noteq> StateDead"

lemma dom_mgr_view: "dom (mgr_view st) = dom (st_sessions st)"
  by (auto simp: mgr_view_def)

lemma view_NewManager: "mgr_view NewManager = Map.empty"
  by (simp add: mgr_view_def NewManager_def)

lemma view_Accept:
  assumes "store_wf st"
  shows "mgr_view (snd (mgr_Accept port c now st)) =
    (mgr_view st)(sint (st_counter st + 1) \<mapsto> newSession (sint (st_counter st + 1)) port c now)"
proof
  fix x
  show "mgr_view (snd (mgr_Accept port c now st)) x =
    ((mgr_view st)(sint (st_counter st + 1) \<mapsto> newSession (sint (st_counter st + 1)) port c now)) x"
    using store_wfD [OF assms, of x]
    by (cases "st_sessions st x")
       (auto simp: mgr_view_def mgr_Accept_def Let_def sess_def nth_append)
qed

lemma view_Remove: "mgr_view (mgr_Remove sid st) = (mgr_view st)(sid := None)"
  by (simp add: mgr_view_def mgr_Remove_def sess_def [abs_def] fun_eq_iff)

lemma view_upd:
  assumes wf: "store_wf st" and at: "st_sessions st sid = Some a"
  shows "mgr_view (upd_sess a f st) = (mgr_view st)(sid \<mapsto> f (sess st a))"
proof
  fix x
  have a: "a < length (st_heap st)" using wf at by (simp add: store_wfD)
  have "x = sid" if "st_sessions st x = Some a"
    using store_wfD [OF wf that] store_wfD [OF wf at] by simp
  with a at show "mgr_view (upd_sess a f st) x = ((mgr_view st)(sid \<mapsto> f (sess st a))) x"
    by (cases "st_sessions st x") (auto simp: mgr_view_def sess_upd)
qed

section \<open>Selecting sessions\<close>

lemma set_ByPort:
  "enumerates ord (st_sessions st) \<Longrightarrow>
   set (ByPort ord port st) =
     {a. \<exists>sid. st_sessions st sid = Some a \<and> live_on port (sess st a)}"
  by (auto simp: ByPort_def set_range_vals enumerates_def live_on_def dest: sym)

lemma distinct_ByPort:
  "store_wf st \<Longrightarrow> enumerates ord (st_sessions st) \<Longrightarrow> distinct (ByPort ord port st)"
  by (simp add: ByPort_def enumerates_def distinct_range_vals store_wf_inj)

lemma ByPort_mem:
  "a \<in> set (ByPort ord port st) \<Longrightarrow>
   live_on port (sess st a) \<and> (\<exists>sid. st_sessions st sid = Some a)"
  by (auto simp: ByPort_def set_range_vals live_on_def)

lemma ByPort_length_order:
  assumes "store_wf st" "enumerates ord (st_sessions st)" "enumerates ord' (st_sessions st)"
  shows "length (ByPort ord port st) = length (ByPort ord' port st)"
  using assms distinct_ByPort set_ByPort by (metis distinct_card)

lemma set_mgr_All:
  "enumerates ord (st_sessions st) \<Longrightarrow>
   set (mgr_All ord st) = {a. \<exists>sid. st_sessions st sid = Some a \<and> s_state (sess st a) \<noteq> StateDead}"
  by (auto simp: mgr_All_def set_range_vals enumerates_def dest: sym)

section \<open>Closing every session of a port\<close>

lemma fold_upd_frame:
  "st_sessions (fold (\<lambda>a. upd_sess a f) as st) = st_sessions st"
  "st_counter (fold (\<lambda>a. upd_sess a f) as st) = st_counter st"
  "length (st_heap (fold (\<lambda>a. upd_sess a f) as st)) = length (st_heap st)"
  by (induction as arbitrary: st) simp_all

lemma fold_upd_wf:
  "store_wf st \<Longrightarrow> (\<And>s. s_ID (f s) = s_ID s) \<Longrightarrow> store_wf (fold (\<lambda>a. upd_sess a f) as st)"
  by (induction as arbitrary: st) (simp_all add: upd_sess_wf)

lemma sess_fold_upd:
  "distinct as \<Longrightarrow> \<forall>a\<in>set as. a < length (st_heap st) \<Longrightarrow>
   sess (fold (\<lambda>a. upd_sess a f) as st) b = (if b \<in> set as then f (sess st b) else sess st b)"
proof (induction as arbitrary: st)
  case (Cons a as)
  then have "sess (fold (\<lambda>a. upd_sess a f) as (upd_sess a f st)) b
      = (if b \<in> set as then f (sess (upd_sess a f st) b) else sess (upd_sess a f st) b)"
    by (intro Cons.IH) auto
  with Cons.prems show ?case by (auto simp: sess_upd)
qed simp

lemma ByPort_bounds:
  "store_wf st \<Longrightarrow> \<forall>a\<in>set (ByPort ord port st). a < length (st_heap st)"
  using ByPort_mem store_wfD by blast

lemma sess_CloseAll:
  assumes "store_wf st" "enumerates ord (st_sessions st)"
  shows "sess (mgr_CloseAll ord port st) b =
    (if b \<in> set (ByPort ord port st) then session_Close (sess st b) else sess st b)"
  unfolding mgr_CloseAll_def
  by (rule sess_fold_upd [OF distinct_ByPort [OF assms] ByPort_bounds [OF assms(1)]])

lemma mgr_CloseAll_wf [wf_intros]: "store_wf st \<Longrightarrow> store_wf (mgr_CloseAll ord port st)"
  by (simp add: mgr_CloseAll_def fold_upd_wf)

lemma mgr_CloseAll_sessions [simp]: "st_sessions (mgr_CloseAll ord port st) = st_sessions st"
  by (simp add: mgr_CloseAll_def fold_upd_frame)

lemma view_CloseAll:
  assumes wf: "store_wf st" and ord: "enumerates ord (st_sessions st)"
  shows "mgr_view (mgr_CloseAll ord port st) =
    (\<lambda>sid. map_option (\<lambda>s. if live_on port s then session_Close s else s) (mgr_view st sid))"
proof
  fix sid
  show "mgr_view (mgr_CloseAll ord port st) sid =
      map_option (\<lambda>s. if live_on port s then session_Close s else s) (mgr_view st sid)"
    by (cases "st_sessions st sid") (auto simp: mgr_view_def sess_CloseAll [OF wf ord] set_ByPort [OF ord])
qed

section \<open>Identifiers\<close>

text \<open>
  The counter is an \<open>atomic.Int32\<close>. As long as fewer than \<open>2^31 - 1\<close> connections have been
  accepted, identifiers are positive, no larger than the counter, and a new one is fresh.
\<close>

definition ids_upto :: "store \<Rightarrow> bool" where
  "ids_upto st \<longleftrightarrow> 0 \<le> sint (st_counter st) \<and>
     (\<forall>sid\<in>dom (st_sessions st). 0 < sid \<and> sid \<le> sint (st_counter st))"

lemma sint_Suc:
  assumes "sint (w :: 32 word) < 2147483647"
  shows "sint (w + 1) = sint w + 1"
proof -
  have "sint (w + 1) = signed_take_bit 31 (sint w + 1)"
    by (simp add: sint_word_ariths)
  also have "\<dots> = sint w + 1"
  proof (rule signed_take_bit_int_eq_self)
    have "- (2 ^ 31) \<le> sint w" using sint_ge [of w] by simp
    then show "- (2 ^ 31) \<le> sint w + 1" by simp
    show "sint w + 1 < 2 ^ 31" using assms by simp
  qed
  finally show ?thesis .
qed

lemma mgr_Accept_fresh:
  assumes "ids_upto st" and "sint (st_counter st) < 2147483647"
  shows "sint (st_counter st + 1) \<notin> dom (st_sessions st)
    \<and> ids_upto (snd (mgr_Accept port c now st))"
proof -
  define i where "i = sint (st_counter st + 1)"
  have i: "i = sint (st_counter st) + 1" unfolding i_def by (rule sint_Suc [OF assms(2)])
  have le: "0 < sid \<and> sid < i" if "sid \<in> dom (st_sessions st)" for sid
    using assms(1) that i unfolding ids_upto_def by fastforce
  have "0 < i" using assms(1) i by (simp add: ids_upto_def)
  moreover have "i \<notin> dom (st_sessions st)" using le by blast
  ultimately show ?thesis
    using le unfolding ids_upto_def mgr_Accept_def Let_def i_def [symmetric]
    by (simp add: i_def [symmetric]) (meson domI less_le)
qed

lemma mgr_Accept_wrap: "st_counter st = 2147483647 \<Longrightarrow> sint (st_counter st + 1) = - 2147483648"
  by simp

end
