(* ===== verification/Go_Env.thy ===== *)
theory Go_Env
  imports Session_Mgr
begin

text \<open>
  What surrounds the program: cancellable contexts, and the environment of a command. The
  environment record collects everything a command asks of the operating system, the clock,
  the user or the terminal library, together with the order in which it happens to range
  over each map; every operation that depends on one of these takes it from here.
\<close>

section \<open>Contexts\<close>

text \<open>
  A context is the list of its own identifier and those of its ancestors; the background
  context is the empty list. It is done when one of them has been cancelled.
\<close>

type_synonym ctx = "nat list"

record ctxs =
  cx_next :: nat
  cx_cancelled :: "nat list"

definition ctxs_init :: ctxs where
  "ctxs_init = \<lparr>cx_next = 0, cx_cancelled = []\<rparr>"

definition with_cancel :: "ctx \<Rightarrow> 'a ctxs_scheme \<Rightarrow> ctx \<times> 'a ctxs_scheme" where
  "with_cancel parent cs = (cx_next cs # parent, cs\<lparr>cx_next := Suc (cx_next cs)\<rparr>)"

definition cancel :: "ctx \<Rightarrow> 'a ctxs_scheme \<Rightarrow> 'a ctxs_scheme" where
  "cancel c cs = (case c of [] \<Rightarrow> cs | i # _ \<Rightarrow> cs\<lparr>cx_cancelled := i # cx_cancelled cs\<rparr>)"

definition ctx_done :: "'a ctxs_scheme \<Rightarrow> ctx \<Rightarrow> bool" where
  "ctx_done cs c \<longleftrightarrow> (\<exists>i\<in>set c. i \<in> set (cx_cancelled cs))"

definition ctxs_wf :: "'a ctxs_scheme \<Rightarrow> bool" where
  "ctxs_wf cs \<longleftrightarrow> (\<forall>i\<in>set (cx_cancelled cs). i < cx_next cs)"

lemma ctx_done_cancel: "c \<noteq> [] \<Longrightarrow> ctx_done (cancel c cs) d \<longleftrightarrow> hd c \<in> set d \<or> ctx_done cs d"
  by (cases c) (auto simp: ctx_done_def cancel_def)

lemma ctx_done_mono: "ctx_done cs d \<Longrightarrow> ctx_done (cancel c cs) d"
  by (cases c) (auto simp: ctx_done_def cancel_def)

lemma with_cancel_done:
  "ctxs_wf cs \<Longrightarrow> with_cancel p cs = (c, cs') \<Longrightarrow>
   (ctx_done cs' c \<longleftrightarrow> ctx_done cs p) \<and> ctxs_wf cs' \<and> (ctx_done cs' d \<longleftrightarrow> ctx_done cs d)"
  by (auto simp: with_cancel_def ctx_done_def ctxs_wf_def less_Suc_eq)

lemma cancel_frame [simp]: "cx_next (cancel c cs) = cx_next cs"
  by (simp add: cancel_def split: list.split)

section \<open>The environment of a command\<close>

text \<open>
  A style of the terminal library (lipgloss) as the attributes the program sets on it;
  \<open>e_render\<close> is the library's \<open>Style.Render\<close>.
\<close>

record lstyle =
  ls_fg :: "string option"
  ls_bold :: bool
  ls_border_bottom :: bool
  ls_width :: "nat option"

record env =
  e_render :: "lstyle \<Rightarrow> string \<Rightarrow> string"
  e_now :: int
  e_write :: write_answer
  e_listen :: "string \<Rightarrow> string option"
  e_is_ip :: "string \<Rightarrow> bool"
  e_iface :: "string \<Rightarrow> string + string + string option list"
  e_open_file :: "string \<Rightarrow> string option"
  e_shell :: "string \<Rightarrow> string \<times> string option"
  e_scan :: string
  e_ord_sess :: "int list"
  e_ord_ports :: "int list"
  e_ord_fwds :: "int list"

text \<open>A concrete environment: a plain terminal, a network where everything succeeds.\<close>

definition plain_env :: env where
  "plain_env = \<lparr>e_render = (\<lambda>_ s. s), e_now = 0, e_write = (\<lambda>d. (length d, None)),
     e_listen = (\<lambda>_. None), e_is_ip = (\<lambda>_. True), e_iface = (\<lambda>_. Inl ''no such interface''),
     e_open_file = (\<lambda>_. None), e_shell = (\<lambda>_. ([], None)), e_scan = [],
     e_ord_sess = [], e_ord_ports = [], e_ord_fwds = []\<rparr>"

end
