(* ===== verification/Ui_Model.thy ===== *)
theory Ui_Model
  imports Go_Env
begin

text \<open>The styles and inline notifications of \<open>pkg/ui/theme.go\<close>.\<close>

definition lstyle_new :: lstyle where
  "lstyle_new = \<lparr>ls_fg = None, ls_bold = False, ls_border_bottom = False, ls_width = None\<rparr>"

definition fg :: "string \<Rightarrow> lstyle \<Rightarrow> lstyle" where "fg c s = s\<lparr>ls_fg := Some c\<rparr>"
definition bold :: "lstyle \<Rightarrow> lstyle" where "bold s = s\<lparr>ls_bold := True\<rparr>"

definition colorActive :: string where "colorActive = ''10''"
definition colorBackground :: string where "colorBackground = ''11''"
definition colorDead :: string where "colorDead = ''9''"
definition colorForeground :: string where "colorForeground = ''14''"
definition colorForward :: string where "colorForward = ''12''"
definition colorProxy :: string where "colorProxy = ''13''"
definition colorMuted :: string where "colorMuted = ''8''"
definition colorBold :: string where "colorBold = ''15''"

definition StyleActive :: lstyle where "StyleActive = bold (fg colorActive lstyle_new)"
definition StyleBackground :: lstyle where "StyleBackground = bold (fg colorBackground lstyle_new)"
definition StyleDead :: lstyle where "StyleDead = fg colorDead lstyle_new"
definition StyleForeground :: lstyle where "StyleForeground = bold (fg colorForeground lstyle_new)"
definition StyleForward :: lstyle where "StyleForward = bold (fg colorForward lstyle_new)"
definition StyleProxy :: lstyle where "StyleProxy = bold (fg colorProxy lstyle_new)"
definition StyleMuted :: lstyle where "StyleMuted = fg colorMuted lstyle_new"
definition StyleBold :: lstyle where "StyleBold = bold (fg colorBold lstyle_new)"
definition StyleHeader :: lstyle where
  "StyleHeader = (fg colorBold (bold lstyle_new))\<lparr>ls_border_bottom := True\<rparr>"
definition StylePrompt :: lstyle where "StylePrompt = bold (fg colorActive lstyle_new)"
definition StyleError :: lstyle where "StyleError = bold (fg colorDead lstyle_new)"
definition StyleInfo :: lstyle where "StyleInfo = fg colorForeground lstyle_new"
definition StyleWarn :: lstyle where "StyleWarn = fg colorBackground lstyle_new"

text \<open>The callers pass the formatted message.\<close>

definition ui_Infof :: "env \<Rightarrow> string \<Rightarrow> string" where
  "ui_Infof E msg = e_render E StyleInfo ''[+] '' @ e_render E lstyle_new msg"

definition ui_Errorf :: "env \<Rightarrow> string \<Rightarrow> string" where
  "ui_Errorf E msg = e_render E StyleError ''[!] '' @ e_render E lstyle_new msg"

definition ui_Warnf :: "env \<Rightarrow> string \<Rightarrow> string" where
  "ui_Warnf E msg = e_render E StyleWarn ''[~] '' @ e_render E lstyle_new msg"

definition nl :: string where "nl = [CHR 0x0A]"

definition em_dash :: string where "em_dash = [CHR 0xE2, CHR 0x80, CHR 0x94]"

definition long_arrow :: string where
  "long_arrow = [CHR 0xE2, CHR 0x94, CHR 0x80, CHR 0xE2, CHR 0x94, CHR 0x80, CHR 0xE2, CHR 0x96, CHR 0xBA]"

definition Banner :: "env \<Rightarrow> string \<Rightarrow> string" where
  "Banner E version =
     (let art = concat
        [nl, ''  _                 _'',
         nl, '' | |_ ___ _ __  ___| |__'',
         nl, '' | __/ __| '', [CHR 0x27], ''_ '', [CHR 0x5C], ''/ __| '', [CHR 0x27], ''_ '', [CHR 0x5C],
         nl, '' | || (__| |_) '', [CHR 0x5C], ''__ '', [CHR 0x5C], '' | | |'',
         nl, ''  '', [CHR 0x5C], ''__'', [CHR 0x5C], ''___| .__/|___/_| |_|'',
         nl, ''         |_|''];
          tag = e_render E StyleMuted ''TCP connection manager  ''
                  @ e_render E StyleActive (''v'' @ version)
      in e_render E StyleBold art @ nl @ tag @ nl)"

end
