(* ===== verification/Forward_Model.thy ===== *)
theory Forward_Model
  imports Ui_Model
begin

text \<open>
  The forward manager: \<open>internal/forward/manager.go\<close>, and the objects it starts, of
  \<open>internal/forward/forwarder.go\<close> and \<open>internal/forward/proxy.go\<close>. Opening and closing
  work on the contexts and the manager together. What happens to one forwarded connection
  is in the theory \<open>Forward_Pipe\<close>.
\<close>

section \<open>Rules, forwarders, proxies and entries\<close>

record rule =
  r_LocalPort :: int
  r_RemoteHost :: string
  r_RemotePort :: int
  r_IsProxy :: bool
  r_LogFile :: string

definition RemoteAddr :: "rule \<Rightarrow> string" where
  "RemoteAddr r = r_RemoteHost r @ '':'' @ itoa (r_RemotePort r)"

record forwarder =
  f_Rule :: rule
  f_ctx :: ctx
  f_closed :: bool
  f_dialTimeout :: int
  f_pipes :: nat
  f_totalTX :: "64 word"
  f_totalRX :: "64 word"

datatype log_dest = Stdout | LogFile string

record proxy =
  p_Rule :: rule
  p_ctx :: ctx
  p_closed :: bool
  p_dialTimeout :: int
  p_logOut :: log_dest

record entry =
  en_Rule :: rule
  en_fwd :: "forwarder option"
  en_proxy :: "proxy option"

record fmgr =
  fm_entries :: "int \<rightharpoonup> entry"
  fm_timeout :: int

definition listen_addr :: "int \<Rightarrow> string" where
  "listen_addr port = '':'' @ itoa port"

definition startForwarder ::
  "env \<Rightarrow> ctx \<Rightarrow> rule \<Rightarrow> int \<Rightarrow> 'a ctxs_scheme \<Rightarrow> string + forwarder \<times> 'a ctxs_scheme" where
  "startForwarder E ctx rule dialTimeout cs =
     (case e_listen E (listen_addr (r_LocalPort rule)) of
        Some err \<Rightarrow> Inl (''forward listen :'' @ itoa (r_LocalPort rule) @ '': '' @ err)
      | None \<Rightarrow>
          (case with_cancel ctx cs of
             (c, cs1) \<Rightarrow>
               Inr (\<lparr>f_Rule = rule, f_ctx = c, f_closed = False, f_dialTimeout = dialTimeout,
                     f_pipes = 0, f_totalTX = 0, f_totalRX = 0\<rparr>, cs1)))"

definition startProxy ::
  "env \<Rightarrow> ctx \<Rightarrow> rule \<Rightarrow> int \<Rightarrow> 'a ctxs_scheme \<Rightarrow> string + proxy \<times> 'a ctxs_scheme" where
  "startProxy E ctx rule dialTimeout cs =
     (case e_listen E (listen_addr (r_LocalPort rule)) of
        Some err \<Rightarrow> Inl (''proxy listen :'' @ itoa (r_LocalPort rule) @ '': '' @ err)
      | None \<Rightarrow>
          let out = (if r_LogFile rule = [] then Inr Stdout
                     else case e_open_file E (r_LogFile rule) of
                            Some err \<Rightarrow> Inl (''proxy log file '' @ r_LogFile rule @ '': '' @ err)
                          | None \<Rightarrow> Inr (LogFile (r_LogFile rule)))
          in case out of
               Inl err \<Rightarrow> Inl err
             | Inr dest \<Rightarrow>
                 (case with_cancel ctx cs of
                    (c, cs1) \<Rightarrow>
                      Inr (\<lparr>p_Rule = rule, p_ctx = c, p_closed = False,
                            p_dialTimeout = dialTimeout, p_logOut = dest\<rparr>, cs1)))"

definition forwarder_Close :: "forwarder \<Rightarrow> 'a ctxs_scheme \<Rightarrow> forwarder \<times> 'a ctxs_scheme" where
  "forwarder_Close f cs = (f\<lparr>f_closed := True\<rparr>, cancel (f_ctx f) cs)"

definition proxy_Close :: "proxy \<Rightarrow> 'a ctxs_scheme \<Rightarrow> proxy \<times> 'a ctxs_scheme" where
  "proxy_Close p cs = (p\<lparr>p_closed := True\<rparr>, cancel (p_ctx p) cs)"

definition forwarder_Stats :: "forwarder \<Rightarrow> int \<times> int" where
  "forwarder_Stats f = (sint (f_totalTX f), sint (f_totalRX f))"

definition proxy_SetLogFile :: "env \<Rightarrow> string \<Rightarrow> proxy \<Rightarrow> string + proxy" where
  "proxy_SetLogFile E path p =
     (if path = [] then Inr (p\<lparr>p_logOut := Stdout\<rparr>)
      else case e_open_file E path of
             Some err \<Rightarrow> Inl err
           | None \<Rightarrow> Inr (p\<lparr>p_logOut := LogFile path\<rparr>))"

definition entry_IsProxy :: "entry \<Rightarrow> bool" where
  "entry_IsProxy e = r_IsProxy (en_Rule e)"

definition entry_Close :: "entry \<Rightarrow> 'a ctxs_scheme \<Rightarrow> 'a ctxs_scheme" where
  "entry_Close e cs =
     (let cs1 = (case en_fwd e of None \<Rightarrow> cs | Some f \<Rightarrow> snd (forwarder_Close f cs))
      in case en_proxy e of None \<Rightarrow> cs1 | Some p \<Rightarrow> snd (proxy_Close p cs1))"

definition entry_Stats :: "entry \<Rightarrow> int \<times> int" where
  "entry_Stats e = (case en_fwd e of Some f \<Rightarrow> forwarder_Stats f | None \<Rightarrow> (0, 0))"

definition entry_SetLogFile :: "env \<Rightarrow> string \<Rightarrow> entry \<Rightarrow> string + entry" where
  "entry_SetLogFile E path e =
     (case en_proxy e of
        None \<Rightarrow> Inl ''not a proxy''
      | Some p \<Rightarrow> (case proxy_SetLogFile E path p of
            Inl err \<Rightarrow> Inl err
          | Inr p1 \<Rightarrow> Inr (e\<lparr>en_proxy := Some p1\<rparr>)))"

section \<open>The manager\<close>

definition fm_NewManager :: "int \<Rightarrow> fmgr" where
  "fm_NewManager dialTimeoutSecs =
     \<lparr>fm_entries = Map.empty, fm_timeout = dialTimeoutSecs * 1000000000\<rparr>"

definition in_use_err :: "int \<Rightarrow> string" where
  "in_use_err port = ''port '' @ itoa port @ '' already in use by a forward/proxy''"

definition fm_Open ::
  "env \<times> ctx \<times> string \<times> int \<Rightarrow> int \<Rightarrow> 'a ctxs_scheme \<times> fmgr \<Rightarrow> string + 'a ctxs_scheme \<times> fmgr" where
  "fm_Open = (\<lambda>(E, ctx, remoteHost, remotePort) localPort (cs, m).
     if fm_entries m localPort \<noteq> None then Inl (in_use_err localPort)
     else
       let rule = \<lparr>r_LocalPort = localPort, r_RemoteHost = remoteHost, r_RemotePort = remotePort,
                   r_IsProxy = False, r_LogFile = []\<rparr>
       in case startForwarder E ctx rule (fm_timeout m) cs of
            Inl err \<Rightarrow> Inl err
          | Inr (f, cs1) \<Rightarrow>
              Inr (cs1, m\<lparr>fm_entries := (fm_entries m)(localPort \<mapsto>
                     \<lparr>en_Rule = rule, en_fwd = Some f, en_proxy = None\<rparr>)\<rparr>))"

definition fm_OpenProxy ::
  "env \<times> ctx \<times> string \<times> int \<times> string \<Rightarrow> int \<Rightarrow> 'a ctxs_scheme \<times> fmgr
    \<Rightarrow> string + 'a ctxs_scheme \<times> fmgr" where
  "fm_OpenProxy = (\<lambda>(E, ctx, remoteHost, remotePort, logFile) localPort (cs, m).
     if fm_entries m localPort \<noteq> None then Inl (in_use_err localPort)
     else
       let rule = \<lparr>r_LocalPort = localPort, r_RemoteHost = remoteHost, r_RemotePort = remotePort,
                   r_IsProxy = True, r_LogFile = logFile\<rparr>
       in case startProxy E ctx rule (fm_timeout m) cs of
            Inl err \<Rightarrow> Inl err
          | Inr (p, cs1) \<Rightarrow>
              Inr (cs1, m\<lparr>fm_entries := (fm_entries m)(localPort \<mapsto>
                     \<lparr>en_Rule = rule, en_fwd = None, en_proxy = Some p\<rparr>)\<rparr>))"

definition fm_Close :: "unit \<Rightarrow> int \<Rightarrow> 'a ctxs_scheme \<times> fmgr \<Rightarrow> string + 'a ctxs_scheme \<times> fmgr" where
  "fm_Close = (\<lambda>_ localPort (cs, m).
     case fm_entries m localPort of
       None \<Rightarrow> Inl (''no forward/proxy on port '' @ itoa localPort)
     | Some e \<Rightarrow> Inr (entry_Close e cs, m\<lparr>fm_entries := (fm_entries m)(localPort := None)\<rparr>))"

definition fm_Get :: "fmgr \<Rightarrow> int \<Rightarrow> entry option" where
  "fm_Get m localPort = fm_entries m localPort"

definition fm_All :: "int list \<Rightarrow> fmgr \<Rightarrow> entry list" where
  "fm_All ord m = range_vals ord (fm_entries m)"

definition fm_Forwards :: "int list \<Rightarrow> fmgr \<Rightarrow> entry list" where
  "fm_Forwards ord m = filter (\<lambda>e. \<not> entry_IsProxy e) (fm_All ord m)"

definition fm_Proxies :: "int list \<Rightarrow> fmgr \<Rightarrow> entry list" where
  "fm_Proxies ord m = filter entry_IsProxy (fm_All ord m)"

definition fm_CloseAll :: "int list \<Rightarrow> 'a ctxs_scheme \<times> fmgr \<Rightarrow> 'a ctxs_scheme \<times> fmgr" where
  "fm_CloseAll ord s =
     fold (\<lambda>p s. case fm_Close () p s of Inl _ \<Rightarrow> s | Inr t \<Rightarrow> t)
       (filter (\<lambda>p. fm_entries (snd s) p \<noteq> None) ord) s"

text \<open>\<open>Get\<close> hands out a pointer: setting the log file of an entry changes it in the map.\<close>

definition fm_SetLogFile :: "env \<Rightarrow> int \<Rightarrow> string \<Rightarrow> fmgr \<Rightarrow> string + fmgr" where
  "fm_SetLogFile E port path m =
     (case fm_Get m port of
        None \<Rightarrow> Inl (''no proxy on port '' @ itoa port)
      | Some e \<Rightarrow> (case entry_SetLogFile E path e of
            Inl err \<Rightarrow> Inl err
          | Inr e1 \<Rightarrow> Inr (m\<lparr>fm_entries := (fm_entries m)(port \<mapsto> e1)\<rparr>)))"

section \<open>The forward table is a table of ports, twice\<close>

definition fm_present :: "'a ctxs_scheme \<times> fmgr \<Rightarrow> int \<Rightarrow> bool" where
  "fm_present s p \<longleftrightarrow> fm_entries (snd s) p \<noteq> None"

lemma fm_Open_Inr:
  "fm_Open (E, ctx, host, rport) p (cs, m) = Inr t \<longleftrightarrow>
   fm_entries m p = None \<and> e_listen E (listen_addr p) = None \<and>
   t = (cs\<lparr>cx_next := Suc (cx_next cs)\<rparr>,
        m\<lparr>fm_entries := (fm_entries m)(p \<mapsto>
          (let rule = \<lparr>r_LocalPort = p, r_RemoteHost = host, r_RemotePort = rport,
                       r_IsProxy = False, r_LogFile = []\<rparr>
           in \<lparr>en_Rule = rule,
               en_fwd = Some \<lparr>f_Rule = rule, f_ctx = cx_next cs # ctx, f_closed = False,
                              f_dialTimeout = fm_timeout m, f_pipes = 0, f_totalTX = 0, f_totalRX = 0\<rparr>,
               en_proxy = None\<rparr>))\<rparr>)"
  by (auto simp: fm_Open_def startForwarder_def with_cancel_def Let_def split: option.splits)

lemma fm_OpenProxy_Inr:
  "fm_OpenProxy (E, ctx, host, rport, lf) p (cs, m) = Inr t \<longleftrightarrow>
   fm_entries m p = None \<and> e_listen E (listen_addr p) = None \<and>
   (lf = [] \<or> e_open_file E lf = None) \<and>
   t = (cs\<lparr>cx_next := Suc (cx_next cs)\<rparr>,
        m\<lparr>fm_entries := (fm_entries m)(p \<mapsto>
          (let rule = \<lparr>r_LocalPort = p, r_RemoteHost = host, r_RemotePort = rport,
                       r_IsProxy = True, r_LogFile = lf\<rparr>
           in \<lparr>en_Rule = rule, en_fwd = None,
               en_proxy = Some \<lparr>p_Rule = rule, p_ctx = cx_next cs # ctx, p_closed = False,
                 p_dialTimeout = fm_timeout m,
                 p_logOut = (if lf = [] then Stdout else LogFile lf)\<rparr>\<rparr>))\<rparr>)"
  by (auto simp: fm_OpenProxy_def startProxy_def with_cancel_def Let_def split: option.splits)

lemma fm_Close_Inr:
  "fm_Close u p (cs, m) = Inr t \<longleftrightarrow>
   (\<exists>e. fm_entries m p = Some e \<and> t = (entry_Close e cs, m\<lparr>fm_entries := (fm_entries m)(p := None)\<rparr>))"
  by (auto simp: fm_Close_def split: option.splits)

interpretation ft: port_table fm_present fm_Open fm_Close
proof
  fix s :: "'a ctxs_scheme \<times> fmgr" and p and a :: "env \<times> ctx \<times> string \<times> int"
  assume "fm_present s p"
  then show "\<exists>e. fm_Open a p s = Inl e"
    by (cases a; cases s) (auto simp: fm_present_def fm_Open_def)
next
  fix s t :: "'a ctxs_scheme \<times> fmgr" and p q and a :: "env \<times> ctx \<times> string \<times> int"
  assume "fm_Open a p s = Inr t"
  then show "fm_present t q \<longleftrightarrow> q = p \<or> fm_present s q"
    by (cases a; cases s) (auto simp: fm_present_def fm_Open_Inr)
next
  fix s :: "'a ctxs_scheme \<times> fmgr" and p and c :: unit
  assume "\<not> fm_present s p"
  then show "\<exists>e. fm_Close c p s = Inl e"
    by (cases s) (auto simp: fm_present_def fm_Close_def)
next
  fix s :: "'a ctxs_scheme \<times> fmgr" and p and c :: unit
  assume "fm_present s p"
  then show "\<exists>t. fm_Close c p s = Inr t \<and> (\<forall>q. fm_present t q \<longleftrightarrow> q \<noteq> p \<and> fm_present s q)"
    by (cases s) (auto simp: fm_present_def fm_Close_Inr)
qed

interpretation pt: port_table fm_present fm_OpenProxy fm_Close
proof
  fix s :: "'a ctxs_scheme \<times> fmgr" and p and a :: "env \<times> ctx \<times> string \<times> int \<times> string"
  assume "fm_present s p"
  then show "\<exists>e. fm_OpenProxy a p s = Inl e"
    by (cases a; cases s) (auto simp: fm_present_def fm_OpenProxy_def)
next
  fix s t :: "'a ctxs_scheme \<times> fmgr" and p q and a :: "env \<times> ctx \<times> string \<times> int \<times> string"
  assume "fm_OpenProxy a p s = Inr t"
  then show "fm_present t q \<longleftrightarrow> q = p \<or> fm_present s q"
    by (cases a; cases s) (auto simp: fm_present_def fm_OpenProxy_Inr)
qed (use ft.close_absent ft.close_removes in blast)+

lemma fm_CloseAll_close_list:
  "fm_CloseAll ord s = ft.close_list () (filter (\<lambda>p. fm_present s p) ord) s"
proof -
  have "fold (\<lambda>p s. case fm_Close () p s of Inl _ \<Rightarrow> s | Inr t \<Rightarrow> t) ps s = ft.close_list () ps s" for ps
    by (induction ps arbitrary: s) simp_all
  then show ?thesis by (simp add: fm_CloseAll_def fm_present_def)
qed

section \<open>The invariant of the table\<close>

text \<open>
  An entry sits under its own local port, and it holds a forwarder exactly when its rule is
  not a proxy rule, a proxy exactly when it is.
\<close>

definition entry_ok :: "int \<Rightarrow> entry \<Rightarrow> bool" where
  "entry_ok p e \<longleftrightarrow> r_LocalPort (en_Rule e) = p
     \<and> (en_fwd e \<noteq> None \<longleftrightarrow> \<not> r_IsProxy (en_Rule e)) \<and> (en_proxy e \<noteq> None \<longleftrightarrow> r_IsProxy (en_Rule e))"

definition fm_wf :: "fmgr \<Rightarrow> bool" where
  "fm_wf m \<longleftrightarrow> finite (dom (fm_entries m)) \<and> (\<forall>p e. fm_entries m p = Some e \<longrightarrow> entry_ok p e)"

lemma fm_NewManager_wf [wf_intros]: "fm_wf (fm_NewManager t)"
  by (simp add: fm_wf_def fm_NewManager_def)

lemma fm_wfD: "fm_wf m \<Longrightarrow> fm_entries m p = Some e \<Longrightarrow> entry_ok p e"
  by (simp add: fm_wf_def)

lemma fm_wf_put: "fm_wf m \<Longrightarrow> entry_ok p e \<Longrightarrow> fm_wf (m\<lparr>fm_entries := (fm_entries m)(p \<mapsto> e)\<rparr>)"
  by (simp add: fm_wf_def)

lemma fm_Open_wf [wf_intros]: "fm_wf m \<Longrightarrow> fm_Open a p (cs, m) = Inr (cs1, m1) \<Longrightarrow> fm_wf m1"
  by (cases a) (auto simp: fm_Open_Inr Let_def entry_ok_def intro!: fm_wf_put)

lemma fm_OpenProxy_wf [wf_intros]: "fm_wf m \<Longrightarrow> fm_OpenProxy a p (cs, m) = Inr (cs1, m1) \<Longrightarrow> fm_wf m1"
  by (cases a) (auto simp: fm_OpenProxy_Inr Let_def entry_ok_def intro!: fm_wf_put)

lemma fm_Close_wf [wf_intros]: "fm_wf m \<Longrightarrow> fm_Close u p (cs, m) = Inr (cs1, m1) \<Longrightarrow> fm_wf m1"
  by (auto simp: fm_Close_Inr fm_wf_def split: if_splits)

lemma fm_SetLogFile_Inr:
  "fm_SetLogFile E p path m = Inr m1 \<longleftrightarrow>
   (\<exists>e x. fm_entries m p = Some e \<and> en_proxy e = Some x \<and> (path = [] \<or> e_open_file E path = None)
     \<and> m1 = m\<lparr>fm_entries := (fm_entries m)(p \<mapsto>
          e\<lparr>en_proxy := Some (x\<lparr>p_logOut := (if path = [] then Stdout else LogFile path)\<rparr>)\<rparr>)\<rparr>)"
  by (auto simp: fm_SetLogFile_def fm_Get_def entry_SetLogFile_def proxy_SetLogFile_def
      split: option.splits sum.splits if_splits)

lemma fm_SetLogFile_wf [wf_intros]: "fm_wf m \<Longrightarrow> fm_SetLogFile E p path m = Inr m1 \<Longrightarrow> fm_wf m1"
proof -
  assume wf: "fm_wf m" and "fm_SetLogFile E p path m = Inr m1"
  then obtain e x y where e: "fm_entries m p = Some e" "en_proxy e = Some x"
    and m1: "m1 = m\<lparr>fm_entries := (fm_entries m)(p \<mapsto> e\<lparr>en_proxy := Some y\<rparr>)\<rparr>"
    by (auto simp: fm_SetLogFile_Inr)
  have "entry_ok p (e\<lparr>en_proxy := Some y\<rparr>)"
    using fm_wfD [OF wf e(1)] e(2) by (simp add: entry_ok_def)
  with wf show "fm_wf m1" unfolding m1 by (rule fm_wf_put)
qed

lemma set_fm_All: "enumerates ord (fm_entries m) \<Longrightarrow> set (fm_All ord m) = ran (fm_entries m)"
  by (auto simp: fm_All_def set_range_vals enumerates_def ran_def)

text \<open>Closing an entry cancels the context its accept loop and its connections run under.\<close>

lemma entry_Close_done:
  "en_fwd e = Some f \<Longrightarrow> f_ctx f \<noteq> [] \<Longrightarrow> ctx_done (entry_Close e cs) (f_ctx f)"
  "en_proxy e = Some p \<Longrightarrow> p_ctx p \<noteq> [] \<Longrightarrow> ctx_done (entry_Close e cs) (p_ctx p)"
  by (auto simp: entry_Close_def Let_def forwarder_Close_def proxy_Close_def ctx_done_cancel
      intro: ctx_done_mono split: option.splits)

end
