(* ===== verification/Listener_Model.thy ===== *)
theory Listener_Model
  imports Go_Env
begin

text \<open>
  \<open>internal/listener/listener.go\<close> and \<open>internal/listener/manager.go\<close>: the listener
  manager's table, and the goroutines of a listener (accept loop, receive loops, watchers)
  as program counters of a step relation.
\<close>

section \<open>The state\<close>

datatype EventType = EventNewConn | EventConnDead | EventClosed | EventError

record event =
  ev_Port :: int
  ev_Type :: EventType
  ev_Session :: "nat option"
  ev_Err :: "string option"

text \<open>
  Where an accept loop is: in \<open>Accept\<close>; with a connection not yet registered; sending an
  event; done.
\<close>

datatype accept_pc =
    AtAccept
  | Accepted conn
  | SendNew nat
  | SendError string
  | SendClosed
  | LoopDone

record listener =
  l_Port :: int
  l_Host :: string
  l_ctx :: ctx
  l_closed :: bool
  l_pc :: accept_pc

datatype watch_pc = WatchWait | WatchCheck | WatchSend | WatchDone

record watcher =
  wa_session :: nat
  wa_Port :: int
  wa_ctx :: ctx
  wa_pc :: watch_pc

text \<open>
  The state the listener package works on: the contexts, the session store, the listeners
  (addressed by position, like the sessions) and the manager's map from ports to them, the
  event channel, the watchers and the sessions whose receive loop is running.
\<close>

record net = ctxs +
  n_store :: store
  n_lheap :: "listener list"
  n_listeners :: "int \<rightharpoonup> nat"
  n_events :: "event list"
  n_watchers :: "watcher list"
  n_rx :: "nat list"

definition net_init :: net where
  "net_init = \<lparr>cx_next = 0, cx_cancelled = [], n_store = NewManager, n_lheap = [],
     n_listeners = Map.empty, n_events = [], n_watchers = [], n_rx = []\<rparr>"

definition events_cap :: nat where "events_cap = 64"

section \<open>Opening and closing\<close>

definition resolveHost :: "env \<Rightarrow> string \<Rightarrow> string + string" where
  "resolveHost E host =
     (if host = [] then Inr []
      else if e_is_ip E host then Inr host
      else case e_iface E host of
             Inl err \<Rightarrow> Inl (''unknown host or interface '' @ go_quote host @ '': '' @ err)
           | Inr (Inl err) \<Rightarrow> Inl (''interface '' @ host @ '': '' @ err)
           | Inr (Inr addrs) \<Rightarrow>
               (case List.map_filter (\<lambda>x. x) addrs of
                  [] \<Rightarrow> Inl (''interface '' @ host @ '' has no IPv4 address'')
                | ip4 # _ \<Rightarrow> Inr ip4))"

definition bind_addr :: "string \<Rightarrow> int \<Rightarrow> string" where
  "bind_addr host port = host @ '':'' @ itoa port"

definition Start :: "env \<Rightarrow> ctx \<Rightarrow> int \<Rightarrow> string \<Rightarrow> 'a net_scheme \<Rightarrow> string + nat \<times> 'a net_scheme" where
  "Start E ctx port host w =
     (case resolveHost E host of
        Inl err \<Rightarrow> Inl err
      | Inr bindIP \<Rightarrow>
          let addr = bind_addr bindIP port in
          case e_listen E addr of
            Some err \<Rightarrow> Inl (''listen '' @ addr @ '': '' @ err)
          | None \<Rightarrow>
              (case with_cancel ctx w of
                 (lctx, w1) \<Rightarrow>
                   Inr (length (n_lheap w1),
                     w1\<lparr>n_lheap := n_lheap w1 @
                       [\<lparr>l_Port = port, l_Host = bindIP, l_ctx = lctx, l_closed = False,
                         l_pc = AtAccept\<rparr>]\<rparr>)))"

definition upd_lsn :: "nat \<Rightarrow> (listener \<Rightarrow> listener) \<Rightarrow> 'a net_scheme \<Rightarrow> 'a net_scheme" where
  "upd_lsn i f w = w\<lparr>n_lheap := (n_lheap w)[i := f (n_lheap w ! i)]\<rparr>"

definition listener_Close :: "nat \<Rightarrow> 'a net_scheme \<Rightarrow> 'a net_scheme" where
  "listener_Close i w =
     upd_lsn i (\<lambda>l. l\<lparr>l_closed := True\<rparr>) (cancel (l_ctx (n_lheap w ! i)) w)"

definition lm_Open :: "env \<times> ctx \<times> string \<Rightarrow> int \<Rightarrow> 'a net_scheme \<Rightarrow> string + 'a net_scheme" where
  "lm_Open = (\<lambda>(E, ctx, host) port w.
     if n_listeners w port \<noteq> None then Inl (''port '' @ itoa port @ '' is already open'')
     else case Start E ctx port host w of
            Inl err \<Rightarrow> Inl err
          | Inr (l, w1) \<Rightarrow> Inr (w1\<lparr>n_listeners := (n_listeners w1)(port \<mapsto> l)\<rparr>))"

definition lm_Close :: "env \<Rightarrow> int \<Rightarrow> 'a net_scheme \<Rightarrow> string + 'a net_scheme" where
  "lm_Close E port w =
     (case n_listeners w port of
        None \<Rightarrow> Inl (''port '' @ itoa port @ '' is not open'')
      | Some l \<Rightarrow>
          let w1 = w\<lparr>n_store := mgr_CloseAll (e_ord_sess E) port (n_store w)\<rparr>;
              w2 = listener_Close l w1
          in Inr (w2\<lparr>n_listeners := (n_listeners w2)(port := None)\<rparr>))"

definition IsOpen :: "'a net_scheme \<Rightarrow> int \<Rightarrow> bool" where
  "IsOpen w port \<longleftrightarrow> n_listeners w port \<noteq> None"

definition OpenPorts :: "int list \<Rightarrow> 'a net_scheme \<Rightarrow> int list" where
  "OpenPorts ord w = filter (IsOpen w) ord"

definition lm_Get :: "'a net_scheme \<Rightarrow> int \<Rightarrow> listener option" where
  "lm_Get w port = map_option (\<lambda>l. n_lheap w ! l) (n_listeners w port)"

definition BoundAddr :: "'a net_scheme \<Rightarrow> int \<Rightarrow> string" where
  "BoundAddr w port =
     (case lm_Get w port of
        None \<Rightarrow> ''0.0.0.0:'' @ itoa port
      | Some l \<Rightarrow> (if l_Host l = [] then ''0.0.0.0'' else l_Host l) @ '':'' @ itoa port)"

definition lm_CloseAll :: "env \<Rightarrow> 'a net_scheme \<Rightarrow> 'a net_scheme" where
  "lm_CloseAll E w =
     fold (\<lambda>p w. case lm_Close E p w of Inl _ \<Rightarrow> w | Inr w1 \<Rightarrow> w1) (OpenPorts (e_ord_ports E) w) w"

lemmas lm_defs = lm_Open_def lm_Close_def Start_def listener_Close_def upd_lsn_def Let_def

section \<open>The listener table is a table of ports\<close>

lemma with_cancel_frame:
  "with_cancel c w = (d, w1) \<Longrightarrow>
   n_store w1 = n_store w \<and> n_lheap w1 = n_lheap w \<and> n_listeners w1 = n_listeners w
   \<and> n_events w1 = n_events w \<and> n_watchers w1 = n_watchers w \<and> n_rx w1 = n_rx w"
  by (auto simp: with_cancel_def)

lemma cancel_net [simp]:
  "n_store (cancel c w) = n_store w" "n_lheap (cancel c w) = n_lheap w"
  "n_listeners (cancel c w) = n_listeners w" "n_events (cancel c w) = n_events w"
  "n_watchers (cancel c w) = n_watchers w" "n_rx (cancel c w) = n_rx w"
  by (simp_all add: cancel_def split: list.split)

lemma upd_lsn_net [simp]:
  "n_store (upd_lsn i f w) = n_store w" "n_listeners (upd_lsn i f w) = n_listeners w"
  "n_events (upd_lsn i f w) = n_events w" "n_watchers (upd_lsn i f w) = n_watchers w"
  "n_rx (upd_lsn i f w) = n_rx w" "length (n_lheap (upd_lsn i f w)) = length (n_lheap w)"
  "cx_next (upd_lsn i f w) = cx_next w" "cx_cancelled (upd_lsn i f w) = cx_cancelled w"
  by (simp_all add: upd_lsn_def)

lemma Start_Inr:
  "Start E ctx port host w = Inr (l, w1) \<Longrightarrow>
   l = length (n_lheap w) \<and> n_listeners w1 = n_listeners w \<and> n_store w1 = n_store w
   \<and> n_events w1 = n_events w \<and> n_watchers w1 = n_watchers w \<and> n_rx w1 = n_rx w
   \<and> (\<exists>bindIP. resolveHost E host = Inr bindIP \<and> e_listen E (bind_addr bindIP port) = None
      \<and> n_lheap w1 = n_lheap w @ [\<lparr>l_Port = port, l_Host = bindIP, l_ctx = cx_next w # ctx,
            l_closed = False, l_pc = AtAccept\<rparr>]
      \<and> cx_next w1 = Suc (cx_next w) \<and> cx_cancelled w1 = cx_cancelled w)"
  by (auto simp: Start_def Let_def with_cancel_def split: sum.splits option.splits)

lemma lm_Open_Inr:
  "lm_Open (E, ctx, host) port w = Inr w2 \<longleftrightarrow>
   n_listeners w port = None \<and>
   (\<exists>l w1. Start E ctx port host w = Inr (l, w1)
      \<and> w2 = w1\<lparr>n_listeners := (n_listeners w1)(port \<mapsto> l)\<rparr>)"
  by (auto simp: lm_Open_def split: sum.splits)

lemma lm_Close_Inr:
  "lm_Close E port w = Inr w2 \<longleftrightarrow>
   (\<exists>l. n_listeners w port = Some l \<and>
     w2 = listener_Close l (w\<lparr>n_store := mgr_CloseAll (e_ord_sess E) port (n_store w)\<rparr>)
       \<lparr>n_listeners := (n_listeners w)(port := None)\<rparr>)"
  by (auto simp: lm_Close_def Let_def listener_Close_def split: option.splits)

lemma listener_Close_listeners [simp]: "n_listeners (listener_Close l w) = n_listeners w"
  by (simp add: listener_Close_def)

interpretation lt: port_table IsOpen lm_Open lm_Close
proof
  fix w :: "'a net_scheme" and p and a :: "env \<times> ctx \<times> string"
  assume "IsOpen w p"
  then show "\<exists>e. lm_Open a p w = Inl e" by (cases a) (auto simp: IsOpen_def lm_Open_def)
next
  fix w t :: "'a net_scheme" and p q and a :: "env \<times> ctx \<times> string"
  assume "lm_Open a p w = Inr t"
  then show "IsOpen t q \<longleftrightarrow> q = p \<or> IsOpen w q"
    by (cases a) (auto simp: lm_Open_Inr IsOpen_def dest!: Start_Inr)
next
  fix w :: "'a net_scheme" and p and c :: env
  assume "\<not> IsOpen w p"
  then show "\<exists>e. lm_Close c p w = Inl e" by (simp add: IsOpen_def lm_Close_def)
next
  fix w :: "'a net_scheme" and p and c :: env
  assume "IsOpen w p"
  then show "\<exists>t. lm_Close c p w = Inr t \<and> (\<forall>q. IsOpen t q \<longleftrightarrow> q \<noteq> p \<and> IsOpen w q)"
    by (auto simp: IsOpen_def lm_Close_Inr)
qed

lemma lm_CloseAll_close_list: "lm_CloseAll E w = lt.close_list E (OpenPorts (e_ord_ports E) w) w"
proof -
  have "fold (\<lambda>p w. case lm_Close E p w of Inl _ \<Rightarrow> w | Inr w1 \<Rightarrow> w1) ps w = lt.close_list E ps w" for ps
    by (induction ps arbitrary: w) simp_all
  then show ?thesis by (simp add: lm_CloseAll_def)
qed

section \<open>The effect of closing a port\<close>

lemma lm_Close_store:
  "lm_Close E port w = Inr w2 \<Longrightarrow> n_store w2 = mgr_CloseAll (e_ord_sess E) port (n_store w)"
  by (auto simp: lm_Close_Inr listener_Close_def)

lemma ByPort_after_CloseAll:
  assumes "store_wf st" "enumerates ord (st_sessions st)" "enumerates ord' (st_sessions st)"
  shows "ByPort ord' port (mgr_CloseAll ord port st) = []"
proof -
  have "set (ByPort ord' port (mgr_CloseAll ord port st)) = {}"
    using assms by (auto simp: set_ByPort sess_CloseAll live_on_def split: if_splits)
  then show ?thesis by simp
qed

end
