(* ===== verification/Views_Model.thy ===== *)
theory Views_Model
  imports Forward_Model Listener_Model "HOL-Library.Signed_Division" "HOL-Library.Multiset"
begin

text \<open>
  The tables of \<open>pkg/ui/views/tables.go\<close>. Byte counts are scaled to tenths with the rounding
  of \<open>%.1f\<close> (to nearest, ties to even); the code divides in \<open>float64\<close>, which is exact for
  counts below 2^53. Durations are integers of nanoseconds, divided as Go divides.
\<close>

section \<open>Numbers in tables\<close>

definition round_half_even :: "int \<Rightarrow> int \<Rightarrow> int" where
  "round_half_even n d =
     (let q = n div d; r = n mod d in
      if 2 * r < d then q else if d < 2 * r then q + 1 else if even q then q else q + 1)"

definition fmt_tenths :: "int \<Rightarrow> int \<Rightarrow> string" where
  "fmt_tenths n d =
     (let t = round_half_even (10 * n) d in itoa (t div 10) @ ''.'' @ itoa (t mod 10))"

definition formatBytes :: "int \<Rightarrow> string" where
  "formatBytes n =
     (if n < 1024 then itoa n @ ''B''
      else if n < 1024 * 1024 then fmt_tenths n 1024 @ ''K''
      else fmt_tenths n (1024 * 1024) @ ''M'')"

definition second :: int where "second = 1000000000"

text \<open>\<open>Duration.Round(time.Second)\<close>: half away from zero, saturating.\<close>

definition round_second :: "int \<Rightarrow> int" where
  "round_second d =
     (let r = \<bar>d smod second\<bar> in
      if d < 0
      then (if 2 * r < second then d + r
            else if min_int64 \<le> d - second + r then d - second + r else min_int64)
      else (if 2 * r < second then d - r
            else if d + second - r \<le> max_int64 then d + second - r else max_int64))"

text \<open>\<open>%02d\<close>\<close>

definition pad2 :: "int \<Rightarrow> string" where
  "pad2 n = (let s = itoa n in if length s < 2 then ''0'' @ s else s)"

definition formatDuration :: "int \<Rightarrow> string" where
  "formatDuration d0 =
     (let d = round_second d0;
          h = d sdiv (3600 * second);
          m = (d sdiv (60 * second)) smod 60;
          s = (d sdiv second) smod 60
      in if 0 < h then itoa h @ ''h'' @ pad2 m @ ''m'' @ pad2 s @ ''s''
         else if 0 < m then itoa m @ ''m'' @ pad2 s @ ''s''
         else itoa s @ ''s'')"

section \<open>Rows\<close>

text \<open>
  \<open>sort.Slice\<close> may order rows with equal keys in any way; ports and identifiers are distinct
  in the lists it is given, so a stable sort computes the same.
\<close>

text \<open>\<open>Width(w).MaxWidth(w)\<close> of the terminal library.\<close>

definition col :: "env \<Rightarrow> nat \<Rightarrow> string \<Rightarrow> string" where
  "col E w s = e_render E (lstyle_new\<lparr>ls_width := Some w\<rparr>) s"

definition table_row :: "string list \<Rightarrow> string" where
  "table_row cells = ''  '' @ join cells []"

record port_row =
  pr_Port :: int
  pr_Host :: string
  pr_Sessions :: nat

definition wLPort :: nat where "wLPort = 7"
definition wLHost :: nat where "wLHost = 18"
definition wLConns :: nat where "wLConns = 12"

definition render_port_row :: "env \<Rightarrow> port_row \<Rightarrow> string" where
  "render_port_row E r =
     (let host = (if pr_Host r = [] then ''0.0.0.0'' else pr_Host r)
      in table_row [col E wLPort (itoa (pr_Port r)), col E wLHost (e_render E StyleMuted host),
             col E wLConns (itoa (int (pr_Sessions r)))] @ nl)"

definition RenderPorts :: "env \<Rightarrow> port_row list \<Rightarrow> string" where
  "RenderPorts E ports =
     (if ports = [] then e_render E StyleMuted ''  No ports open.'' @ nl
      else
        let hdr = table_row [col E wLPort ''PORT'', col E wLHost ''HOST'', col E wLConns ''CONNECTIONS'']
        in e_render E StyleHeader hdr @ nl
             @ concat (map (render_port_row E) (sort_key pr_Port ports)))"

definition wSID :: nat where "wSID = 5"
definition wSPort :: nat where "wSPort = 7"
definition wSRemote :: nat where "wSRemote = 23"
definition wSState :: nat where "wSState = 13"
definition wSTX :: nat where "wSTX = 9"
definition wSRX :: nat where "wSRX = 9"
definition wSDur :: nat where "wSDur = 11"
definition wSIdle :: nat where "wSIdle = 11"

fun stateColor :: "State \<Rightarrow> lstyle" where
  "stateColor StateActive = StyleActive"
| "stateColor StateForeground = StyleForeground"
| "stateColor StateBackground = StyleBackground"
| "stateColor StateDead = StyleDead"

definition render_session_row :: "env \<Rightarrow> session \<Rightarrow> string" where
  "render_session_row E s =
     (let idle = IdleDuration s (e_now E);
          idleStyle = (if 5 * 60 * second < idle then StyleWarn else StyleMuted)
      in table_row
           [col E wSID (itoa (s_ID s)), col E wSPort (itoa (s_Port s)), col E wSRemote (s_RemoteAddr s),
            col E wSState (e_render E (stateColor (s_state s)) (State_String (s_state s))),
            col E wSTX (formatBytes (sint (s_BytesTX s))), col E wSRX (formatBytes (sint (s_BytesRX s))),
            col E wSIdle (e_render E idleStyle (formatDuration idle)),
            col E wSDur (formatDuration (Duration s (e_now E)))] @ nl)"

definition RenderSessions :: "env \<Rightarrow> session list \<Rightarrow> string" where
  "RenderSessions E sessions =
     (if sessions = [] then e_render E StyleMuted ''  No active connections.'' @ nl
      else
        let hdr = table_row
              [col E wSID ''ID'', col E wSPort ''PORT'', col E wSRemote ''REMOTE'', col E wSState ''STATE'',
               col E wSTX ''TX'', col E wSRX ''RX'', col E wSIdle ''IDLE'', col E wSDur ''DURATION'']
        in e_render E StyleHeader hdr @ nl
             @ concat (map (render_session_row E) (sort_key s_ID sessions)))"

definition wFLocal :: nat where "wFLocal = 7"
definition wFRemote :: nat where "wFRemote = 28"
definition wFType :: nat where "wFType = 7"
definition wFTX :: nat where "wFTX = 9"
definition wFRX :: nat where "wFRX = 9"

definition render_forward_row :: "env \<Rightarrow> entry \<Rightarrow> string" where
  "render_forward_row E e =
     (let kind = (if entry_IsProxy e then e_render E StyleProxy ''proxy'' else e_render E StyleForward ''fwd'')
      in table_row
           [col E wFLocal (itoa (r_LocalPort (en_Rule e))), col E wFRemote (RemoteAddr (en_Rule e)),
            col E wFType kind, col E wFTX (formatBytes (fst (entry_Stats e))),
            col E wFRX (formatBytes (snd (entry_Stats e)))] @ nl)"

definition RenderForwards :: "env \<Rightarrow> entry list \<Rightarrow> string" where
  "RenderForwards E entries =
     (if entries = [] then e_render E StyleMuted ''  No active forwards.'' @ nl
      else
        let hdr = table_row [col E wFLocal ''LOCAL'', col E wFRemote ''REMOTE'', col E wFType ''TYPE'',
              col E wFTX ''TX'', col E wFRX ''RX'']
        in e_render E StyleHeader hdr @ nl @ concat (map (render_forward_row E) entries))"

section \<open>The tables do not depend on the order of the maps\<close>

lemma RenderSessions_order:
  assumes "mset ss = mset ts" and "inj_on s_ID (set ss)"
  shows "RenderSessions E ss = RenderSessions E ts"
proof -
  have "sort_key s_ID ss = sort_key s_ID ts"
    by (rule sort_key_inj_key_eq) (simp_all add: assms)
  moreover have "ss = [] \<longleftrightarrow> ts = []" using assms(1) by auto
  ultimately show ?thesis by (simp add: RenderSessions_def)
qed

end
