(* ===== verification/Parser_Model.thy ===== *)
theory Parser_Model
  imports Go_Text
begin

text \<open>
  The command parser, \<open>internal/console/parser.go\<close>: \<open>Parse\<close>, \<open>ParsePortIdx\<close> and
  \<open>ParseRemote\<close>. Errors are values of a sum type that carry the message the code builds.
\<close>

section \<open>Commands\<close>

datatype cmd_kind = CmdTool | CmdSystem | CmdSpecial | CmdPassthrough | CmdEmpty

record cmd =
  cmd_kind :: cmd_kind
  cmd_verb :: string
  cmd_args :: "string list"
  cmd_raw :: string

definition tool_verbs :: "string list" where
  "tool_verbs = [''open'', ''close'', ''kill'', ''use'', ''list'', ''info'', ''log'', ''fwd'',
     ''proxy'', ''help'', ''exit'', ''clear'', ''send'', ''read'']"

definition Parse :: "string \<Rightarrow> bool \<Rightarrow> cmd" where
  "Parse line sessionMode =
     (let trimmed = trim_space line in
      if trimmed = []
      then \<lparr>cmd_kind = CmdEmpty, cmd_verb = [], cmd_args = [], cmd_raw = trimmed\<rparr>
      else if has_prefix trimmed ''!''
      then \<lparr>cmd_kind = CmdSystem, cmd_verb = [], cmd_args = [drop 1 trimmed], cmd_raw = trimmed\<rparr>
      else if has_prefix trimmed ''+''
      then \<lparr>cmd_kind = CmdSpecial, cmd_verb = to_lower (hd (str_fields trimmed)), cmd_args = [],
            cmd_raw = trimmed\<rparr>
      else
        (let parts = str_fields trimmed;
             verb = to_lower (hd parts);
             args = tl parts
         in if verb \<in> set tool_verbs
            then \<lparr>cmd_kind = CmdTool, cmd_verb = verb, cmd_args = args, cmd_raw = trimmed\<rparr>
            else if sessionMode
            then \<lparr>cmd_kind = CmdPassthrough, cmd_verb = [], cmd_args = [], cmd_raw = trimmed\<rparr>
            else \<lparr>cmd_kind = CmdTool, cmd_verb = verb, cmd_args = args, cmd_raw = trimmed\<rparr>))"

text \<open>
  \<open>strings.Fields(trimmed)[0]\<close> is always in range: both uses of \<open>hd\<close> above stand for an
  element that exists.
\<close>

lemma str_fields_trimmed_nonempty:
  assumes "trim_space line \<noteq> []"
  shows "str_fields (trim_space line) \<noteq> []"
  using trim_space_hd [OF assms] assms by (cases "trim_space line") auto

lemma has_prefix_1: "has_prefix s [c] \<longleftrightarrow> s \<noteq> [] \<and> hd s = c"
  by (cases s) (auto simp: has_prefix_def)

lemma Parse_trim: "Parse (trim_space line) m = Parse line m"
  by (simp add: Parse_def trim_space_idem)

lemma Parse_empty_iff: "cmd_kind (Parse line m) = CmdEmpty \<longleftrightarrow> (\<forall>c\<in>set line. is_space c)"
  by (auto simp: Parse_def Let_def trim_space_Nil_iff)

lemma Parse_raw: "cmd_raw (Parse line m) = trim_space line"
  by (simp add: Parse_def Let_def)

lemma Parse_system_args:
  "cmd_kind (Parse line m) = CmdSystem \<Longrightarrow> cmd_args (Parse line m) = [drop 1 (trim_space line)]"
  by (auto simp: Parse_def Let_def split: if_splits)

lemma Parse_menu_not_passthrough: "cmd_kind (Parse line False) \<noteq> CmdPassthrough"
  by (simp add: Parse_def Let_def)

lemma Parse_mode_irrelevant:
  "cmd_kind (Parse line True) \<noteq> CmdPassthrough \<Longrightarrow> Parse line True = Parse line False"
  by (auto simp: Parse_def Let_def split: if_splits)

lemma Parse_passthrough_verb:
  "cmd_kind (Parse line True) = CmdPassthrough \<Longrightarrow>
   cmd_kind (Parse line False) = CmdTool \<and> cmd_verb (Parse line False) \<notin> set tool_verbs"
  by (auto simp: Parse_def Let_def split: if_splits)

lemma Parse_lower: "to_lower (cmd_verb (Parse line m)) = cmd_verb (Parse line m)"
  by (simp add: Parse_def Let_def to_lower_idem) (simp add: to_lower_def)

lemma lower_head:
  "\<not> is_space c \<Longrightarrow> \<exists>r. to_lower (hd (str_fields (c # rest))) = lower_char c # r"
  by (simp add: to_lower_def)

lemma is_token_lower: "is_token (to_lower t) = is_token t"
  by (auto simp: is_token_def to_lower_def lower_char_space)

lemma join_Cons: "ts \<noteq> [] \<Longrightarrow> join (t # ts) sep = t @ sep @ join ts sep"
  by (cases ts) simp_all

lemma join_hd: "ts \<noteq> [] \<Longrightarrow> is_token (hd ts) \<Longrightarrow> join ts sep \<noteq> [] \<and> hd (join ts sep) = hd (hd ts)"
  by (induction ts sep rule: join.induct) (auto simp: is_token_def)

lemma join_last:
  "ts \<noteq> [] \<Longrightarrow> \<forall>t\<in>set ts. is_token t \<Longrightarrow> join ts sep \<noteq> [] \<and> last (join ts sep) = last (last ts)"
  by (induction ts sep rule: join.induct) (auto simp: is_token_def)

lemma trim_space_join:
  assumes "ts \<noteq> []" and tok: "\<forall>t\<in>set ts. is_token t"
  shows "trim_space (join ts '' '') = join ts '' ''"
proof (rule trim_space_trimmed)
  have hd: "is_token (hd ts)" and last: "is_token (last ts)" using assms by simp_all
  show "join ts '' '' \<noteq> []" using join_hd [OF assms(1) hd] by simp
  show "\<not> is_space (hd (join ts '' ''))"
    using join_hd [OF assms(1) hd, of "'' ''"] hd by (simp add: is_token_def)
  show "\<not> is_space (last (join ts '' ''))"
    using join_last [OF assms, of "'' ''"] last by (simp add: is_token_def)
qed

section \<open>Port and index, host and port\<close>

definition ParsePortIdx :: "string \<Rightarrow> string + int \<times> int" where
  "ParsePortIdx s =
     (let parts = splitn s CHR '':'' 2 in
      case atoi (parts ! 0) of
        None \<Rightarrow> Inl (''invalid port '' @ go_quote (parts ! 0))
      | Some port \<Rightarrow>
          if length parts = 2
          then (case atoi (parts ! 1) of
                  None \<Rightarrow> Inl (''invalid index '' @ go_quote (parts ! 1))
                | Some idx \<Rightarrow> Inr (port, idx))
          else Inr (port, 0))"

definition ParseRemote :: "string \<Rightarrow> string + string \<times> int" where
  "ParseRemote s =
     (let idx = last_index s CHR '':'' in
      if idx < 0 then Inl (''expected host:port, got '' @ go_quote s)
      else
        (let host = take (nat idx) s;
             host = (if host = [] then ''127.0.0.1'' else host)
         in case atoi (drop (nat idx + 1) s) of
              None \<Rightarrow> Inl (''invalid port in '' @ go_quote s)
            | Some port \<Rightarrow> Inr (host, port)))"

lemma ParsePortIdx_no_colon:
  "CHR '':'' \<notin> set s \<Longrightarrow> ParsePortIdx s =
     (case atoi s of None \<Rightarrow> Inl (''invalid port '' @ go_quote s) | Some p \<Rightarrow> Inr (p, 0))"
  by (simp add: ParsePortIdx_def eval_nat_numeral split: option.splits)

lemma ParsePortIdx_colon:
  "CHR '':'' \<notin> set a \<Longrightarrow> ParsePortIdx (a @ CHR '':'' # b) =
     (case atoi a of None \<Rightarrow> Inl (''invalid port '' @ go_quote a)
      | Some p \<Rightarrow> (case atoi b of None \<Rightarrow> Inl (''invalid index '' @ go_quote b)
                   | Some i \<Rightarrow> Inr (p, i)))"
  using splitn_cut [of "CHR '':''" a b 0]
  by (simp add: ParsePortIdx_def eval_nat_numeral Let_def del: splitn.simps(3) split: option.splits)

lemma ParseRemote_colon:
  "CHR '':'' \<notin> set b \<Longrightarrow> ParseRemote (a @ CHR '':'' # b) =
     (case atoi b of None \<Rightarrow> Inl (''invalid port in '' @ go_quote (a @ CHR '':'' # b))
      | Some p \<Rightarrow> Inr (if a = [] then ''127.0.0.1'' else a, p))"
  by (simp add: ParseRemote_def last_index_cut Let_def split: option.splits)

lemma ParseRemote_no_colon:
  "CHR '':'' \<notin> set s \<Longrightarrow> ParseRemote s = Inl (''expected host:port, got '' @ go_quote s)"
  by (simp add: ParseRemote_def last_index_none)

lemma ParsePortIdx_int64: "ParsePortIdx s = Inr (p, i) \<Longrightarrow> in_int64 p \<and> in_int64 i"
  by (auto simp: ParsePortIdx_def Let_def dest!: atoi_range split: option.splits if_splits)
     (simp_all add: in_int64_def min_int64_def max_int64_def)

end
