(* ===== verification/Dispatcher_Model.thy ===== *)
theory Dispatcher_Model
  imports Views_Model Parser_Model
begin

text \<open>
  The command dispatcher, \<open>internal/console/dispatcher.go\<close>, and the system commands of
  \<open>internal/executor/system.go\<close>. A handler takes the environment, the context of the
  dispatcher, the arguments and the world, and returns the text to print with the new
  world, or panics.
\<close>

record world = net +
  w_fwd :: fmgr

type_synonym handler = "env \<Rightarrow> ctx \<Rightarrow> string list \<Rightarrow> world \<Rightarrow> (string \<times> world) go"

section \<open>System commands\<close>

definition executor_Run :: "env \<Rightarrow> string \<Rightarrow> string + string" where
  "executor_Run E cmdStr =
     (let cmdStr = trim_space cmdStr in
      if cmdStr = [] then Inl ''empty command''
      else case e_shell E cmdStr of
             (output, Some err) \<Rightarrow> if output \<noteq> [] then Inr output else Inl err
           | (output, None) \<Rightarrow> Inr output)"

definition RunSystem :: "env \<Rightarrow> string \<Rightarrow> string" where
  "RunSystem E cmdStr =
     (case executor_Run E cmdStr of Inl err \<Rightarrow> ui_Errorf E (''system: '' @ err) | Inr out \<Rightarrow> out)"

section \<open>Listeners\<close>

definition doOpen :: handler where
  "doOpen E ctx args w =
     Ret (case args of
       [] \<Rightarrow> (ui_Errorf E ''usage: open <port> [host|interface]'', w)
     | a0 # rest \<Rightarrow>
         (case atoi a0 of
            None \<Rightarrow> (ui_Errorf E (''invalid port: '' @ a0), w)
          | Some port \<Rightarrow>
              if port < 1 \<or> 65535 < port then (ui_Errorf E (''invalid port: '' @ a0), w)
              else
                (let host = (case rest of [] \<Rightarrow> [] | h # _ \<Rightarrow> h) in
                 case lm_Open (E, ctx, host) port w of
                   Inl err \<Rightarrow> (ui_Errorf E err, w)
                 | Inr w1 \<Rightarrow>
                     (e_render E StyleActive (''[+] Listening on '' @ BoundAddr w1 port), w1))))"

definition doClose :: handler where
  "doClose E ctx args w =
     Ret (case args of
       [] \<Rightarrow> (ui_Errorf E ''usage: close <port>'', w)
     | a0 # _ \<Rightarrow>
         (case atoi a0 of
            None \<Rightarrow> (ui_Errorf E (''invalid port: '' @ a0), w)
          | Some port \<Rightarrow>
              (case lm_Close E port w of
                 Inl err \<Rightarrow> (ui_Errorf E err, w)
               | Inr w1 \<Rightarrow> (e_render E StyleMuted (''[-] Port '' @ itoa port @ '' closed.''), w1))))"

section \<open>Killing connections\<close>

definition no_conn_err :: "int \<Rightarrow> string" where
  "no_conn_err port = ''no active connections on port '' @ itoa port"

definition range_err :: "int \<Rightarrow> int \<Rightarrow> nat \<Rightarrow> string" where
  "range_err idx port n = ''index '' @ itoa idx @ '' out of range (port '' @ itoa port @ '' has ''
     @ itoa (int n) @ '' connection(s))''"

definition kill_one :: "bool \<Rightarrow> nat \<Rightarrow> world \<Rightarrow> world" where
  "kill_one force a w =
     (let st = upd_sess a (if force then session_ForceClose else session_Close) (n_store w)
      in w\<lparr>n_store := mgr_Remove (s_ID (sess st a)) st\<rparr>)"

definition kill_targets :: "bool \<Rightarrow> int \<Rightarrow> nat list \<Rightarrow> env \<Rightarrow> world \<Rightarrow> string \<times> world" where
  "kill_targets force port targets E w =
     (e_render E StyleWarn (''[~] '' @ itoa (int (length targets)) @ '' connection(s) terminated on port ''
        @ itoa port @ '' ('' @ (if force then ''RST'' else ''FIN'') @ '')''),
      fold (kill_one force) targets w)"

definition doKill :: handler where
  "doKill E ctx args w =
     (let force = ''-f'' \<in> set args;
          args1 = filter (\<lambda>a. a \<noteq> ''-f'') args
      in case args1 of
           [] \<Rightarrow> Ret (ui_Errorf E ''usage: kill [-f] <port>[:<idx>]'', w)
         | a0 # _ \<Rightarrow>
             (case ParsePortIdx a0 of
                Inl err \<Rightarrow> Ret (ui_Errorf E err, w)
              | Inr (port, idx) \<Rightarrow>
                  let sessions = ByPort (e_ord_sess E) port (n_store w) in
                  if sessions = [] then Ret (ui_Errorf E (no_conn_err port), w)
                  else if idx = 0 then Ret (kill_targets force port sessions E w)
                  else if int (length sessions) < idx
                  then Ret (ui_Errorf E (range_err idx port (length sessions)), w)
                  else (case slice_at sessions (idx - 1) of
                          Panic \<Rightarrow> Panic
                        | Ret a \<Rightarrow> Ret (kill_targets force port [a] E w))))"

section \<open>Listing\<close>

definition renderPorts :: "env \<Rightarrow> world \<Rightarrow> string" where
  "renderPorts E w =
     (let ports = sort (OpenPorts (e_ord_ports E) w);
          rows = map (\<lambda>p. \<lparr>pr_Port = p,
                           pr_Host = (case lm_Get w p of None \<Rightarrow> [] | Some l \<Rightarrow> l_Host l),
                           pr_Sessions = length (ByPort (e_ord_sess E) p (n_store w))\<rparr>) ports
      in RenderPorts E rows)"

definition all_sessions :: "env \<Rightarrow> world \<Rightarrow> session list" where
  "all_sessions E w = map (sess (n_store w)) (mgr_All (e_ord_sess E) (n_store w))"

definition doList :: handler where
  "doList E ctx args w =
     (let sub = (case args of [] \<Rightarrow> ''all'' | a0 # _ \<Rightarrow> to_lower a0) in
      Ret (if sub = ''ports'' then renderPorts E w
           else if sub = ''conn'' \<or> sub = ''connections'' then RenderSessions E (all_sessions E w)
           else if sub = ''fwd'' \<or> sub = ''forwards''
           then RenderForwards E (fm_Forwards (e_ord_fwds E) (w_fwd w))
           else if sub = ''proxy'' \<or> sub = ''proxies''
           then RenderForwards E (fm_Proxies (e_ord_fwds E) (w_fwd w))
           else if sub = ''all''
           then e_render E StyleBold ''Listeners'' @ nl @ renderPorts E w @ nl
              @ e_render E StyleBold ''Connections'' @ nl @ RenderSessions E (all_sessions E w) @ nl
              @ e_render E StyleBold ''Forwards & Proxies'' @ nl
              @ RenderForwards E (fm_All (e_ord_fwds E) (w_fwd w))
           else ui_Errorf E ''usage: list [ports|conn|fwd|proxy|all]'', w))"

text \<open>\<open>Duration.String\<close> of a whole number of seconds.\<close>

definition duration_string :: "int \<Rightarrow> string" where
  "duration_string d =
     (let u = \<bar>d\<bar> div second; h = u div 3600; m = u div 60; sign = (if d < 0 then ''-'' else [])
      in if 0 < h then sign @ itoa h @ ''h'' @ itoa (m mod 60) @ ''m'' @ itoa (u mod 60) @ ''s''
         else if 0 < m then sign @ itoa m @ ''m'' @ itoa (u mod 60) @ ''s''
         else if u = 0 then ''0s'' else sign @ itoa u @ ''s'')"

definition info_text :: "env \<Rightarrow> session \<Rightarrow> string" where
  "info_text E s = concat
     [''  ID:            '', e_render E StyleBold (itoa (s_ID s)), nl,
      ''  Port:          '', itoa (s_Port s), nl,
      ''  Remote:        '', s_RemoteAddr s, nl,
      ''  State:         '', State_String (s_state s), nl,
      ''  TX:            '', itoa (sint (s_BytesTX s)), '' bytes'', nl,
      ''  RX:            '', itoa (sint (s_BytesRX s)), '' bytes'', nl,
      ''  Duration:      '', duration_string (round_second (Duration s (e_now E))), nl,
      ''  Last activity: '', duration_string (round_second (IdleDuration s (e_now E))), '' ago'', nl, nl]"

definition doInfo :: handler where
  "doInfo E ctx args w =
     (case args of
        [] \<Rightarrow> Ret (ui_Errorf E ''usage: info <port>[:<idx>]'', w)
      | a0 # _ \<Rightarrow>
          (case ParsePortIdx a0 of
             Inl err \<Rightarrow> Ret (ui_Errorf E err, w)
           | Inr (port, idx) \<Rightarrow>
               let sessions = ByPort (e_ord_sess E) port (n_store w);
                   show_all = (\<lambda>ts. concat (map (\<lambda>a. info_text E (sess (n_store w) a)) ts))
               in if sessions = [] then Ret (ui_Errorf E (no_conn_err port), w)
                  else if 0 < idx
                  then (if int (length sessions) < idx
                        then Ret (ui_Errorf E (''index '' @ itoa idx @ '' out of range''), w)
                        else (case slice_at sessions (idx - 1) of
                                Panic \<Rightarrow> Panic
                              | Ret a \<Rightarrow> Ret (show_all [a], w)))
                  else Ret (show_all sessions, w)))"

definition doLog :: handler where
  "doLog E ctx args w =
     Ret (if length args < 2 then ui_Errorf E ''usage: log <port>[:<idx>] <file>''
          else ui_Warnf E (''Traffic logging for session data is available on proxy entries.'' @ nl
            @ ''Use '' @ [CHR 0x27] @ ''proxy log <local-port> <file>'' @ [CHR 0x27]
            @ '' for proxy traffic logging.''), w)"

section \<open>Forwards and proxies\<close>

definition fwd_close :: "string \<Rightarrow> string \<Rightarrow> handler" where
  "fwd_close usage what E ctx args w =
     Ret (case args of
       _ # a1 # _ \<Rightarrow>
         (case atoi a1 of
            None \<Rightarrow> (ui_Errorf E (''invalid port: '' @ a1), w)
          | Some port \<Rightarrow>
              (case fm_Close () port (w, w_fwd w) of
                 Inl err \<Rightarrow> (ui_Errorf E err, w)
               | Inr (w1, m) \<Rightarrow>
                   (e_render E StyleMuted (''[-] '' @ what @ '' on :'' @ itoa port @ '' closed.''),
                    w1\<lparr>w_fwd := m\<rparr>)))
     | _ \<Rightarrow> (ui_Errorf E usage, w))"

definition doFwd :: handler where
  "doFwd E ctx args w =
     (case args of
        [] \<Rightarrow> Ret (ui_Errorf E
          ''usage: fwd <local-port> <remote-host>:<remote-port>  |  fwd list  |  fwd close <local-port>'', w)
      | a0 # rest \<Rightarrow>
          if to_lower a0 = ''list'' then Ret (RenderForwards E (fm_Forwards (e_ord_fwds E) (w_fwd w)), w)
          else if to_lower a0 = ''close''
          then fwd_close ''usage: fwd close <local-port>'' ''Forward'' E ctx args w
          else (case rest of
             [] \<Rightarrow> Ret (ui_Errorf E ''usage: fwd <local-port> <remote-host>:<remote-port>'', w)
           | a1 # _ \<Rightarrow>
               (case atoi a0 of
                  None \<Rightarrow> Ret (ui_Errorf E (''invalid local port: '' @ a0), w)
                | Some localPort \<Rightarrow>
                    (case ParseRemote a1 of
                       Inl err \<Rightarrow> Ret (ui_Errorf E err, w)
                     | Inr (remoteHost, remotePort) \<Rightarrow>
                         (case fm_Open (E, ctx, remoteHost, remotePort) localPort (w, w_fwd w) of
                            Inl err \<Rightarrow> Ret (ui_Errorf E err, w)
                          | Inr (w1, m) \<Rightarrow>
                              Ret (e_render E StyleForward (''[fwd] :'' @ itoa localPort @ ''  ''
                                     @ long_arrow @ ''  '' @ remoteHost @ '':'' @ itoa remotePort),
                                   w1\<lparr>w_fwd := m\<rparr>))))))"

definition proxy_log :: handler where
  "proxy_log E ctx args w =
     Ret (case args of
       _ # a1 # a2 # _ \<Rightarrow>
         (case atoi a1 of
            None \<Rightarrow> (ui_Errorf E (''invalid port: '' @ a1), w)
          | Some port \<Rightarrow>
              (case fm_SetLogFile E port a2 (w_fwd w) of
                 Inl err \<Rightarrow> (ui_Errorf E err, w)
               | Inr m \<Rightarrow>
                   (e_render E StyleProxy (''[proxy :'' @ itoa port @ ''] logging to '' @ a2),
                    w\<lparr>w_fwd := m\<rparr>)))
     | _ \<Rightarrow> (ui_Errorf E ''usage: proxy log <local-port> <file>'', w))"

definition doProxy :: handler where
  "doProxy E ctx args w =
     (case args of
        [] \<Rightarrow> Ret (ui_Errorf E
          ''usage: proxy <local-port> <remote-host>:<remote-port>  |  proxy list  |  proxy close <local-port>  |  proxy log <local-port> <file>'', w)
      | a0 # rest \<Rightarrow>
          if to_lower a0 = ''list'' then Ret (RenderForwards E (fm_Proxies (e_ord_fwds E) (w_fwd w)), w)
          else if to_lower a0 = ''close''
          then fwd_close ''usage: proxy close <local-port>'' ''Proxy'' E ctx args w
          else if to_lower a0 = ''log'' then proxy_log E ctx args w
          else (case rest of
             [] \<Rightarrow> Ret (ui_Errorf E ''usage: proxy <local-port> <remote-host>:<remote-port> [logfile]'', w)
           | a1 # rest2 \<Rightarrow>
               (case atoi a0 of
                  None \<Rightarrow> Ret (ui_Errorf E (''invalid local port: '' @ a0), w)
                | Some localPort \<Rightarrow>
                    (case ParseRemote a1 of
                       Inl err \<Rightarrow> Ret (ui_Errorf E err, w)
                     | Inr (remoteHost, remotePort) \<Rightarrow>
                         let logFile = (case rest2 of [] \<Rightarrow> [] | f # _ \<Rightarrow> f) in
                         (case fm_OpenProxy (E, ctx, remoteHost, remotePort, logFile) localPort (w, w_fwd w) of
                            Inl err \<Rightarrow> Ret (ui_Errorf E err, w)
                          | Inr (w1, m) \<Rightarrow>
                              Ret (e_render E StyleProxy (''[proxy] :'' @ itoa localPort @ ''  ''
                                     @ long_arrow @ ''  '' @ remoteHost @ '':'' @ itoa remotePort),
                                   w1\<lparr>w_fwd := m\<rparr>))))))"

section \<open>Sending and reading\<close>

definition doSend :: handler where
  "doSend E ctx args w =
     (case args of
        a0 # a1 # rest \<Rightarrow>
          (case ParsePortIdx a0 of
             Inl err \<Rightarrow> Ret (ui_Errorf E err, w)
           | Inr (port, idx0) \<Rightarrow>
               let sessions = ByPort (e_ord_sess E) port (n_store w);
                   idx = (if idx0 = 0 then 1 else idx0)
               in if sessions = [] then Ret (ui_Errorf E (no_conn_err port), w)
                  else if int (length sessions) < idx
                  then Ret (ui_Errorf E (range_err idx port (length sessions)), w)
                  else (case slice_at sessions (idx - 1) of
                     Panic \<Rightarrow> Panic
                   | Ret a \<Rightarrow>
                       let s = sess (n_store w) a in
                       if s_state s = StateDead then Ret (ui_Errorf E ''session is dead'', w)
                       else
                         (let payload = join (a1 # rest) '' '' @ nl;
                              res = session_Write s payload (e_write E);
                              w1 = w\<lparr>n_store := upd_sess a (\<lambda>_. fst res) (n_store w)\<rparr>
                          in case snd (snd res) of
                               Some err \<Rightarrow> Ret (ui_Errorf E (''write error: '' @ err), w1)
                             | None \<Rightarrow>
                                 Ret (e_render E StyleMuted (''[>] Sent '' @ itoa (int (fst (snd res)))
                                   @ '' bytes to session '' @ itoa (s_ID s) @ '' on port '' @ itoa port), w1))))
      | _ \<Rightarrow> Ret (ui_Errorf E ''usage: send <port>[:<idx>] <data>'', w))"

definition doRead :: handler where
  "doRead E ctx args w =
     (case args of
        [] \<Rightarrow> Ret (ui_Errorf E ''usage: read <port>[:<idx>]'', w)
      | a0 # _ \<Rightarrow>
          (case ParsePortIdx a0 of
             Inl err \<Rightarrow> Ret (ui_Errorf E err, w)
           | Inr (port, idx0) \<Rightarrow>
               let sessions = ByPort (e_ord_sess E) port (n_store w);
                   idx = (if idx0 = 0 then 1 else idx0)
               in if sessions = [] then Ret (ui_Errorf E (no_conn_err port), w)
                  else if int (length sessions) < idx
                  then Ret (ui_Errorf E (range_err idx port (length sessions)), w)
                  else (case slice_at sessions (idx - 1) of
                     Panic \<Rightarrow> Panic
                   | Ret a \<Rightarrow>
                       (case ReadBuffered (sess (n_store w) a) of
                          (data, s1) \<Rightarrow>
                            let w1 = w\<lparr>n_store := upd_sess a (\<lambda>_. s1) (n_store w)\<rparr> in
                            (case data of
                               None \<Rightarrow>
                                 Ret (e_render E StyleMuted (''(no data buffered for session ''
                                   @ itoa (s_ID s1) @ '' on port '' @ itoa port @ '')''), w1)
                             | Some d \<Rightarrow> Ret (d, w1))))))"

section \<open>Help and the dispatch\<close>

definition helpGeneral :: "env \<Rightarrow> string" where
  "helpGeneral E = join
     [[],
      e_render E StyleBold ''LISTENER MANAGEMENT'',
      ''  open <port> [host|iface]    Open a TCP listener (e.g. tun0, eth0, 127.0.0.1)'',
      ''  close <port>                Close listener and all connections'',
      ''  kill [-f] <port>[:<idx>]    Terminate connection (FIN or RST with -f)'',
      [],
      e_render E StyleBold ''SESSION INTERACTION'',
      ''  use <port>[:<idx>]          Attach to a session (send/receive)'',
      ''  info <port>[:<idx>]         Show session details and metrics'',
      ''  send <port>[:<idx>] <data>  Send data to a session (appends newline)'',
      ''  read <port>[:<idx>]         Read and drain buffered RX data from a session'',
      [],
      e_render E StyleBold ''LISTING'',
      ''  list ports                  Show open ports'',
      ''  list conn                   Show active connections'',
      ''  list fwd                    Show active forwards'',
      ''  list proxy                  Show active proxies'',
      ''  list all                    Show everything'',
      [],
      e_render E StyleBold ''FORWARDING & PROXY'',
      ''  fwd <lport> <host:rport>    Transparent TCP forward'',
      ''  fwd list                    List forwards'',
      ''  fwd close <lport>           Stop a forward'',
      ''  proxy <lport> <host:rport>  TCP proxy with traffic logging'',
      ''  proxy list                  List proxies'',
      ''  proxy close <lport>         Stop a proxy'',
      ''  proxy log <lport> <file>    Redirect proxy log to file'',
      [],
      e_render E StyleBold ''SESSION MODE COMMANDS'',
      ''  +back                       Return to menu (keep session open)'',
      ''  +bg / +background           Send session to background'',
      ''  +exit                       Exit tcpsh'',
      ''  !<cmd>                      Run local system command'',
      [],
      e_render E StyleBold ''OTHER'',
      ''  help [cmd]                  Show help'',
      ''  clear                       Clear screen'',
      []] nl"

definition helpFor :: "env \<Rightarrow> string \<Rightarrow> string" where
  "helpFor E verb =
     (let v = to_lower verb in
      if v = ''open'' then join
        [''  open <port> [host|interface]'', ''  Open a TCP listener.'',
         ''  host can be an IP address, a network interface name (e.g. tun0, eth0),'',
         ''  or omitted to bind all interfaces (0.0.0.0).''] nl
      else if v = ''close'' then join
        [''  close <port>'', ''  Stop the listener and close all its sessions.''] nl
      else if v = ''kill'' then join
        [''  kill [-f] <port>[:<idx>]'',
         ''  -f forces RST; default sends FIN. idx selects a specific session.''] nl
      else if v = ''use'' then join
        [''  use <port>[:<idx>]'', ''  Enter session mode. Raw input is sent to the TCP connection.''] nl
      else if v = ''fwd'' then join
        [''  fwd <local-port> <host:port>   Start transparent forward.'',
         ''  fwd list | fwd close <lport>''] nl
      else if v = ''proxy'' then join
        [''  proxy <local-port> <host:port> [logfile]   Start proxy with logging.'',
         ''  proxy list | proxy close <lport> | proxy log <lport> <file>''] nl
      else helpGeneral E)"

definition doHelp :: handler where
  "doHelp E ctx args w = Ret (case args of [] \<Rightarrow> helpGeneral E | a0 # _ \<Rightarrow> helpFor E a0, w)"

definition clear_text :: string where
  "clear_text = [CHR 0x1B] @ ''[H'' @ [CHR 0x1B] @ ''[2J''"

definition unknown_command :: "string \<Rightarrow> string" where
  "unknown_command verb = ''unknown command '' @ go_quote verb @ '' '' @ em_dash @ '' type ''
     @ [CHR 0x27] @ ''help'' @ [CHR 0x27] @ '' for usage''"

definition Dispatch :: "env \<Rightarrow> ctx \<Rightarrow> cmd \<Rightarrow> world \<Rightarrow> (string \<times> world) go" where
  "Dispatch E ctx c w =
     (let v = cmd_verb c; args = cmd_args c in
      if v = ''open'' then doOpen E ctx args w
      else if v = ''close'' then doClose E ctx args w
      else if v = ''kill'' then doKill E ctx args w
      else if v = ''list'' then doList E ctx args w
      else if v = ''info'' then doInfo E ctx args w
      else if v = ''log'' then doLog E ctx args w
      else if v = ''fwd'' then doFwd E ctx args w
      else if v = ''proxy'' then doProxy E ctx args w
      else if v = ''send'' then doSend E ctx args w
      else if v = ''read'' then doRead E ctx args w
      else if v = ''help'' then doHelp E ctx args w
      else if v = ''clear'' then Ret (clear_text, w)
      else Ret (ui_Errorf E (unknown_command v), w))"

end
