(* ===== verification/Listener_Steps.thy ===== *)
theory Listener_Steps
  imports Listener_Model
begin

text \<open>
  The goroutines of \<open>internal/listener/listener.go\<close>: the accept loop, the watcher of a
  session, the receive loop of \<open>internal/session/session.go\<close> and the consumer of the event
  channel, interleaved with the commands that open and close ports. \<open>None\<close> means that the
  goroutine cannot move: it waits for input, for room in the channel, or has returned.
\<close>

section \<open>The goroutines, one atomic action each\<close>

definition chan_send :: "event \<Rightarrow> 'a net_scheme \<Rightarrow> 'a net_scheme option" where
  "chan_send ev w =
     (if length (n_events w) < events_cap then Some (w\<lparr>n_events := n_events w @ [ev]\<rparr>) else None)"

definition set_pc :: "nat \<Rightarrow> accept_pc \<Rightarrow> 'a net_scheme \<Rightarrow> 'a net_scheme" where
  "set_pc i pc w = upd_lsn i (\<lambda>l. l\<lparr>l_pc := pc\<rparr>) w"

text \<open>What the call of \<open>ln.Accept()\<close> returns, when the loop is at it.\<close>

datatype accept_in = ConnArrives conn | AcceptFails string

definition acceptLoop :: "accept_in \<Rightarrow> int \<Rightarrow> nat \<Rightarrow> 'a net_scheme \<Rightarrow> 'a net_scheme option" where
  "acceptLoop inp now i w =
     (let l = n_lheap w ! i in
      case l_pc l of
        AtAccept \<Rightarrow>
          (case inp of
             ConnArrives c \<Rightarrow> if l_closed l then None else Some (set_pc i (Accepted c) w)
           | AcceptFails err \<Rightarrow>
               Some (set_pc i (if ctx_done w (l_ctx l) then SendClosed else SendError err) w))
      | Accepted c \<Rightarrow>
          (case mgr_Accept (l_Port l) c now (n_store w) of
             (a, st) \<Rightarrow> Some (set_pc i (SendNew a) (w\<lparr>n_store := st, n_rx := n_rx w @ [a]\<rparr>)))
      | SendNew a \<Rightarrow>
          map_option
            (\<lambda>w1. set_pc i AtAccept
               (w1\<lparr>n_watchers := n_watchers w1 @
                  [\<lparr>wa_session = a, wa_Port = l_Port l, wa_ctx = l_ctx l, wa_pc = WatchWait\<rparr>]\<rparr>))
            (chan_send \<lparr>ev_Port = l_Port l, ev_Type = EventNewConn, ev_Session = Some a, ev_Err = None\<rparr> w)
      | SendError err \<Rightarrow>
          map_option (set_pc i SendClosed)
            (chan_send \<lparr>ev_Port = l_Port l, ev_Type = EventError, ev_Session = None, ev_Err = Some err\<rparr> w)
      | SendClosed \<Rightarrow>
          map_option (set_pc i LoopDone)
            (chan_send \<lparr>ev_Port = l_Port l, ev_Type = EventClosed, ev_Session = None, ev_Err = None\<rparr> w)
      | LoopDone \<Rightarrow> None)"

definition set_wpc :: "nat \<Rightarrow> watch_pc \<Rightarrow> 'a net_scheme \<Rightarrow> 'a net_scheme" where
  "set_wpc k pc w = w\<lparr>n_watchers := (n_watchers w)[k := (n_watchers w ! k)\<lparr>wa_pc := pc\<rparr>]\<rparr>"

text \<open>\<open>by_ctx\<close> is the choice of the \<open>select\<close> when both of its cases are ready.\<close>

definition watchSession :: "bool \<Rightarrow> nat \<Rightarrow> 'a net_scheme \<Rightarrow> 'a net_scheme option" where
  "watchSession by_ctx k w =
     (let x = n_watchers w ! k; s = sess (n_store w) (wa_session x) in
      case wa_pc x of
        WatchWait \<Rightarrow>
          if by_ctx then (if ctx_done w (wa_ctx x) then Some (set_wpc k WatchDone w) else None)
          else (if WaitDead_done s then Some (set_wpc k WatchCheck w) else None)
      | WatchCheck \<Rightarrow> Some (set_wpc k (if s_state s = StateDead then WatchSend else WatchDone) w)
      | WatchSend \<Rightarrow>
          map_option (set_wpc k WatchDone)
            (chan_send \<lparr>ev_Port = wa_Port x, ev_Type = EventConnDead,
               ev_Session = Some (wa_session x), ev_Err = None\<rparr> w)
      | WatchDone \<Rightarrow> None)"

text \<open>
  A turn of the receive loop of session \<open>a\<close>: \<open>Read\<close> returned \<open>data\<close> and perhaps an error.
  It returns no data once the connection is closed locally.
\<close>

definition StartRxLoop :: "string \<Rightarrow> bool \<Rightarrow> int \<Rightarrow> nat \<Rightarrow> 'a net_scheme \<Rightarrow> 'a net_scheme option" where
  "StartRxLoop data err now a w =
     (if a \<notin> set (n_rx w) \<or> (c_closed (s_Conn (sess (n_store w) a)) \<and> (data \<noteq> [] \<or> \<not> err)) then None
      else
        (let w1 = w\<lparr>n_store := upd_sess a (\<lambda>s. fst (rx_turn s now data err)) (n_store w)\<rparr>
         in Some (if err then w1\<lparr>n_rx := removeAll a (n_rx w1)\<rparr> else w1)))"

text \<open>
  The consumer of the channel (the event loop of the REPL, the event forwarder of the
  server): both drop the record of a session whose connection died.
\<close>

definition take_event :: "'a net_scheme \<Rightarrow> 'a net_scheme option" where
  "take_event w =
     (case n_events w of
        [] \<Rightarrow> None
      | ev # evs \<Rightarrow>
          let w1 = w\<lparr>n_events := evs\<rparr> in
          Some (case (ev_Type ev, ev_Session ev) of
                  (EventConnDead, Some a) \<Rightarrow>
                    w1\<lparr>n_store := mgr_Remove (s_ID (sess (n_store w1) a)) (n_store w1)\<rparr>
                | _ \<Rightarrow> w1))"

lemmas net_defs = acceptLoop_def watchSession_def StartRxLoop_def take_event_def chan_send_def
  set_pc_def set_wpc_def Let_def

section \<open>The step relation\<close>

text \<open>The first argument says whether anything reads the event channel.\<close>

inductive net_step :: "bool \<Rightarrow> 'a net_scheme \<Rightarrow> 'a net_scheme \<Rightarrow> bool" for consumer :: bool where
  accept_step: "i < length (n_lheap w) \<Longrightarrow> acceptLoop inp now i w = Some w' \<Longrightarrow> net_step consumer w w'"
| watch_step: "k < length (n_watchers w) \<Longrightarrow> watchSession by_ctx k w = Some w' \<Longrightarrow> net_step consumer w w'"
| rx_step: "StartRxLoop data err now a w = Some w' \<Longrightarrow> net_step consumer w w'"
| event_step: "consumer \<Longrightarrow> take_event w = Some w' \<Longrightarrow> net_step consumer w w'"
| open_step: "\<forall>j\<in>set ctx. j < cx_next w \<Longrightarrow> lm_Open (E, ctx, host) port w = Inr w' \<Longrightarrow>
    net_step consumer w w'"
| close_step: "enumerates (e_ord_sess E) (st_sessions (n_store w)) \<Longrightarrow>
    lm_Close E port w = Inr w' \<Longrightarrow> net_step consumer w w'"
| cancel_step: "\<forall>j\<in>set ctx. j < cx_next w \<Longrightarrow> net_step consumer w (cancel ctx w)"

inductive_cases net_stepE: "net_step consumer w w'"

definition net_start :: "'a net_scheme \<Rightarrow> bool" where
  "net_start w \<longleftrightarrow> cx_cancelled w = [] \<and> n_store w = NewManager \<and> n_lheap w = []
     \<and> n_listeners w = Map.empty \<and> n_events w = [] \<and> n_watchers w = [] \<and> n_rx w = []"

section \<open>The invariant\<close>

definition table_ok :: "'a net_scheme \<Rightarrow> bool" where
  "table_ok w \<longleftrightarrow> (\<forall>p l. n_listeners w p = Some l \<longrightarrow>
     l < length (n_lheap w) \<and> l_Port (n_lheap w ! l) = p \<and> \<not> l_closed (n_lheap w ! l))"

definition readers_ok :: "'a net_scheme \<Rightarrow> bool" where
  "readers_ok w \<longleftrightarrow>
     (\<forall>a < length (st_heap (n_store w)). s_state (sess (n_store w) a) \<noteq> StateDead \<longrightarrow> a \<in> set (n_rx w))"

definition lctx_ok :: "'a net_scheme \<Rightarrow> bool" where
  "lctx_ok w \<longleftrightarrow> (\<forall>l\<in>set (n_lheap w). l_ctx l \<noteq> [] \<and> (\<forall>j\<in>set (l_ctx l). j < cx_next w))"

definition net_inv :: "'a net_scheme \<Rightarrow> bool" where
  "net_inv w \<longleftrightarrow> store_wf (n_store w) \<and> ctxs_wf w \<and> length (n_events w) \<le> events_cap
     \<and> table_ok w \<and> readers_ok w \<and> lctx_ok w"

lemma net_inv_start: "net_start w \<Longrightarrow> net_inv w"
  using NewManager_wf
  by (simp add: net_inv_def net_start_def ctxs_wf_def table_ok_def readers_ok_def lctx_ok_def)
     (simp add: NewManager_def)

lemma table_ok_upd_lsn:
  assumes "table_ok w" "\<And>l. l_Port (f l) = l_Port l \<and> l_closed (f l) = l_closed l"
  shows "table_ok (upd_lsn i f w)"
proof (cases "i < length (n_lheap w)")
  case True
  with assms show ?thesis by (auto simp: table_ok_def upd_lsn_def nth_list_update)
next
  case False
  with assms(1) show ?thesis by (simp add: table_ok_def upd_lsn_def list_update_beyond)
qed

lemma lctx_ok_upd_lsn:
  assumes "lctx_ok w" "\<And>l. l_ctx (f l) = l_ctx l"
  shows "lctx_ok (upd_lsn i f w)"
proof (cases "i < length (n_lheap w)")
  case True
  have "x \<in> set (n_lheap w) \<or> x = f (n_lheap w ! i)" if "x \<in> set (n_lheap (upd_lsn i f w))" for x
    using that set_update_subset_insert [of "n_lheap w" i] by (auto simp: upd_lsn_def)
  with assms True show ?thesis by (fastforce simp: lctx_ok_def upd_lsn_def)
next
  case False
  with assms(1) show ?thesis by (simp add: lctx_ok_def upd_lsn_def list_update_beyond)
qed

lemma set_pc_frame [simp]:
  "n_store (set_pc i pc w) = n_store w" "n_events (set_pc i pc w) = n_events w"
  "n_rx (set_pc i pc w) = n_rx w" "cx_next (set_pc i pc w) = cx_next w"
  "cx_cancelled (set_pc i pc w) = cx_cancelled w" "n_watchers (set_pc i pc w) = n_watchers w"
  "length (n_lheap (set_pc i pc w)) = length (n_lheap w)"
  by (simp_all add: set_pc_def)

lemma set_wpc_frame [simp]:
  "n_store (set_wpc i pc w) = n_store w" "n_events (set_wpc i pc w) = n_events w"
  "n_rx (set_wpc i pc w) = n_rx w" "cx_next (set_wpc i pc w) = cx_next w"
  "cx_cancelled (set_wpc i pc w) = cx_cancelled w" "n_lheap (set_wpc i pc w) = n_lheap w"
  "n_listeners (set_wpc i pc w) = n_listeners w"
  by (simp_all add: set_wpc_def)

lemma net_inv_set_pc: "net_inv w \<Longrightarrow> net_inv (set_pc i pc w)"
  by (auto simp: net_inv_def ctxs_wf_def readers_ok_def)
     (auto simp: set_pc_def intro: table_ok_upd_lsn lctx_ok_upd_lsn)

lemma net_inv_set_wpc: "net_inv w \<Longrightarrow> net_inv (set_wpc k pc w)"
  by (simp add: net_inv_def ctxs_wf_def readers_ok_def table_ok_def lctx_ok_def)

lemma net_inv_watchers: "net_inv (w\<lparr>n_watchers := ws\<rparr>) \<longleftrightarrow> net_inv w"
  by (simp add: net_inv_def ctxs_wf_def readers_ok_def table_ok_def lctx_ok_def)

lemma net_inv_send: "net_inv w \<Longrightarrow> chan_send ev w = Some w' \<Longrightarrow> net_inv w'"
  by (auto simp: net_inv_def ctxs_wf_def readers_ok_def table_ok_def lctx_ok_def chan_send_def
      split: if_splits)

lemma net_inv_register:
  assumes "net_inv w" "mgr_Accept p c now (n_store w) = (a, st)"
  shows "net_inv (w\<lparr>n_store := st, n_rx := n_rx w @ [a]\<rparr>)"
proof -
  have a: "a = length (st_heap (n_store w))"
    and st: "length (st_heap st) = Suc a" "\<And>b. b < a \<Longrightarrow> sess st b = sess (n_store w) b"
    using assms(2) by (auto simp: mgr_Accept_def Let_def sess_def nth_append)
  have "store_wf st" using assms mgr_Accept_wf by (metis net_inv_def snd_conv)
  moreover have "b \<in> set (n_rx w @ [a])" if "b < Suc a" "s_state (sess st b) \<noteq> StateDead" for b
    using that assms(1) a st by (cases "b = a") (auto simp: net_inv_def readers_ok_def)
  ultimately show ?thesis
    using assms(1) st(1) by (simp add: net_inv_def ctxs_wf_def readers_ok_def table_ok_def lctx_ok_def)
qed

lemma acceptLoop_inv:
  assumes "net_inv w" "acceptLoop inp now i w = Some w'"
  shows "net_inv w'"
  using assms
  by (auto simp: acceptLoop_def Let_def net_inv_watchers
      intro!: net_inv_set_pc elim: net_inv_register net_inv_send
      split: accept_pc.splits accept_in.splits if_splits prod.splits)

lemma watchSession_inv: "net_inv w \<Longrightarrow> watchSession b k w = Some w' \<Longrightarrow> net_inv w'"
  by (auto simp: watchSession_def Let_def intro!: net_inv_set_wpc elim: net_inv_send
      split: watch_pc.splits if_splits)

lemma StartRxLoop_inv:
  assumes "net_inv w" "StartRxLoop d err now a w = Some w'"
  shows "net_inv w'"
proof -
  let ?f = "\<lambda>s. fst (rx_turn s now d err)"
  have w': "w' = (let w1 = w\<lparr>n_store := upd_sess a ?f (n_store w)\<rparr>
      in if err then w1\<lparr>n_rx := removeAll a (n_rx w1)\<rparr> else w1)"
    using assms(2) by (auto simp: StartRxLoop_def Let_def split: if_splits)
  have "store_wf (upd_sess a ?f (n_store w))"
    using assms(1) by (intro upd_sess_wf) (auto simp: net_inv_def)
  moreover have rd: "b \<in> set (n_rx w')"
    if "b < length (st_heap (n_store w))" "s_state (sess (upd_sess a ?f (n_store w)) b) \<noteq> StateDead" for b
  proof (cases "b = a")
    case True
    with that have st: "s_state (?f (sess (n_store w) a)) \<noteq> StateDead" by (simp add: sess_upd)
    then have "\<not> err" "s_state (sess (n_store w) a) \<noteq> StateDead"
      by (auto simp: rx_turn_def SetState_def Let_def split: if_splits)
    with that True assms(1) show ?thesis by (simp add: w' Let_def net_inv_def readers_ok_def)
  next
    case False
    with that have "b \<in> set (n_rx w)"
      using assms(1) by (simp add: sess_upd_other net_inv_def readers_ok_def)
    with False show ?thesis by (auto simp: w' Let_def)
  qed
  moreover have "n_store w' = upd_sess a ?f (n_store w)"
    by (simp add: w' Let_def)
  moreover from this rd have "readers_ok w'" by (simp add: readers_ok_def)
  moreover have "table_ok w' \<and> lctx_ok w' \<and> ctxs_wf w' \<and> length (n_events w') \<le> events_cap"
    using assms(1) by (simp add: w' Let_def net_inv_def ctxs_wf_def table_ok_def lctx_ok_def)
  ultimately show ?thesis by (simp add: net_inv_def)
qed

lemma take_event_inv: "net_inv w \<Longrightarrow> take_event w = Some w' \<Longrightarrow> net_inv w'"
  by (auto simp: take_event_def Let_def net_inv_def ctxs_wf_def readers_ok_def table_ok_def
      lctx_ok_def mgr_Remove_wf
      split: list.splits EventType.splits option.splits)

lemma lm_Open_inv:
  assumes inv: "net_inv w" and op: "lm_Open (E, ctx, host) port w = Inr w'"
    and ctx: "\<forall>j\<in>set ctx. j < cx_next w"
  shows "net_inv w'"
proof -
  obtain w1 where st: "Start E ctx port host w = Inr (length (n_lheap w), w1)"
    and w': "w' = w1\<lparr>n_listeners := (n_listeners w1)(port \<mapsto> length (n_lheap w))\<rparr>"
    using op by (auto simp: lm_Open_Inr dest: Start_Inr)
  obtain l where heap: "n_lheap w1 = n_lheap w @ [l]" and l: "l_Port l = port" "\<not> l_closed l"
      "l_ctx l = cx_next w # ctx"
    and eqs: "n_listeners w1 = n_listeners w" "n_store w1 = n_store w" "n_events w1 = n_events w"
      "n_rx w1 = n_rx w" "cx_next w1 = Suc (cx_next w)" "cx_cancelled w1 = cx_cancelled w"
    using Start_Inr [OF st] by auto
  have "table_ok w'"
    using inv by (auto simp: net_inv_def table_ok_def w' eqs heap l nth_append less_Suc_eq)
  moreover have "lctx_ok w'"
    using inv ctx by (auto simp: net_inv_def lctx_ok_def w' eqs heap l less_Suc_eq)
  ultimately show ?thesis
    using inv by (auto simp: net_inv_def ctxs_wf_def readers_ok_def w' eqs less_Suc_eq)
qed

lemma cancel_inv:
  assumes "net_inv w" "\<forall>j\<in>set ctx. j < cx_next w"
  shows "net_inv (cancel ctx w)"
  using assms
  by (cases ctx) (auto simp: net_inv_def ctxs_wf_def readers_ok_def table_ok_def lctx_ok_def cancel_def)

lemma lm_Close_inv:
  assumes inv: "net_inv w" and ord: "enumerates (e_ord_sess E) (st_sessions (n_store w))"
    and cl: "lm_Close E port w = Inr w'"
  shows "net_inv w'"
proof -
  obtain l where l: "n_listeners w port = Some l" and w': "w' =
      listener_Close l (w\<lparr>n_store := mgr_CloseAll (e_ord_sess E) port (n_store w)\<rparr>)
        \<lparr>n_listeners := (n_listeners w)(port := None)\<rparr>"
    using cl by (auto simp: lm_Close_Inr)
  let ?w1 = "w\<lparr>n_store := mgr_CloseAll (e_ord_sess E) port (n_store w)\<rparr>"
  let ?w2 = "cancel (l_ctx (n_lheap w ! l)) ?w1"
  have wf: "store_wf (n_store w)" and llen: "l < length (n_lheap w)"
    using inv l by (auto simp: net_inv_def table_ok_def)
  have "readers_ok ?w1"
    using inv sess_CloseAll [OF wf ord, of port] fold_upd_frame(3)
    by (auto simp: net_inv_def readers_ok_def mgr_CloseAll_def split: if_splits)
  then have "net_inv ?w1"
    using inv mgr_CloseAll_wf [OF wf]
    by (simp add: net_inv_def ctxs_wf_def table_ok_def lctx_ok_def)
  moreover have "\<forall>j\<in>set (l_ctx (n_lheap w ! l)). j < cx_next ?w1"
    using inv nth_mem [OF llen] by (simp add: net_inv_def lctx_ok_def)
  ultimately have inv2: "net_inv ?w2" by (rule cancel_inv)
  let ?w3 = "upd_lsn l (\<lambda>x. x\<lparr>l_closed := True\<rparr>) ?w2"
  have "table_ok (?w3\<lparr>n_listeners := (n_listeners w)(port := None)\<rparr>)"
    using inv l by (auto simp: net_inv_def table_ok_def upd_lsn_def nth_list_update)
  moreover have "lctx_ok ?w3"
    using inv2 by (intro lctx_ok_upd_lsn) (simp_all add: net_inv_def)
  ultimately show ?thesis
    using inv2
    by (simp add: w' listener_Close_def net_inv_def ctxs_wf_def readers_ok_def lctx_ok_def)
qed

lemma net_step_inv: "net_inv w \<Longrightarrow> net_step c w w' \<Longrightarrow> net_inv w'"
  by (auto elim!: net_stepE
      intro: acceptLoop_inv watchSession_inv StartRxLoop_inv take_event_inv lm_Open_inv lm_Close_inv
        cancel_inv)

interpretation net: inductive_invariant net_start "net_step c" net_inv
  by unfold_locales (auto intro: net_inv_start net_step_inv)

end
