(* ===== verification/Config_Model.thy ===== *)
theory Config_Model
  imports Go_Text
begin

text \<open>
  Configuration and history: \<open>internal/config/config.go\<close>, \<open>internal/history/global.go\<close> and
  \<open>internal/history/session.go\<close>. The configuration library (viper) is a parameter: the
  outcome of reading the file, and the function that overlays file and environment values
  on the defaults the program registers.
\<close>

section \<open>Configuration\<close>

record config =
  Prompt :: string
  HistoryFile :: string
  HistorySize :: int
  DialTimeout :: int
  LogLevel :: string
  Quiet :: bool

definition defaultConfig :: config where
  "defaultConfig = \<lparr>Prompt = ''tcpsh> '', HistoryFile = ''~/.tcpsh_history'', HistorySize = 1000,
     DialTimeout = 10, LogLevel = ''info'', Quiet = False\<rparr>"

text \<open>\<open>filepath.Join(a, b)\<close> and the lexical \<open>Clean\<close> it applies, on slash-separated paths.\<close>

fun split_path :: "string \<Rightarrow> string \<Rightarrow> string list" where
  "split_path acc [] = [rev acc]"
| "split_path acc (c # cs) =
     (if c = CHR ''/'' then rev acc # split_path [] cs else split_path (c # acc) cs)"

fun clean_parts :: "bool \<Rightarrow> string list \<Rightarrow> string list \<Rightarrow> string list" where
  "clean_parts rooted out [] = rev out"
| "clean_parts rooted out (p # ps) =
     (if p = [] \<or> p = ''.'' then clean_parts rooted out ps
      else if p = ''..''
      then (case out of
              [] \<Rightarrow> clean_parts rooted (if rooted then [] else [p]) ps
            | q # qs \<Rightarrow> if q = ''..'' then clean_parts rooted (p # out) ps else clean_parts rooted qs ps)
      else clean_parts rooted (p # out) ps)"

definition path_clean :: "string \<Rightarrow> string" where
  "path_clean s =
     (let rooted = has_prefix s ''/''; parts = clean_parts rooted [] (split_path [] s)
      in if rooted then ''/'' @ join parts ''/''
         else if parts = [] then ''.'' else join parts ''/'')"

definition path_join :: "string \<Rightarrow> string \<Rightarrow> string" where
  "path_join a b =
     (let ps = filter (\<lambda>p. p \<noteq> []) [a, b] in if ps = [] then [] else path_clean (join ps ''/''))"

text \<open>\<open>home\<close> is the answer of \<open>os.UserHomeDir\<close>.\<close>

definition expandTilde :: "string option \<Rightarrow> string \<Rightarrow> string" where
  "expandTilde home path =
     (if path = [] \<or> hd path \<noteq> CHR ''~'' then path
      else case home of None \<Rightarrow> path | Some h \<Rightarrow> path_join h (drop 1 path))"

datatype read_config = ConfigRead | ConfigNotFound | ConfigError string

definition Load ::
  "string option \<Rightarrow> read_config \<Rightarrow> (config \<Rightarrow> string + config) \<Rightarrow> string + config" where
  "Load home readInConfig unmarshal =
     (case readInConfig of
        ConfigError err \<Rightarrow> Inl err
      | _ \<Rightarrow> (case unmarshal defaultConfig of
          Inl err \<Rightarrow> Inl err
        | Inr cfg \<Rightarrow> Inr (cfg\<lparr>HistoryFile := expandTilde home (HistoryFile cfg)\<rparr>)))"

section \<open>History\<close>

text \<open>
  \<open>NewGlobal\<close> creates the directory and touches the file; the answers of the two system
  calls are arguments.
\<close>

definition NewGlobal :: "string option \<Rightarrow> string option \<Rightarrow> string \<Rightarrow> string + string" where
  "NewGlobal mkdir_err open_err path =
     (case mkdir_err of
        Some err \<Rightarrow> Inl err
      | None \<Rightarrow> (case open_err of Some err \<Rightarrow> Inl err | None \<Rightarrow> Inr path))"

record session_history =
  sh_entries :: "string list"

definition sh_Add :: "session_history \<Rightarrow> string \<Rightarrow> session_history" where
  "sh_Add h line = h\<lparr>sh_entries := sh_entries h @ [line]\<rparr>"

definition sh_All :: "session_history \<Rightarrow> string list" where
  "sh_All h = sh_entries h"

definition sh_Len :: "session_history \<Rightarrow> nat" where
  "sh_Len h = length (sh_entries h)"

end
