(* ===== verification/Repl_Model.thy ===== *)
theory Repl_Model
  imports Dispatcher_Model Listener_Steps Config_Model
begin

text \<open>
  The interactive shell, \<open>internal/console/repl.go\<close>, with the signal handling of
  \<open>internal/console/signals.go\<close>. Between two calls of \<open>Readline\<close> the only state of the
  shell's goroutine is whether it is in the menu or in a session, so the shell is a step
  function from one input to the next. The goroutines that drain a session's receive buffer
  to the terminal are listed in the state: one is started by every entry into a session.
\<close>

datatype rl_input = RLine string | RInterrupt | REOF | RErr string

datatype mode =
    Menu
  | InSession nat nat
  | Returned "string option"
  | OsExit

record drainer =
  dr_session :: nat
  dr_running :: bool

record repl =
  rp_world :: world
  rp_cfg :: config
  rp_ctx :: ctx
  rp_mode :: mode
  rp_prompt :: string
  rp_drainers :: "drainer list"
  rp_signals :: bool
  rp_open :: bool
  rp_out :: string

definition print :: "string \<Rightarrow> repl \<Rightarrow> repl" where
  "print s r = r\<lparr>rp_out := rp_out r @ s\<rparr>"

definition println :: "string \<Rightarrow> repl \<Rightarrow> repl" where
  "println s = print (s @ nl)"

definition world_init :: "config \<Rightarrow> world" where
  "world_init cfg = net.extend net_init \<lparr>w_fwd = fm_NewManager (DialTimeout cfg)\<rparr>"

text \<open>\<open>New\<close>: the errors of the history file and of the line editor are arguments.\<close>

definition repl_New :: "string + string \<Rightarrow> string option \<Rightarrow> config \<Rightarrow> string + repl" where
  "repl_New hist rl cfg =
     (case hist of
        Inl err \<Rightarrow> Inl (''history: '' @ err)
      | Inr path \<Rightarrow> (case rl of
          Some err \<Rightarrow> Inl (''readline: '' @ err)
        | None \<Rightarrow>
            (case with_cancel [] (world_init cfg) of
               (ctx, w) \<Rightarrow>
                 Inr \<lparr>rp_world = w, rp_cfg = cfg, rp_ctx = ctx, rp_mode = Menu,
                      rp_prompt = Prompt cfg, rp_drainers = [], rp_signals = True,
                      rp_open = True, rp_out = []\<rparr>)))"

section \<open>Leaving the shell\<close>

text \<open>\<open>Printf\<close> with a rendered string as the format, whose one verb is \<open>%d\<close>.\<close>

fun printf_d :: "string \<Rightarrow> int \<Rightarrow> string" where
  "printf_d (c # d # cs) i =
     (if c = CHR ''%'' \<and> d = CHR ''d'' then itoa i @ cs else c # printf_d (d # cs) i)"
| "printf_d s i = s"

definition close_everything :: "env \<Rightarrow> ctx \<Rightarrow> world \<Rightarrow> world" where
  "close_everything E ctx w =
     (let w1 = cancel ctx w;
          w2 = lm_CloseAll E w1
      in case fm_CloseAll (e_ord_fwds E) (w2, w_fwd w2) of (w3, m) \<Rightarrow> w3\<lparr>w_fwd := m\<rparr>)"

definition confirm_text :: "env \<Rightarrow> nat \<Rightarrow> string" where
  "confirm_text E n =
     printf_d (e_render E StyleWarn ''  [!] %d active session(s) will be lost. Confirm exit? [y/N] '') (int n)"

text \<open>
  \<open>doExit\<close> returns \<open>nil\<close> both when it has shut down and when the user declined; the second
  result tells the two apart.
\<close>

definition doExit :: "env \<Rightarrow> bool \<Rightarrow> repl \<Rightarrow> repl \<times> bool" where
  "doExit E confirm r =
     (let active = mgr_All (e_ord_sess E) (n_store (rp_world r)) in
      if confirm \<and> active \<noteq> [] \<and> to_lower (trim_space (e_scan E)) \<noteq> ''y''
      then (print (confirm_text E (length active)) r, False)
      else
        (let r1 = (if confirm \<and> active \<noteq> [] then print (confirm_text E (length active)) r else r);
             r2 = r1\<lparr>rp_signals := False,
                     rp_world := close_everything E (rp_ctx r) (rp_world r),
                     rp_open := False\<rparr>
         in (println (e_render E StyleMuted ''Bye.'') r2, True)))"

section \<open>Entering a session\<close>

definition upd_world_sess :: "nat \<Rightarrow> (session \<Rightarrow> session) \<Rightarrow> repl \<Rightarrow> repl" where
  "upd_world_sess a f r =
     r\<lparr>rp_world := (rp_world r)\<lparr>n_store := upd_sess a f (n_store (rp_world r))\<rparr>\<rparr>"

definition cur_sess :: "repl \<Rightarrow> nat \<Rightarrow> session" where
  "cur_sess r a = sess (n_store (rp_world r)) a"

definition entering_text :: "session \<Rightarrow> string" where
  "entering_text s = ''  Entering session '' @ itoa (s_ID s) @ '' ('' @ s_RemoteAddr s @ ''). Type ''
     @ [CHR 0x27] @ ''+back'' @ [CHR 0x27] @ '' to return, '' @ [CHR 0x27] @ ''+bg'' @ [CHR 0x27]
     @ '' to background, '' @ [CHR 0x27] @ ''+exit'' @ [CHR 0x27] @ '' to quit.''"

definition enterSession :: "env \<Rightarrow> nat \<Rightarrow> int \<Rightarrow> repl \<Rightarrow> repl" where
  "enterSession E a idx r =
     (let r1 = upd_world_sess a (\<lambda>s. SetState s StateForeground) r;
          s = cur_sess r1 a;
          r2 = r1\<lparr>rp_prompt := ''['' @ itoa (s_Port s) @ '':'' @ itoa idx @ '']> ''\<rparr>;
          r3 = println (e_render E StyleInfo (entering_text s)) r2
      in r3\<lparr>rp_drainers := rp_drainers r3 @ [\<lparr>dr_session = a, dr_running = True\<rparr>],
            rp_mode := InSession a (length (rp_drainers r3))\<rparr>)"

text \<open>The deferred function of \<open>enterSession\<close>.\<close>

definition leaveSession :: "nat \<Rightarrow> repl \<Rightarrow> repl" where
  "leaveSession a r =
     (let r1 = (if s_state (cur_sess r a) = StateForeground
                then upd_world_sess a (\<lambda>s. SetState s StateBackground) r else r)
      in r1\<lparr>rp_prompt := Prompt (rp_cfg r1), rp_mode := Menu\<rparr>)"

definition numbered_list :: "env \<Rightarrow> repl \<Rightarrow> nat list \<Rightarrow> string" where
  "numbered_list E r sessions = concat (map
     (\<lambda>(i, a). ''  '' @ e_render E StyleBold (itoa (int i + 1)) @ ''  ''
        @ s_RemoteAddr (cur_sess r a) @ nl)
     (enumerate 0 sessions))"

definition doUse :: "env \<Rightarrow> string list \<Rightarrow> repl \<Rightarrow> repl go" where
  "doUse E args r =
     (case args of
        [] \<Rightarrow> Ret (println (ui_Errorf E ''usage: use <port>[:<idx>]'') r)
      | a0 # _ \<Rightarrow>
          (case ParsePortIdx a0 of
             Inl err \<Rightarrow> Ret (println (ui_Errorf E err) r)
           | Inr (port, idx) \<Rightarrow>
               let sessions = ByPort (e_ord_sess E) port (n_store (rp_world r)) in
               if sessions = [] then Ret (println (ui_Errorf E (no_conn_err port)) r)
               else if idx = 0
               then (if 1 < length sessions
                     then
                       (let r1 = print (printf_d (e_render E StyleBold (''  Multiple connections on port %d:'' @ nl)) port
                                    @ numbered_list E r sessions
                                    @ e_render E StylePrompt ''Select [1]: '') r;
                            c0 = trim_space (e_scan E);
                            choice = (if c0 = [] then ''1'' else c0)
                        in case atoi choice of
                             None \<Rightarrow> Ret (println (ui_Errorf E ''invalid selection'') r1)
                           | Some n \<Rightarrow>
                               if n < 1 \<or> int (length sessions) < n
                               then Ret (println (ui_Errorf E ''invalid selection'') r1)
                               else (case slice_at sessions (n - 1) of
                                       Panic \<Rightarrow> Panic
                                     | Ret a \<Rightarrow> Ret (enterSession E a n r1)))
                     else (case slice_at sessions 0 of
                             Panic \<Rightarrow> Panic | Ret a \<Rightarrow> Ret (enterSession E a 1 r)))
               else if int (length sessions) < idx
               then Ret (println (ui_Errorf E (''index '' @ itoa idx @ '' out of range'')) r)
               else (case slice_at sessions (idx - 1) of
                       Panic \<Rightarrow> Panic
                     | Ret a \<Rightarrow> Ret (enterSession E a idx r))))"

section \<open>One line of input\<close>

definition print_out :: "string \<Rightarrow> repl \<Rightarrow> repl" where
  "print_out out r = print (out @ (if out \<noteq> [] \<and> last out \<noteq> CHR 0x0A then nl else [])) r"

definition menu_tip :: string where
  "menu_tip = ''  [Tip: use '' @ [CHR 0x27] @ ''exit'' @ [CHR 0x27] @ '' or '' @ [CHR 0x27] @ ''+exit''
     @ [CHR 0x27] @ '' to quit]''"

definition session_tip :: string where
  "session_tip = ''  [Use '' @ [CHR 0x27] @ ''+back'' @ [CHR 0x27] @ '' to return to menu, '' @ [CHR 0x27]
     @ ''+exit'' @ [CHR 0x27] @ '' to quit]''"

definition dead_tip :: string where
  "dead_tip = ''Session is dead. Use '' @ [CHR 0x27] @ ''+back'' @ [CHR 0x27] @ '' to return to menu.''"

definition returned :: "env \<Rightarrow> bool \<Rightarrow> repl \<Rightarrow> repl" where
  "returned E confirm r = (fst (doExit E confirm r))\<lparr>rp_mode := Returned None\<rparr>"

text \<open>The body of the loop of \<open>Run\<close>.\<close>

definition menu_step :: "env \<Rightarrow> rl_input \<Rightarrow> repl \<Rightarrow> repl go" where
  "menu_step E inp r =
     (case inp of
        RInterrupt \<Rightarrow> Ret (println (e_render E StyleMuted menu_tip) r)
      | REOF \<Rightarrow> Ret (returned E False r)
      | RErr err \<Rightarrow> Ret (r\<lparr>rp_mode := Returned (Some err)\<rparr>)
      | RLine line \<Rightarrow>
          let c = Parse line False in
          (case cmd_kind c of
             CmdEmpty \<Rightarrow> Ret r
           | CmdSystem \<Rightarrow> Ret (print_out (RunSystem E (hd (cmd_args c))) r)
           | CmdSpecial \<Rightarrow>
               if cmd_verb c = ''+exit'' then Ret (returned E True r)
               else Ret (println (e_render E StyleMuted
                  ''  Special commands (+back, +bg) are only available in session mode.'') r)
           | CmdTool \<Rightarrow>
               if cmd_verb c = ''exit'' then Ret (returned E True r)
               else if cmd_verb c = ''use'' then doUse E (cmd_args c) r
               else (case Dispatch E (rp_ctx r) c (rp_world r) of
                       Panic \<Rightarrow> Panic
                     | Ret (out, w) \<Rightarrow> Ret (println out (r\<lparr>rp_world := w\<rparr>)))
           | CmdPassthrough \<Rightarrow> Ret r))"

text \<open>
  The check at the end of a turn of the session loop: the drainer of this entry has
  finished.
\<close>

definition check_remote :: "nat \<Rightarrow> nat \<Rightarrow> repl \<Rightarrow> repl" where
  "check_remote a k r = (if dr_running (rp_drainers r ! k) then r else leaveSession a r)"

definition send_line :: "env \<Rightarrow> nat \<Rightarrow> nat \<Rightarrow> string \<Rightarrow> string \<Rightarrow> repl \<Rightarrow> repl" where
  "send_line E a k line payload r =
     (if s_state (cur_sess r a) = StateDead then println (ui_Errorf E dead_tip) r
      else
        (let res = session_Write (cur_sess r a) payload (e_write E);
             r1 = upd_world_sess a (\<lambda>_. fst res) r
         in case snd (snd res) of
              Some err \<Rightarrow>
                leaveSession a
                  (println (ui_Errorf E (''Write error: '' @ err))
                    (upd_world_sess a (\<lambda>s. SetState s StateDead) r1))
            | None \<Rightarrow> check_remote a k (upd_world_sess a (\<lambda>s. AddHistory s line) r1)))"

text \<open>
  The body of the loop of \<open>enterSession\<close>. An error of the line editor other than an
  interrupt or the end of input is not tested for: the line it comes with is empty.
\<close>

definition session_step :: "env \<Rightarrow> nat \<Rightarrow> nat \<Rightarrow> rl_input \<Rightarrow> repl \<Rightarrow> repl" where
  "session_step E a k inp r =
     (case inp of
        RInterrupt \<Rightarrow> println (e_render E StyleMuted session_tip) r
      | REOF \<Rightarrow> leaveSession a r
      | _ \<Rightarrow>
          let line = (case inp of RLine l \<Rightarrow> l | _ \<Rightarrow> []);
              c = Parse line True
          in (case cmd_kind c of
                CmdSpecial \<Rightarrow>
                  if cmd_verb c = ''+back''
                  then leaveSession a
                    (println (e_render E StyleMuted ''  Returning to menu. Session is still open.'') r)
                  else if cmd_verb c = ''+bg'' \<or> cmd_verb c = ''+background''
                  then leaveSession a
                    (println (e_render E StyleBackground
                       (''  Session '' @ itoa (s_ID (cur_sess r a)) @ '' sent to background.''))
                       (upd_world_sess a (\<lambda>s. SetState s StateBackground) r))
                  else if cmd_verb c = ''+exit''
                  then (fst (doExit E True r))\<lparr>rp_mode := OsExit\<rparr>
                  else check_remote a k r
              | CmdSystem \<Rightarrow> check_remote a k (print_out (RunSystem E (hd (cmd_args c))) r)
              | CmdEmpty \<Rightarrow> send_line E a k line nl r
              | _ \<Rightarrow> send_line E a k line (line @ nl) r))"

definition repl_step :: "env \<Rightarrow> rl_input \<Rightarrow> repl \<Rightarrow> repl go" where
  "repl_step E inp r =
     (case rp_mode r of
        Menu \<Rightarrow> menu_step E inp r
      | InSession a k \<Rightarrow> Ret (session_step E a k inp r)
      | _ \<Rightarrow> Ret r)"

section \<open>The other goroutines of the shell\<close>

text \<open>A turn of the goroutine that drains a session to the terminal.\<close>

definition drain_step :: "env \<Rightarrow> nat \<Rightarrow> repl \<Rightarrow> repl option" where
  "drain_step E k r =
     (let d = rp_drainers r ! k; a = dr_session d; s = cur_sess r a in
      if \<not> dr_running d \<or> (s_rxBuf s = [] \<and> s_state s \<noteq> StateDead) then None
      else
        (case DrainRxBuf s of
           (data, s1) \<Rightarrow>
             let r1 = upd_world_sess a (\<lambda>_. s1) r;
                 r2 = (case data of None \<Rightarrow> r1 | Some bytes \<Rightarrow> print bytes r1)
             in Some
                  (if s_state s = StateDead
                   then println (ui_Warnf E (''Session '' @ itoa (s_ID s) @ '' closed by remote.''))
                          (r2\<lparr>rp_drainers := (rp_drainers r2)[k := d\<lparr>dr_running := False\<rparr>]\<rparr>)
                   else r2)))"

definition event_text :: "env \<Rightarrow> store \<Rightarrow> event \<Rightarrow> string" where
  "event_text E st ev =
     (case (ev_Type ev, ev_Session ev) of
        (EventNewConn, Some a) \<Rightarrow>
          e_render E StyleActive (CHR 0x0D # ''[+] New connection on :'' @ itoa (ev_Port ev) @ '' from ''
            @ s_RemoteAddr (sess st a) @ '' (session '' @ itoa (s_ID (sess st a)) @ '')'' @ nl)
      | (EventConnDead, Some a) \<Rightarrow>
          e_render E StyleMuted (CHR 0x0D # ''[-] Session '' @ itoa (s_ID (sess st a)) @ '' (''
            @ s_RemoteAddr (sess st a) @ '') disconnected from :'' @ itoa (ev_Port ev) @ nl)
      | (EventError, _) \<Rightarrow>
          ui_Errorf E (CHR 0x0D # ''[listener :'' @ itoa (ev_Port ev) @ ''] ''
            @ (case ev_Err ev of None \<Rightarrow> [] | Some e \<Rightarrow> e) @ nl)
      | _ \<Rightarrow> [])"

datatype signal = SIGINT | SIGTERM

datatype loop_in = LoopEvent | LoopSignal signal

text \<open>A turn of \<open>eventLoop\<close>; it has returned once the context of the shell is done.\<close>

definition eventLoop :: "env \<Rightarrow> loop_in \<Rightarrow> repl \<Rightarrow> repl option" where
  "eventLoop E inp r =
     (if ctx_done (rp_world r) (rp_ctx r) then None
      else case inp of
        LoopEvent \<Rightarrow>
          (case n_events (rp_world r) of
             [] \<Rightarrow> None
           | ev # _ \<Rightarrow>
               map_option
                 (\<lambda>w. (print (event_text E (n_store (rp_world r)) ev) r)\<lparr>rp_world := w\<rparr>)
                 (take_event (rp_world r)))
      | LoopSignal sig \<Rightarrow>
          if sig = SIGTERM then Some ((fst (doExit E False r))\<lparr>rp_mode := OsExit\<rparr>) else Some r)"

end
