(* ===== verification/Proto_Model.thy ===== *)
theory Proto_Model
  imports Go_Text
begin

text \<open>
  The framing and encryption layer, \<open>internal/proto/proto.go\<close>: tokens, frames, the
  handshake and typed frames. The cipher (golang.org/x/crypto) and SHA-256 are parameters:
  a record of functions passed to the operations, with \<open>aead_ok\<close> naming what their
  documentation promises. The connection is a \<open>wire\<close> on the writing side (with the number
  of bytes it still accepts before it fails) and a \<open>reader\<close> on the reading side (with the
  error that follows the bytes still to come).
\<close>

section \<open>Constants, errors and the byte streams\<close>

definition nonceSize :: nat where "nonceSize = 12"
definition tagSize :: nat where "tagSize = 16"
definition lenFieldSize :: nat where "lenFieldSize = 4"
definition tokenLen :: nat where "tokenLen = 32"
definition tokenCharset :: string where
  "tokenCharset = ''ABCDEFGHIJKLMNOPQRSTUVWXYZabcdefghijklmnopqrstuvwxyz0123456789''"
definition maxFrameBytes :: nat where "maxFrameBytes = 4 * 1024 * 1024"

lemmas proto_consts = nonceSize_def tagSize_def lenFieldSize_def tokenLen_def maxFrameBytes_def

definition FrameResponse :: char where "FrameResponse = CHR ''R''"
definition FrameEvent :: char where "FrameEvent = CHR ''E''"
definition FrameSessionStart :: char where "FrameSessionStart = CHR ''S''"

datatype io_err = EOF | UnexpectedEOF | IoErr string

datatype proto_error =
    GenerateFailed string
  | TokenLength nat
  | TokenChar char
  | NewCipher
  | NonceFailed string
  | WriteHeader io_err
  | WriteNonce io_err
  | WriteCiphertext io_err
  | ReadHeader io_err
  | FrameTooShort
  | FrameTooLarge nat
  | ReadBody io_err
  | DecryptFailed
  | EmptyTypedFrame
  | HandshakeSend proto_error
  | HandshakeRecv proto_error
  | HandshakeReply proto_error
  | UnexpectedReply string
  | UnexpectedMessage string

record wire =
  wr_out :: string
  wr_room :: "nat option"

definition wire_write :: "wire \<Rightarrow> string \<Rightarrow> wire \<times> io_err option" where
  "wire_write w data =
     (case wr_room w of
        None \<Rightarrow> (w\<lparr>wr_out := wr_out w @ data\<rparr>, None)
      | Some k \<Rightarrow>
          if length data \<le> k
          then (w\<lparr>wr_out := wr_out w @ data, wr_room := Some (k - length data)\<rparr>, None)
          else (w\<lparr>wr_out := wr_out w @ take k data, wr_room := Some 0\<rparr>, Some (IoErr ''write'')))"

record reader =
  rd_in :: string
  rd_end :: io_err

text \<open>\<open>io.ReadFull(r, buf)\<close> for a buffer of \<open>n\<close> bytes\<close>

definition read_full :: "reader \<Rightarrow> nat \<Rightarrow> (io_err + string) \<times> reader" where
  "read_full r n =
     (if n \<le> length (rd_in r) then (Inr (take n (rd_in r)), r\<lparr>rd_in := drop n (rd_in r)\<rparr>)
      else if rd_in r = [] then (Inl (rd_end r), r)
      else (Inl (if rd_end r = EOF then UnexpectedEOF else rd_end r), r\<lparr>rd_in := []\<rparr>))"

section \<open>Tokens\<close>

text \<open>
  \<open>draw i\<close> is the result of the \<open>i\<close>-th call of \<open>rand.Int(rand.Reader, 62)\<close>; its
  documentation promises a number below 62 or an error.
\<close>

definition draws_ok :: "(nat \<Rightarrow> string + nat) \<Rightarrow> bool" where
  "draws_ok draw \<longleftrightarrow> (\<forall>i n. draw i = Inr n \<longrightarrow> n < length tokenCharset)"

fun token_bytes :: "(nat \<Rightarrow> string + nat) \<Rightarrow> nat \<Rightarrow> nat \<Rightarrow> proto_error + string" where
  "token_bytes draw i 0 = Inr []"
| "token_bytes draw i (Suc k) =
     (case draw i of
        Inl e \<Rightarrow> Inl (GenerateFailed e)
      | Inr n \<Rightarrow> (case token_bytes draw (Suc i) k of
            Inl e \<Rightarrow> Inl e
          | Inr buf \<Rightarrow> Inr (tokenCharset ! n # buf)))"

definition GenerateToken :: "(nat \<Rightarrow> string + nat) \<Rightarrow> proto_error + string" where
  "GenerateToken draw = token_bytes draw 0 tokenLen"

definition token_char :: "char \<Rightarrow> bool" where
  "token_char c \<longleftrightarrow>
     (let n = of_char c :: nat in
      (65 \<le> n \<and> n \<le> 90) \<or> (97 \<le> n \<and> n \<le> 122) \<or> (48 \<le> n \<and> n \<le> 57))"

definition ValidateToken :: "string \<Rightarrow> proto_error option" where
  "ValidateToken token =
     (if length token \<noteq> tokenLen then Some (TokenLength (length token))
      else case find (\<lambda>c. \<not> token_char c) token of
             Some c \<Rightarrow> Some (TokenChar c)
           | None \<Rightarrow> None)"

lemma ValidateToken_None:
  "ValidateToken t = None \<longleftrightarrow> length t = 32 \<and> (\<forall>c\<in>set t. token_char c)"
  by (auto simp: ValidateToken_def tokenLen_def find_None_iff find_Some_iff split: option.splits)

lemma tokenCharset_ok: "list_all token_char tokenCharset" "length tokenCharset = 62"
  by (simp_all add: tokenCharset_def token_char_def)

lemma token_bytes_ok:
  "draws_ok draw \<Longrightarrow> token_bytes draw i k = Inr t \<Longrightarrow> length t = k \<and> (\<forall>c\<in>set t. token_char c)"
proof (induction k arbitrary: i t)
  case (Suc k)
  then obtain n buf where n: "draw i = Inr n" and buf: "token_bytes draw (Suc i) k = Inr buf"
    and t: "t = tokenCharset ! n # buf"
    by (auto split: sum.splits)
  have "token_char (tokenCharset ! n)"
    using Suc.prems(1) n tokenCharset_ok by (auto simp: draws_ok_def list_all_length)
  with Suc.IH [OF Suc.prems(1) buf] t show ?case by auto
qed simp

section \<open>The cipher as a parameter\<close>

record aead =
  a_new_ok :: "string \<Rightarrow> bool"
  a_seal :: "string \<Rightarrow> string \<Rightarrow> string \<Rightarrow> string"
  a_open :: "string \<Rightarrow> string \<Rightarrow> string \<Rightarrow> string option"

definition aead_ok :: "aead \<Rightarrow> bool" where
  "aead_ok A \<longleftrightarrow>
     (\<forall>k. length k = 32 \<longrightarrow> a_new_ok A k) \<and>
     (\<forall>k n p. length (a_seal A k n p) = length p + tagSize) \<and>
     (\<forall>k n p. length n = nonceSize \<longrightarrow> a_open A k n (a_seal A k n p) = Some p)"

definition TokenToKey :: "(string \<Rightarrow> string) \<Rightarrow> string \<Rightarrow> string" where
  "TokenToKey sha256 token = sha256 token"

section \<open>Frames\<close>

definition be32 :: "32 word \<Rightarrow> string" where
  "be32 w = (let n = unat w in
     [char_of (n div 16777216), char_of (n div 65536), char_of (n div 256), char_of n])"

definition un_be32 :: "string \<Rightarrow> 32 word" where
  "un_be32 h = of_nat (foldl (\<lambda>n c. n * 256 + of_char c) (0::nat) h)"

lemma un_be32_be32: "un_be32 (be32 w) = w"
proof -
  define n where "n = unat w"
  have n: "n < 4294967296" using unsigned_less [of w, where ?'a = nat] by (simp add: n_def)
  have "n div 16777216 < 256" using n by (intro less_mult_imp_div_less) simp
  then have a: "n div 16777216 mod 256 = n div 16777216" by (rule mod_less)
  have "n div 65536 div 256 * 256 + n div 65536 mod 256 = n div 65536" by (rule div_mult_mod_eq)
  then have "n div 16777216 * 256 + n div 65536 mod 256 = n div 65536"
    by (simp only: div_mult2_eq [symmetric]) simp
  moreover have "n div 256 div 256 * 256 + n div 256 mod 256 = n div 256" by (rule div_mult_mod_eq)
  then have "n div 65536 * 256 + n div 256 mod 256 = n div 256"
    by (simp only: div_mult2_eq [symmetric]) simp
  moreover have "n div 256 * 256 + n mod 256 = n" by (rule div_mult_mod_eq)
  ultimately have "((n div 16777216 * 256 + n div 65536 mod 256) * 256 + n div 256 mod 256) * 256
      + n mod 256 = n" by simp
  then show ?thesis
    by (simp add: un_be32_def be32_def Let_def n_def [symmetric] of_char_of a)
       (simp add: n_def)
qed

lemma length_be32 [simp]: "length (be32 w) = 4"
  by (simp add: be32_def Let_def)

text \<open>
  The part of a frame that does not depend on the cipher: the length field and the bytes it
  counts. \<open>put_raw\<close> is what \<open>WriteFrame\<close> sends for a body, \<open>get_raw\<close> what \<open>ReadFrame\<close>
  takes off the stream before it decrypts.
\<close>

definition put_raw :: "string \<Rightarrow> string" where
  "put_raw body = be32 (of_nat (length body)) @ body"

definition get_raw :: "reader \<Rightarrow> (proto_error + string) \<times> reader" where
  "get_raw r =
     (case read_full r lenFieldSize of
        (Inl e, r1) \<Rightarrow> (Inl (ReadHeader e), r1)
      | (Inr hdr, r1) \<Rightarrow>
          let frameLen = un_be32 hdr in
          if frameLen < of_nat (nonceSize + tagSize) then (Inl FrameTooShort, r1)
          else if of_nat maxFrameBytes < frameLen then (Inl (FrameTooLarge (unat frameLen)), r1)
          else (case read_full r1 (unat frameLen) of
                  (Inl e, r2) \<Rightarrow> (Inl (ReadBody e), r2)
                | (Inr frame, r2) \<Rightarrow> (Inr frame, r2)))"

definition raw_ok :: "string \<Rightarrow> bool" where
  "raw_ok body \<longleftrightarrow> nonceSize + tagSize \<le> length body \<and> length body \<le> maxFrameBytes"

definition WriteFrame ::
  "aead \<Rightarrow> string + string \<Rightarrow> wire \<Rightarrow> string \<Rightarrow> string \<Rightarrow> wire \<times> proto_error option" where
  "WriteFrame A nonce_draw w key plaintext =
     (if \<not> a_new_ok A key then (w, Some NewCipher)
      else case nonce_draw of
        Inl e \<Rightarrow> (w, Some (NonceFailed e))
      | Inr nonce \<Rightarrow>
          let ciphertext = a_seal A key nonce plaintext;
              frameLen = of_nat (nonceSize + length ciphertext) :: 32 word
          in case wire_write w (be32 frameLen) of
               (w1, Some e) \<Rightarrow> (w1, Some (WriteHeader e))
             | (w1, None) \<Rightarrow>
                 (case wire_write w1 nonce of
                    (w2, Some e) \<Rightarrow> (w2, Some (WriteNonce e))
                  | (w2, None) \<Rightarrow>
                      (case wire_write w2 ciphertext of
                         (w3, Some e) \<Rightarrow> (w3, Some (WriteCiphertext e))
                       | (w3, None) \<Rightarrow> (w3, None))))"

definition ReadFrame :: "aead \<Rightarrow> reader \<Rightarrow> string \<Rightarrow> (proto_error + string) \<times> reader" where
  "ReadFrame A r key =
     (case get_raw r of
        (Inl e, r1) \<Rightarrow> (Inl e, r1)
      | (Inr frame, r1) \<Rightarrow>
          let nonce = take nonceSize frame;
              ciphertext = drop nonceSize frame
          in if \<not> a_new_ok A key then (Inl NewCipher, r1)
             else case a_open A key nonce ciphertext of
                    None \<Rightarrow> (Inl DecryptFailed, r1)
                  | Some plaintext \<Rightarrow> (Inr plaintext, r1))"

section \<open>The handshake and typed frames\<close>

definition hello :: string where "hello = ''HELLO''"
definition ready :: string where "ready = ''READY''"

definition SendHandshake ::
  "aead \<Rightarrow> string + string \<Rightarrow> wire \<Rightarrow> reader \<Rightarrow> string \<Rightarrow> wire \<times> reader \<times> proto_error option" where
  "SendHandshake A nonce_draw w r key =
     (case WriteFrame A nonce_draw w key hello of
        (w1, Some e) \<Rightarrow> (w1, r, Some (HandshakeSend e))
      | (w1, None) \<Rightarrow>
          (case ReadFrame A r key of
             (Inl e, r1) \<Rightarrow> (w1, r1, Some (HandshakeRecv e))
           | (Inr reply, r1) \<Rightarrow>
               if reply \<noteq> ready then (w1, r1, Some (UnexpectedReply reply))
               else (w1, r1, None)))"

definition ReceiveHandshake ::
  "aead \<Rightarrow> string + string \<Rightarrow> wire \<Rightarrow> reader \<Rightarrow> string \<Rightarrow> wire \<times> reader \<times> proto_error option" where
  "ReceiveHandshake A nonce_draw w r key =
     (case ReadFrame A r key of
        (Inl e, r1) \<Rightarrow> (w, r1, Some (HandshakeRecv e))
      | (Inr msg, r1) \<Rightarrow>
          if msg \<noteq> hello then (w, r1, Some (UnexpectedMessage msg))
          else (case WriteFrame A nonce_draw w key ready of
                  (w1, Some e) \<Rightarrow> (w1, r1, Some (HandshakeReply e))
                | (w1, None) \<Rightarrow> (w1, r1, None)))"

definition WriteTypedFrame ::
  "aead \<Rightarrow> string + string \<Rightarrow> wire \<Rightarrow> string \<Rightarrow> char \<Rightarrow> string \<Rightarrow> wire \<times> proto_error option" where
  "WriteTypedFrame A nonce_draw w key typ payload = WriteFrame A nonce_draw w key (typ # payload)"

definition ReadTypedFrame ::
  "aead \<Rightarrow> reader \<Rightarrow> string \<Rightarrow> (proto_error + char \<times> string) \<times> reader" where
  "ReadTypedFrame A r key =
     (case ReadFrame A r key of
        (Inl e, r1) \<Rightarrow> (Inl e, r1)
      | (Inr plain, r1) \<Rightarrow>
          (case plain of
             [] \<Rightarrow> (Inl EmptyTypedFrame, r1)
           | typ # payload \<Rightarrow> (Inr (typ, payload), r1)))"

section \<open>Self-delimiting encodings\<close>

text \<open>
  The contract of a framing: encoded items can be laid end to end on one stream and taken
  off again one by one. It gives that a stream determines its items.
\<close>

locale prefix_code =
  fixes enc :: "'p \<Rightarrow> string" and ok :: "'p \<Rightarrow> bool"
  assumes unambiguous: "ok p \<Longrightarrow> ok q \<Longrightarrow> enc p @ s = enc q @ t \<Longrightarrow> p = q \<and> s = t"
begin

lemma streams_unambiguous:
  assumes "\<forall>p\<in>set ps. ok p" and "\<forall>q\<in>set qs. ok q" and "length ps = length qs"
    and "concat (map enc ps) @ s = concat (map enc qs) @ t"
  shows "ps = qs \<and> s = t"
  using assms(3,1,2,4)
proof (induction ps qs arbitrary: s t rule: list_induct2)
  case (Cons p ps q qs)
  then have "enc p @ (concat (map enc ps) @ s) = enc q @ (concat (map enc qs) @ t)" by simp
  with Cons.prems unambiguous
  have "p = q \<and> concat (map enc ps) @ s = concat (map enc qs) @ t" by (meson list.set_intros(1))
  with Cons.IH [of s t] Cons.prems show ?case by simp
qed simp

end

locale frame_codec =
  fixes enc :: "'p \<Rightarrow> string"
    and dec :: "reader \<Rightarrow> ('e + 'p) \<times> reader"
    and ok :: "'p \<Rightarrow> bool"
  assumes dec_enc: "ok p \<Longrightarrow>
    dec \<lparr>rd_in = enc p @ rest, rd_end = e\<rparr> = (Inr p, \<lparr>rd_in = rest, rd_end = e\<rparr>)"
begin

primrec dec_many :: "nat \<Rightarrow> reader \<Rightarrow> 'p list \<times> reader" where
  "dec_many 0 r = ([], r)"
| "dec_many (Suc n) r =
     (case dec r of
        (Inl e, r1) \<Rightarrow> ([], r1)
      | (Inr p, r1) \<Rightarrow> (case dec_many n r1 of (ps, r2) \<Rightarrow> (p # ps, r2)))"

lemma dec_stream:
  "\<forall>p\<in>set ps. ok p \<Longrightarrow>
   dec_many (length ps) \<lparr>rd_in = concat (map enc ps) @ rest, rd_end = e\<rparr>
     = (ps, \<lparr>rd_in = rest, rd_end = e\<rparr>)"
  by (induction ps) (simp_all add: dec_enc)

end

sublocale frame_codec \<subseteq> prefix_code enc ok
proof
  fix p q s t
  assume "ok p" "ok q" and eq: "enc p @ s = enc q @ t"
  have "dec \<lparr>rd_in = enc p @ s, rd_end = EOF\<rparr> = (Inr p, \<lparr>rd_in = s, rd_end = EOF\<rparr>)"
    using \<open>ok p\<close> by (rule dec_enc)
  moreover have "dec \<lparr>rd_in = enc p @ s, rd_end = EOF\<rparr> = (Inr q, \<lparr>rd_in = t, rd_end = EOF\<rparr>)"
    unfolding eq using \<open>ok q\<close> by (rule dec_enc)
  ultimately show "p = q \<and> s = t" by simp
qed

lemma unat_frame_len: "n < 4294967296 \<Longrightarrow> unat (of_nat n :: 32 word) = n"
  by (simp add: unat_of_nat)

lemma get_raw_put_raw:
  assumes "raw_ok body"
  shows "get_raw \<lparr>rd_in = put_raw body @ rest, rd_end = e\<rparr> = (Inr body, \<lparr>rd_in = rest, rd_end = e\<rparr>)"
proof -
  have len: "28 \<le> length body" "length body \<le> 4194304"
    using assms by (simp_all add: raw_ok_def proto_consts)
  let ?w = "of_nat (length body) :: 32 word"
  have u: "unat ?w = length body" using len by (simp add: unat_frame_len)
  have "\<not> ?w < 28" "\<not> 4194304 < ?w"
    using len u by (simp_all add: word_less_nat_alt)
  then show ?thesis
    by (simp add: get_raw_def put_raw_def read_full_def proto_consts un_be32_be32 u Let_def)
qed

interpretation raw: frame_codec put_raw get_raw raw_ok
  by unfold_locales (rule get_raw_put_raw)

section \<open>Writing and reading frames\<close>

lemma wire_write_ok:
  "wr_room w = None \<Longrightarrow> wire_write w d = (w\<lparr>wr_out := wr_out w @ d\<rparr>, None)"
  by (simp add: wire_write_def)

lemma wire_write_prefix:
  "wire_write w d = (w1, r) \<Longrightarrow>
   \<exists>u. wr_out w1 = wr_out w @ u \<and> u = take (length u) d \<and> (r = None \<longleftrightarrow> u = d)"
  by (cases "wr_room w") (auto simp: wire_write_def split: if_splits)

text \<open>The body of the frame that carries a plaintext.\<close>

definition frame_body :: "aead \<Rightarrow> string \<Rightarrow> string \<Rightarrow> string \<Rightarrow> string" where
  "frame_body A key nonce plaintext = nonce @ a_seal A key nonce plaintext"

lemma length_frame_body:
  "aead_ok A \<Longrightarrow> length nonce = nonceSize \<Longrightarrow> length (frame_body A key nonce p) = 28 + length p"
  by (simp add: frame_body_def aead_ok_def proto_consts)

lemma WriteFrame_sends:
  assumes "aead_ok A" "length key = 32" "length nonce = nonceSize" "wr_room w = None"
  shows "WriteFrame A (Inr nonce) w key p =
    (w\<lparr>wr_out := wr_out w @ put_raw (frame_body A key nonce p)\<rparr>, None)"
  using assms
  by (simp add: WriteFrame_def aead_ok_def wire_write_ok put_raw_def frame_body_def Let_def
      append.assoc)

lemma ReadFrame_body:
  assumes "aead_ok A" "length key = 32" "length nonce = nonceSize"
    and "get_raw r = (Inr (frame_body A key nonce p), r1)"
  shows "ReadFrame A r key = (Inr p, r1)"
  using assms by (simp add: ReadFrame_def aead_ok_def frame_body_def Let_def)

lemma ReadFrame_put_raw:
  assumes "aead_ok A" "length key = 32" "length nonce = nonceSize"
    and "28 + length p \<le> maxFrameBytes"
  shows "ReadFrame A \<lparr>rd_in = put_raw (frame_body A key nonce p) @ rest, rd_end = e\<rparr> key
    = (Inr p, \<lparr>rd_in = rest, rd_end = e\<rparr>)"
proof (rule ReadFrame_body [OF assms(1-3)])
  have "raw_ok (frame_body A key nonce p)"
    using assms by (simp add: raw_ok_def length_frame_body) (simp add: proto_consts)
  then show "get_raw \<lparr>rd_in = put_raw (frame_body A key nonce p) @ rest, rd_end = e\<rparr>
      = (Inr (frame_body A key nonce p), \<lparr>rd_in = rest, rd_end = e\<rparr>)"
    by (rule raw.dec_enc)
qed

lemma get_raw_truncated:
  assumes "raw_ok body" and "prefix = take n (put_raw body)" and "n < length (put_raw body)"
  shows "\<exists>e. fst (get_raw \<lparr>rd_in = prefix, rd_end = e0\<rparr>) = Inl e"
proof (cases "n < 4")
  case True
  with assms show ?thesis
    by (simp add: get_raw_def read_full_def put_raw_def proto_consts Let_def split: prod.splits)
next
  case False
  have len: "28 \<le> length body" "length body \<le> 4194304"
    using assms(1) by (simp_all add: raw_ok_def proto_consts)
  let ?w = "of_nat (length body) :: 32 word"
  have u: "unat ?w = length body" using len by (simp add: unat_frame_len)
  have "\<not> ?w < 28" "\<not> 4194304 < ?w"
    using len u by (simp_all add: word_less_nat_alt)
  moreover have "prefix = be32 ?w @ take (n - 4) body"
    using False assms(2) by (simp add: put_raw_def)
  moreover have "n - 4 < length body" using assms(3) False by (simp add: put_raw_def)
  ultimately show ?thesis
    by (simp add: get_raw_def read_full_def proto_consts un_be32_be32 u Let_def)
qed

end
