(* ===== verification/Server_Model.thy ===== *)
theory Server_Model
  imports Repl_Model Proto_Model
begin

text \<open>
  The headless server, \<open>internal/server/server.go\<close>. One client is served at a time; the
  goroutines of \<open>serveClient\<close> and \<open>serveSession\<close> are the step functions below, over the
  two channels between them. Frames are plaintexts here: \<open>Proto_Model\<close> shows that a stream
  of frames carries exactly the list of its plaintexts. A goroutine that has messages to
  send on a channel keeps them in a list of pending messages until there is room; the main
  loop reads its next command only when it has none.
\<close>

type_synonym out_msg = "char \<times> string"

definition out_cap :: nat where "out_cap = 64"
definition cmd_cap :: nat where "cmd_cap = 8"

datatype srv_mode = SvMenu | SvSession nat nat | SvDone

text \<open>The goroutine of \<open>serveSession\<close> that forwards a session's bytes to the client.\<close>

record rx_pump =
  px_session :: nat
  px_exit :: bool
  px_running :: bool
  px_pending :: "out_msg list"

record server =
  sv_world :: world
  sv_cfg :: config
  sv_bind :: string
  sv_key :: string
  sv_token :: string
  sv_ctx :: ctx
  sv_mode :: srv_mode
  sv_cmds :: "string list"
  sv_cmds_closed :: bool
  sv_pending :: "out_msg list"
  sv_outCh :: "out_msg list"
  sv_sent :: "out_msg list"
  sv_pumps :: "rx_pump list"
  sv_writing :: bool
  sv_forwarding :: bool
  sv_evPending :: "out_msg option"

section \<open>Starting the server, accepting a client\<close>

definition server_New ::
  "(string \<Rightarrow> string) \<Rightarrow> (nat \<Rightarrow> string + nat) \<Rightarrow> config \<Rightarrow> string \<Rightarrow> string \<Rightarrow> proto_error + server" where
  "server_New sha256 draw cfg bnd token =
     (let mk = (\<lambda>t. \<lparr>sv_world = world_init cfg, sv_cfg = cfg, sv_bind = bnd,
            sv_key = TokenToKey sha256 t, sv_token = t, sv_ctx = [], sv_mode = SvDone,
            sv_cmds = [], sv_cmds_closed = False, sv_pending = [], sv_outCh = [], sv_sent = [],
            sv_pumps = [], sv_writing = False, sv_forwarding = False, sv_evPending = None\<rparr>)
      in if token = []
         then (case GenerateToken draw of Inl err \<Rightarrow> Inl err | Inr t \<Rightarrow> Inr (mk t))
         else (case ValidateToken token of Some err \<Rightarrow> Inl err | None \<Rightarrow> Inr (mk token)))"

text \<open>
  \<open>authenticate\<close> reads through a buffer of its own: it takes whatever has arrived, and what
  the handshake leaves in that buffer is dropped with it (third result).
\<close>

definition authenticate ::
  "aead \<Rightarrow> string + string \<Rightarrow> wire \<Rightarrow> reader \<Rightarrow> string \<Rightarrow> wire \<times> proto_error option \<times> string" where
  "authenticate A nonce_draw w arrived key =
     (case ReceiveHandshake A nonce_draw w arrived key of (w1, r1, err) \<Rightarrow> (w1, err, rd_in r1))"

text \<open>The beginning of \<open>serveClient\<close>: a context of its own, empty channels.\<close>

definition serveClient :: "server \<Rightarrow> server" where
  "serveClient s =
     (case with_cancel [] (sv_world s) of
        (c, w) \<Rightarrow>
          s\<lparr>sv_world := w, sv_ctx := c, sv_mode := SvMenu, sv_cmds := [],
            sv_cmds_closed := False, sv_pending := [], sv_outCh := [], sv_sent := [], sv_pumps := [],
            sv_writing := True, sv_forwarding := True, sv_evPending := None\<rparr>)"

text \<open>Its end: the deferred \<open>cancel\<close>.\<close>

definition endClient :: "server \<Rightarrow> server" where
  "endClient s = s\<lparr>sv_world := cancel (sv_ctx s) (sv_world s), sv_mode := SvDone\<rparr>"

text \<open>The goroutine that waits for a signal.\<close>

definition shutdown :: "env \<Rightarrow> server \<Rightarrow> server" where
  "shutdown E s =
     (let w2 = lm_CloseAll E (sv_world s)
      in case fm_CloseAll (e_ord_fwds E) (w2, w_fwd w2) of
           (w3, m) \<Rightarrow> s\<lparr>sv_world := w3\<lparr>w_fwd := m\<rparr>, sv_mode := SvDone\<rparr>)"

section \<open>The goroutines around the main loop\<close>

text \<open>
  The reader: \<open>frame\<close> is what \<open>ReadFrame\<close> returned, \<open>None\<close> for an error. When the channel is full
  it waits with the frame in hand; \<open>by_ctx\<close> is the choice of its \<open>select\<close> for the context. Its
  return closes the channel.
\<close>

definition sv_done :: "server \<Rightarrow> bool" where
  "sv_done s \<longleftrightarrow> ctx_done (sv_world s) (sv_ctx s)"

definition reader_step :: "bool \<Rightarrow> string option \<Rightarrow> server \<Rightarrow> server option" where
  "reader_step by_ctx frame s =
     (if sv_cmds_closed s then None
      else case frame of
        None \<Rightarrow> Some (s\<lparr>sv_cmds_closed := True\<rparr>)
      | Some plain \<Rightarrow>
          if by_ctx then (if sv_done s then Some (s\<lparr>sv_cmds_closed := True\<rparr>) else None)
          else if length (sv_cmds s) < cmd_cap
          then Some (s\<lparr>sv_cmds := sv_cmds s @ [trim_right plain [CHR 0x0D, CHR 0x0A]]\<rparr>)
          else None)"

text \<open>
  The writer: \<open>fails\<close> says whether the connection refuses the frame, which ends the goroutine.
\<close>

definition writer_step :: "bool \<Rightarrow> bool \<Rightarrow> server \<Rightarrow> server option" where
  "writer_step by_ctx fails s =
     (if \<not> sv_writing s then None
      else if by_ctx then (if sv_done s then Some (s\<lparr>sv_writing := False\<rparr>) else None)
      else case sv_outCh s of
        [] \<Rightarrow> None
      | m # ms \<Rightarrow>
          if fails then Some (s\<lparr>sv_outCh := ms, sv_writing := False\<rparr>)
          else Some (s\<lparr>sv_outCh := ms, sv_sent := sv_sent s @ [m]\<rparr>))"

definition push_out :: "out_msg \<Rightarrow> server \<Rightarrow> server option" where
  "push_out m s =
     (if length (sv_outCh s) < out_cap then Some (s\<lparr>sv_outCh := sv_outCh s @ [m]\<rparr>) else None)"

definition flush_step :: "server \<Rightarrow> server option" where
  "flush_step s =
     (case sv_pending s of
        [] \<Rightarrow> None
      | m # ms \<Rightarrow> map_option (\<lambda>s1. s1\<lparr>sv_pending := ms\<rparr>) (push_out m s))"

definition server_event_text :: "store \<Rightarrow> event \<Rightarrow> string" where
  "server_event_text st ev =
     (case (ev_Type ev, ev_Session ev) of
        (EventNewConn, Some a) \<Rightarrow>
          ''[+] New connection on :'' @ itoa (ev_Port ev) @ '' from '' @ s_RemoteAddr (sess st a)
            @ '' (session '' @ itoa (s_ID (sess st a)) @ '')''
      | (EventConnDead, Some a) \<Rightarrow>
          ''[-] Session '' @ itoa (s_ID (sess st a)) @ '' ('' @ s_RemoteAddr (sess st a)
            @ '') disconnected from :'' @ itoa (ev_Port ev)
      | (EventError, _) \<Rightarrow>
          ''[!] Listener :'' @ itoa (ev_Port ev) @ '' error: ''
            @ (case ev_Err ev of None \<Rightarrow> [] | Some e \<Rightarrow> e)
      | _ \<Rightarrow> [])"

text \<open>
  The event forwarder takes an event from the listeners' channel, drops the record of a dead
  session, and then waits for room in the channel to the writer with the message in hand.
\<close>

definition event_forward :: "bool \<Rightarrow> server \<Rightarrow> server option" where
  "event_forward by_ctx s =
     (if \<not> sv_forwarding s then None
      else if by_ctx
      then (if sv_done s then Some (s\<lparr>sv_forwarding := False, sv_evPending := None\<rparr>) else None)
      else case sv_evPending s of
        Some m \<Rightarrow> map_option (\<lambda>s1. s1\<lparr>sv_evPending := None\<rparr>) (push_out m s)
      | None \<Rightarrow>
          (case n_events (sv_world s) of
             [] \<Rightarrow> None
           | ev # _ \<Rightarrow>
               let msg = server_event_text (n_store (sv_world s)) ev in
               map_option
                 (\<lambda>w. s\<lparr>sv_world := w,
                        sv_evPending := (if msg = [] then None else Some (FrameEvent, msg))\<rparr>)
                 (take_event (sv_world s))))"

section \<open>Serving a session\<close>

definition sv_upd_sess :: "nat \<Rightarrow> (session \<Rightarrow> session) \<Rightarrow> server \<Rightarrow> server" where
  "sv_upd_sess a f s = s\<lparr>sv_world := (sv_world s)\<lparr>n_store := upd_sess a f (n_store (sv_world s))\<rparr>\<rparr>"

definition sv_sess :: "server \<Rightarrow> nat \<Rightarrow> session" where
  "sv_sess s a = sess (n_store (sv_world s)) a"

definition sv_send :: "char \<Rightarrow> string \<Rightarrow> server \<Rightarrow> server" where
  "sv_send typ text s = s\<lparr>sv_pending := sv_pending s @ [(typ, text)]\<rparr>"

definition session_start_payload :: "session \<Rightarrow> int \<Rightarrow> string" where
  "session_start_payload s idx = itoa (s_Port s) @ '':'' @ itoa idx @ '':'' @ s_RemoteAddr s"

definition start_session :: "nat \<Rightarrow> int \<Rightarrow> server \<Rightarrow> server" where
  "start_session a idx s =
     (let s1 = sv_send FrameSessionStart (session_start_payload (sv_sess s a) idx) s;
          s2 = sv_upd_sess a (\<lambda>x. SetState x StateForeground) s1
      in s2\<lparr>sv_pumps := sv_pumps s2 @
              [\<lparr>px_session = a, px_exit = False, px_running = True, px_pending = []\<rparr>],
            sv_mode := SvSession a (length (sv_pumps s2))\<rparr>)"

definition choose_text :: "server \<Rightarrow> int \<Rightarrow> nat list \<Rightarrow> string" where
  "choose_text s port sessions =
     ''  Multiple sessions on port '' @ itoa port @ '' '' @ em_dash @ '' specify an index:'' @ nl
     @ concat (map (\<lambda>(i, a). ''    use '' @ itoa port @ '':'' @ itoa (int i + 1) @ ''  (''
                       @ s_RemoteAddr (sv_sess s a) @ '')'' @ nl) (enumerate 0 sessions))"

definition serveSession :: "env \<Rightarrow> string list \<Rightarrow> server \<Rightarrow> server go" where
  "serveSession E args s =
     (case args of
        [] \<Rightarrow> Ret (sv_send FrameResponse (ui_Errorf E ''usage: use <port>[:<idx>]'') s)
      | a0 # _ \<Rightarrow>
          (case ParsePortIdx a0 of
             Inl err \<Rightarrow> Ret (sv_send FrameResponse (ui_Errorf E err) s)
           | Inr (port, idx) \<Rightarrow>
               let sessions = ByPort (e_ord_sess E) port (n_store (sv_world s)) in
               if sessions = [] then Ret (sv_send FrameResponse (ui_Errorf E (no_conn_err port)) s)
               else if idx = 0
               then (if 1 < length sessions
                     then Ret (sv_send FrameResponse (choose_text s port sessions) s)
                     else (case slice_at sessions 0 of
                             Panic \<Rightarrow> Panic | Ret a \<Rightarrow> Ret (start_session a 1 s)))
               else if int (length sessions) < idx
               then Ret (sv_send FrameResponse
                      (ui_Errorf E (''index '' @ itoa idx @ '' out of range'')) s)
               else (case slice_at sessions (idx - 1) of
                       Panic \<Rightarrow> Panic
                     | Ret a \<Rightarrow> Ret (start_session a idx s))))"

text \<open>Returning from \<open>serveSession\<close>: the deferred function.\<close>

definition end_session :: "nat \<Rightarrow> server \<Rightarrow> server" where
  "end_session a s =
     (let s1 = (if s_state (sv_sess s a) = StateForeground
                then sv_upd_sess a (\<lambda>x. SetState x StateBackground) s else s)
      in s1\<lparr>sv_mode := SvMenu\<rparr>)"

definition set_exit :: "nat \<Rightarrow> server \<Rightarrow> server" where
  "set_exit k s = s\<lparr>sv_pumps := (sv_pumps s)[k := (sv_pumps s ! k)\<lparr>px_exit := True\<rparr>]\<rparr>"

text \<open>
  A turn of the goroutine that pumps a session's bytes to the client. Its \<open>send\<close> gives a
  message up when the context is done. Its wait on the condition variable is the condition
  waited for: \<open>Session_Wait\<close> looks at the wakeups.
\<close>

definition pump_step :: "bool \<Rightarrow> nat \<Rightarrow> server \<Rightarrow> server option" where
  "pump_step by_ctx k s =
     (let p = sv_pumps s ! k; a = px_session p; x = sv_sess s a in
      case px_pending p of
        m # ms \<Rightarrow>
          if by_ctx
          then (if sv_done s then Some (s\<lparr>sv_pumps := (sv_pumps s)[k := p\<lparr>px_pending := ms\<rparr>]\<rparr>) else None)
          else map_option (\<lambda>s1. s1\<lparr>sv_pumps := (sv_pumps s1)[k := p\<lparr>px_pending := ms\<rparr>]\<rparr>) (push_out m s)
      | [] \<Rightarrow>
          if \<not> px_running p \<or> (s_rxBuf x = [] \<and> s_state x \<noteq> StateDead \<and> \<not> px_exit p) then None
          else
            (case DrainRxBuf x of
               (data, x1) \<Rightarrow>
                 let dead = (s_state x = StateDead);
                     msgs = (case data of None \<Rightarrow> [] | Some d \<Rightarrow> [(FrameEvent, d)])
                       @ (if dead
                          then [(FrameEvent, ''[!] Session '' @ itoa (s_ID x) @ '' closed by remote.''),
                                (FrameResponse, ''  Returning to menu.'')]
                          else []);
                     s1 = sv_upd_sess a (\<lambda>_. x1) s
                 in Some (s1\<lparr>sv_pumps := (sv_pumps s1)[k :=
                      p\<lparr>px_pending := msgs, px_running := \<not> (dead \<or> px_exit p)\<rparr>]\<rparr>)))"

text \<open>One line of the client while a session is attached.\<close>

definition session_line :: "env \<Rightarrow> nat \<Rightarrow> nat \<Rightarrow> string \<Rightarrow> server \<Rightarrow> server" where
  "session_line E a k line s =
     (let t = trim_space line in
      if t = ''+back''
      then end_session a (sv_send FrameResponse ''  Returning to menu. Session is still open.'' (set_exit k s))
      else if t = ''+bg'' \<or> t = ''+background''
      then end_session a (sv_send FrameResponse
             (''  Session '' @ itoa (s_ID (sv_sess s a)) @ '' sent to background.'')
             (sv_upd_sess a (\<lambda>x. SetState x StateBackground) (set_exit k s)))
      else if t = ''+exit'' \<or> t = ''exit''
      then end_session a (sv_send FrameResponse ''Bye.'' (set_exit k s))
      else if s_state (sv_sess s a) = StateDead then s
      else if has_prefix line ''!'' \<and> 1 < length line
      then sv_send FrameEvent
             (case executor_Run E (drop 1 line) of
                Inl err \<Rightarrow> ui_Errorf E (''system: '' @ err) | Inr out \<Rightarrow> out) s
      else
        (let res = session_Write (sv_sess s a) (line @ nl) (e_write E);
             s1 = sv_upd_sess a (\<lambda>_. fst res) s
         in case snd (snd res) of
              Some _ \<Rightarrow> sv_upd_sess a (\<lambda>x. SetState x StateDead) s1
            | None \<Rightarrow> s1))"

section \<open>The main loop\<close>

definition special_text :: string where
  "special_text = ''[server] special commands are not supported in server mode''"

definition respond :: "string \<Rightarrow> server \<Rightarrow> server" where
  "respond response s = (if response \<noteq> [] then sv_send FrameResponse response s else s)"

text \<open>\<open>Bye.\<close> is written to the connection directly, not through the channel.\<close>

definition say_bye :: "server \<Rightarrow> server" where
  "say_bye s = endClient (s\<lparr>sv_sent := sv_sent s @ [(FrameResponse, ''Bye.'')]\<rparr>)"

definition menu_line :: "env \<Rightarrow> string \<Rightarrow> server \<Rightarrow> server go" where
  "menu_line E line s =
     (if line = [] then Ret s
      else
        (let c = Parse line False in
         case cmd_kind c of
           CmdEmpty \<Rightarrow> Ret s
         | CmdSystem \<Rightarrow> Ret (respond (RunSystem E (hd (cmd_args c))) s)
         | CmdSpecial \<Rightarrow>
             if cmd_verb c = ''+exit'' \<or> cmd_verb c = ''exit'' then Ret (say_bye s)
             else Ret (respond special_text s)
         | CmdTool \<Rightarrow>
             if cmd_verb c = ''exit'' then Ret (say_bye s)
             else if cmd_verb c = ''use'' then serveSession E (cmd_args c) s
             else (case Dispatch E (sv_ctx s) c (sv_world s) of
                     Panic \<Rightarrow> Panic
                   | Ret (response, w) \<Rightarrow> Ret (respond response (s\<lparr>sv_world := w\<rparr>)))
         | CmdPassthrough \<Rightarrow> Ret s))"

text \<open>
  A turn of the main goroutine: \<open>by_rx\<close> is the choice of the session loop's \<open>select\<close> when
  the pump has finished and a command is waiting as well.
\<close>

definition main_step :: "env \<Rightarrow> bool \<Rightarrow> server \<Rightarrow> server go option" where
  "main_step E by_rx s =
     (if sv_pending s \<noteq> [] then None
      else case sv_mode s of
        SvDone \<Rightarrow> None
      | SvMenu \<Rightarrow>
          (case sv_cmds s of
             line # rest \<Rightarrow> Some (menu_line E line (s\<lparr>sv_cmds := rest\<rparr>))
           | [] \<Rightarrow> if sv_cmds_closed s then Some (Ret (endClient s)) else None)
      | SvSession a k \<Rightarrow>
          if by_rx
          then (if px_running (sv_pumps s ! k) \<or> px_pending (sv_pumps s ! k) \<noteq> [] then None
                else Some (Ret (end_session a s)))
          else (case sv_cmds s of
                  line # rest \<Rightarrow> Some (Ret (session_line E a k line (s\<lparr>sv_cmds := rest\<rparr>)))
                | [] \<Rightarrow> if sv_cmds_closed s then Some (Ret (end_session a (set_exit k s))) else None))"

end
