(* ===== verification/Session_Props.thy ===== *)
theory Session_Props
  imports Session_Mgr
begin

text \<open>
  Properties of sessions and of their manager (\<open>internal/session/session.go\<close>,
  \<open>internal/session/manager.go\<close>).
\<close>

section \<open>One session\<close>


fun answers_ok :: "sess_op \<Rightarrow> bool" where
  "answers_ok (WriteOp d ans) \<longleftrightarrow> writes_ok ans"
| "answers_ok _ \<longleftrightarrow> True"

lemma sess_step_TX:
  "answers_ok x \<Longrightarrow> sess_step s x = (s1, d) \<Longrightarrow>
   \<exists>u. c_out (s_Conn s1) = c_out (s_Conn s) @ u \<and> s_BytesTX s1 = s_BytesTX s + of_nat (length u)"
proof (cases x)
  case (WriteOp e ans)
  assume "answers_ok x" and st: "sess_step s x = (s1, d)"
  then have ok: "writes_ok ans" using WriteOp by simp
  obtain n err where w: "session_Write s e ans = (s1, n, err)"
    using st WriteOp by (cases "session_Write s e ans") auto
  show ?thesis
    using session_Write_count [OF w ok] by (intro exI [of _ "take n e"]) simp
qed (auto simp: session_defs split: prod.splits if_splits)

text \<open>
  The counter of sent bytes counts what the connection took: over any sequence of
  operations the bytes handed to the connection grow by an extension of what was there, and
  the counter by its length (modulo 2^64), short writes and failed writes included.
\<close>

theorem session_TX_accounting:
  assumes "\<forall>x\<in>set xs. answers_ok x"
  shows "\<exists>u. c_out (s_Conn (fst (sess_run s xs))) = c_out (s_Conn s) @ u
    \<and> s_BytesTX (fst (sess_run s xs)) = s_BytesTX s + of_nat (length u)"
  using assms
proof (induction xs arbitrary: s)
  case (Cons x xs)
  obtain s1 d where x: "sess_step s x = (s1, d)" by force
  obtain u where u: "c_out (s_Conn s1) = c_out (s_Conn s) @ u"
      "s_BytesTX s1 = s_BytesTX s + of_nat (length u)"
    using sess_step_TX [OF _ x] Cons.prems by auto
  obtain v where v: "c_out (s_Conn (fst (sess_run s1 xs))) = c_out (s_Conn s1) @ v"
      "s_BytesTX (fst (sess_run s1 xs)) = s_BytesTX s1 + of_nat (length v)"
    using Cons.IH [of s1] Cons.prems by auto
  have "fst (sess_run s (x # xs)) = fst (sess_run s1 xs)"
    by (simp add: x split: prod.split)
  then show ?case using u v by (intro exI [of _ "u @ v"]) simp
qed simp

definition sample_sess :: session where
  "sample_sess = newSession 1 80 (fresh_conn ''peer'') 0"

lemma short_answer_ok: "writes_ok (\<lambda>d. (min 2 (length d), if length d \<le> 2 then None else Some ''short write''))"
  by (auto simp: writes_ok_def)

theorem session_TX_accounting_witness:
  "\<exists>u. c_out (s_Conn (fst (sess_run sample_sess [WriteOp ''abc''
        (\<lambda>d. (min 2 (length d), if length d \<le> 2 then None else Some ''short write'')), CloseOp])))
      = c_out (s_Conn sample_sess) @ u"
  using session_TX_accounting [of "[WriteOp ''abc''
        (\<lambda>d. (min 2 (length d), if length d \<le> 2 then None else Some ''short write'')), CloseOp]" sample_sess]
    short_answer_ok by auto

lemma sess_run_closed:
  "c_closed (s_Conn s) \<Longrightarrow>
   c_closed (s_Conn (fst (sess_run s xs))) \<and> c_out (s_Conn (fst (sess_run s xs))) = c_out (s_Conn s)"
proof (induction xs arbitrary: s)
  case (Cons x xs)
  obtain s1 d where x: "sess_step s x = (s1, d)" by force
  have "c_closed (s_Conn s1) \<and> c_out (s_Conn s1) = c_out (s_Conn s)"
    using sess_step_closed [OF Cons.prems, of x] x by simp
  moreover have "fst (sess_run s (x # xs)) = fst (sess_run s1 xs)"
    by (simp add: x split: prod.split)
  ultimately show ?case using Cons.IH [of s1] by simp
qed simp

text \<open>
  Closing is final for the connection and, but for one operation, for the state. After
  \<open>Close\<close> or \<open>ForceClose\<close> no sequence of operations sends another byte or reopens the
  connection, and the session is dead at the end unless \<open>SetState\<close> was called with a state
  other than dead.
\<close>

theorem session_close_final:
  assumes "t = session_Close s \<or> t = session_ForceClose s"
  shows "c_closed (s_Conn (fst (sess_run t xs)))
    \<and> c_out (s_Conn (fst (sess_run t xs))) = c_out (s_Conn s)
    \<and> ((\<forall>x\<in>set xs. \<not> revives x) \<longrightarrow> s_state (fst (sess_run t xs)) = StateDead)"
proof -
  have "c_closed (s_Conn t)" "c_out (s_Conn t) = c_out (s_Conn s)" "s_state t = StateDead"
    using assms by (auto simp: session_defs)
  then show ?thesis using sess_run_closed sess_run_dead by auto
qed

theorem session_close_final_witness:
  "s_state (fst (sess_run (session_Close sample_sess) [RxData ''late'' 1, Drain, RxError])) = StateDead"
  using session_close_final [of "session_Close sample_sess" sample_sess "[RxData ''late'' 1, Drain, RxError]"]
  by (simp add: revives_def)

section \<open>The manager\<close>

text \<open>
  C25. Accepting a connection refines the insertion of a new session into a map: below
  2^31 - 1 connections the identifier is positive and was not in use, every other session is
  untouched, and the store stays well-formed.
\<close>

theorem Accept_fresh:
  assumes "store_wf st" and "ids_upto st" and "sint (st_counter st) < 2147483647"
    and "mgr_Accept port c now st = (a, st1)"
  shows "s_ID (sess st1 a) = sint (st_counter st) + 1
    \<and> mgr_Get (s_ID (sess st1 a)) st = None
    \<and> mgr_view st1 = (mgr_view st)(s_ID (sess st1 a) \<mapsto> newSession (s_ID (sess st1 a)) port c now)
    \<and> store_wf st1 \<and> ids_upto st1"
proof -
  have st1: "st1 = snd (mgr_Accept port c now st)" using assms(4) by simp
  have sid: "s_ID (sess st1 a) = sint (st_counter st + 1)"
    using assms(4) by (auto simp: mgr_Accept_def Let_def sess_def newSession_def)
  show ?thesis
    unfolding sid
    using mgr_Accept_fresh [OF assms(2,3), of port c now] view_Accept [OF assms(1), of port c now]
      mgr_Accept_wf [OF assms(1), of port c now] sint_Suc [OF assms(3)]
    by (auto simp: st1 mgr_Get_def domIff)
qed

definition sample_store :: store where
  "sample_store = snd (mgr_Accept 80 (fresh_conn ''p1'') 0 (snd (mgr_Accept 80 (fresh_conn ''p0'') 0 NewManager)))"

lemma NewManager_ids: "ids_upto NewManager"
  by (simp add: ids_upto_def NewManager_def)

theorem Accept_fresh_witness:
  "mgr_Get 1 NewManager = None
   \<and> s_ID (sess (snd (mgr_Accept 80 (fresh_conn ''p0'') 0 NewManager)) 0) = 1"
  using Accept_fresh [OF NewManager_wf NewManager_ids, of 80 "fresh_conn ''p0''" 0 0
      "snd (mgr_Accept 80 (fresh_conn ''p0'') 0 NewManager)"]
  by (simp add: mgr_Accept_def NewManager_def Let_def sess_def newSession_def)

text \<open>
  The counter is 32 bits wide: the connection after the 2147483647th gets the negative
  identifier -2147483648, and once the counter has gone round, an accepted connection takes
  the identifier of a session that may still be alive and drops it from the manager's map.
\<close>

theorem Accept_wraps:
  assumes "store_wf st" and "mgr_Get (sint (st_counter st + 1)) st = Some b"
    and "mgr_Accept port c now st = (a, st1)"
  shows "b \<noteq> a \<and> mgr_Get (s_ID (sess st b)) st1 = Some a \<and> sess st1 b = sess st b
    \<and> b \<notin> ran (st_sessions st1)"
proof -
  let ?i = "sint (st_counter st + 1)"
  have b: "b < length (st_heap st)" "s_ID (sess st b) = ?i"
    using store_wfD [OF assms(1), of ?i b] assms(2) by (auto simp: mgr_Get_def)
  have a: "a = length (st_heap st)" "st_sessions st1 = (st_sessions st)(?i \<mapsto> a)"
      "st_heap st1 = st_heap st @ [newSession ?i port c now]"
    using assms(3) by (auto simp: mgr_Accept_def Let_def)
  have "b \<notin> ran (st_sessions st1)"
  proof
    assume "b \<in> ran (st_sessions st1)"
    then obtain sid where "st_sessions st1 sid = Some b" by (auto simp: ran_def)
    then have "sid \<noteq> ?i" "st_sessions st sid = Some b" using a b(1) by (auto split: if_splits)
    with store_wfD [OF assms(1), of sid b] b(2) show False by simp
  qed
  with a b show ?thesis by (auto simp: mgr_Get_def sess_def nth_append)
qed

definition wrapped_store :: store where
  "wrapped_store = \<lparr>st_heap = [newSession 1 80 (fresh_conn ''old'') 0], st_sessions = [1 \<mapsto> 0], st_counter = 0\<rparr>"

theorem Accept_wraps_witness:
  "sint ((2147483647 :: 32 word) + 1) = - 2147483648
   \<and> mgr_Get 1 (snd (mgr_Accept 81 (fresh_conn ''new'') 0 wrapped_store)) = Some 1"
  using Accept_wraps [of wrapped_store 0 81 "fresh_conn ''new''" 0 1
      "snd (mgr_Accept 81 (fresh_conn ''new'') 0 wrapped_store)"]
  by (simp add: wrapped_store_def store_wf_def mgr_Get_def sess_def newSession_def mgr_Accept_def Let_def)

text \<open>
  C24. \<open>CloseAll\<close> closes exactly the live sessions of its port, in whatever order the map is
  ranged over: every other session is unchanged, no session leaves the map, and no live
  session is left on the port.
\<close>

theorem CloseAll_refines:
  assumes "store_wf st" and "enumerates ord (st_sessions st)" and "enumerates ord' (st_sessions st)"
  shows "mgr_view (mgr_CloseAll ord port st) =
      (\<lambda>sid. map_option (\<lambda>s. if live_on port s then session_Close s else s) (mgr_view st sid))
    \<and> ByPort ord' port (mgr_CloseAll ord port st) = []
    \<and> (p' \<noteq> port \<longrightarrow> ByPort ord' p' (mgr_CloseAll ord port st) = ByPort ord' p' st)"
proof -
  have "ByPort ord' port (mgr_CloseAll ord port st) = []"
  proof -
    have "set (ByPort ord' port (mgr_CloseAll ord port st)) = {}"
      using assms by (auto simp: set_ByPort sess_CloseAll live_on_def split: if_splits)
    then show ?thesis by simp
  qed
  moreover have "ByPort ord' p' (mgr_CloseAll ord port st) = ByPort ord' p' st" if "p' \<noteq> port"
  proof -
    have "sess (mgr_CloseAll ord port st) a = sess st a"
      if "s_Port (sess st a) = p' \<or> s_Port (sess (mgr_CloseAll ord port st) a) = p'" for a
      using that \<open>p' \<noteq> port\<close> ByPort_mem [of a ord port st]
      by (auto simp: sess_CloseAll [OF assms(1,2)] live_on_def split: if_splits)
    then have "(s_Port (sess (mgr_CloseAll ord port st) a) = p' \<and> s_state (sess (mgr_CloseAll ord port st) a) \<noteq> StateDead)
        = (s_Port (sess st a) = p' \<and> s_state (sess st a) \<noteq> StateDead)" for a by metis
    then show ?thesis unfolding ByPort_def mgr_CloseAll_sessions by simp
  qed
  ultimately show ?thesis using view_CloseAll [OF assms(1,2)] by simp
qed

lemma sample_store_wf: "store_wf sample_store"
  unfolding sample_store_def by (intro mgr_Accept_wf NewManager_wf)

lemma sample_store_sessions: "st_sessions sample_store = [1 \<mapsto> 0, 2 \<mapsto> 1]"
  by (simp add: sample_store_def mgr_Accept_def NewManager_def Let_def)

lemma sample_store_orders:
  "enumerates [1, 2] (st_sessions sample_store)" "enumerates [2, 1] (st_sessions sample_store)"
  by (auto simp: enumerates_def sample_store_sessions)

theorem CloseAll_refines_witness:
  "ByPort [2, 1] 80 (mgr_CloseAll [1, 2] 80 sample_store) = []"
  using CloseAll_refines [OF sample_store_wf sample_store_orders, where port = 80 and p' = 81] by simp

end
