(* ===== verification/Dispatch_Props.thy ===== *)
theory Dispatch_Props
  imports Dispatcher_Model Listener_Steps Session_Props
begin

text \<open>
  Properties of the command dispatcher (\<open>internal/console/dispatcher.go\<close>): the invariant of
  the world, when a command panics, and what \<open>kill\<close>, \<open>send\<close>, \<open>read\<close> and \<open>list\<close> do.
\<close>

section \<open>The invariant of the world\<close>

definition fctx_ok :: "'a ctxs_scheme \<Rightarrow> fmgr \<Rightarrow> bool" where
  "fctx_ok cs m \<longleftrightarrow> (\<forall>p e. fm_entries m p = Some e \<longrightarrow>
     (\<forall>f. en_fwd e = Some f \<longrightarrow> (\<forall>j\<in>set (f_ctx f). j < cx_next cs)) \<and>
     (\<forall>x. en_proxy e = Some x \<longrightarrow> (\<forall>j\<in>set (p_ctx x). j < cx_next cs)))"

definition ports_ok :: "'a net_scheme \<Rightarrow> bool" where
  "ports_ok w \<longleftrightarrow> (\<forall>p. IsOpen w p \<longrightarrow> 1 \<le> p \<and> p \<le> 65535)"

definition world_inv :: "world \<Rightarrow> bool" where
  "world_inv w \<longleftrightarrow> net_inv w \<and> fm_wf (w_fwd w) \<and> fctx_ok w (w_fwd w) \<and> ports_ok w"

definition ctx_ok :: "ctx \<Rightarrow> 'a ctxs_scheme \<Rightarrow> bool" where
  "ctx_ok c cs \<longleftrightarrow> (\<forall>j\<in>set c. j < cx_next cs)"

text \<open>Changing the store alone.\<close>

definition keeps :: "store \<Rightarrow> store \<Rightarrow> bool" where
  "keeps st st' \<longleftrightarrow> store_wf st' \<and> length (st_heap st') = length (st_heap st)
     \<and> (\<forall>a. s_state (sess st a) = StateDead \<longrightarrow> a < length (st_heap st) \<longrightarrow> s_state (sess st' a) = StateDead)"

lemma keeps_trans: "keeps s t \<Longrightarrow> keeps t u \<Longrightarrow> keeps s u"
  by (simp add: keeps_def)

lemma world_inv_store:
  assumes "world_inv w" and "keeps (n_store w) st"
  shows "world_inv (w\<lparr>n_store := st\<rparr>)"
  using assms
  by (auto simp: world_inv_def keeps_def net_inv_def ctxs_wf_def table_ok_def readers_ok_def lctx_ok_def
      fctx_ok_def ports_ok_def IsOpen_def)

lemma keeps_upd:
  assumes "store_wf st" "\<And>s. s_ID (f s) = s_ID s"
    and "\<And>s. s_state s = StateDead \<Longrightarrow> s_state (f s) = StateDead"
  shows "keeps st (upd_sess a f st)"
proof -
  have "s_state (sess (upd_sess a f st) b) = StateDead"
    if "s_state (sess st b) = StateDead" "b < length (st_heap st)" for b
    using that assms(3) by (cases "b = a") (simp_all add: sess_upd sess_upd_other)
  then show ?thesis using upd_sess_wf [OF assms(1,2)] by (simp add: keeps_def)
qed

lemma keeps_Remove: "store_wf st \<Longrightarrow> keeps st (mgr_Remove sid st)"
  by (simp add: keeps_def mgr_Remove_wf)

lemma keeps_wf: "keeps s t \<Longrightarrow> store_wf t"
  by (simp add: keeps_def)

lemma world_inv_wf: "world_inv w \<Longrightarrow> store_wf (n_store w)"
  by (simp add: world_inv_def net_inv_def)

lemma kill_one_inv: "world_inv w \<Longrightarrow> world_inv (kill_one force a w)"
  unfolding kill_one_def Let_def
  by (intro world_inv_store keeps_trans [OF keeps_upd keeps_Remove] upd_sess_wf world_inv_wf)
     (auto simp: session_defs)

lemma fold_kill_inv: "world_inv w \<Longrightarrow> world_inv (fold (kill_one force) as w)"
  by (induction as arbitrary: w) (simp_all add: kill_one_inv)

lemma kill_one_frame [simp]: "cx_next (kill_one force a w) = cx_next w"
  by (simp add: kill_one_def Let_def)

lemma fold_kill_frame [simp]: "cx_next (fold (kill_one force) as w) = cx_next w"
  by (induction as arbitrary: w) simp_all

lemma write_state: "s_state (fst (session_Write s d ans)) = s_state s"
  by (simp add: session_defs split: prod.split)

lemma read_state: "s_state (snd (ReadBuffered s)) = s_state s"
  by (simp add: session_defs)

section \<open>The handlers keep it\<close>

text \<open>What every handler guarantees of the world it returns.\<close>

definition good :: "world \<Rightarrow> world \<Rightarrow> bool" where
  "good w w' \<longleftrightarrow> world_inv w' \<and> cx_next w \<le> cx_next w'"

lemma good_refl: "world_inv w \<Longrightarrow> good w w"
  by (simp add: good_def)

lemma good_store: "world_inv w \<Longrightarrow> keeps (n_store w) st \<Longrightarrow> good w (w\<lparr>n_store := st\<rparr>)"
  by (simp add: good_def world_inv_store)

lemma lm_Open_fwd: "lm_Open (E, ctx, host) port w = Inr w1 \<Longrightarrow> w_fwd w1 = w_fwd w \<and> cx_next w1 = Suc (cx_next w)"
  by (auto simp: lm_Open_def Start_def with_cancel_def Let_def split: sum.splits option.splits if_splits)

lemma lm_Close_fwd: "lm_Close E port w = Inr w1 \<Longrightarrow> w_fwd w1 = w_fwd w \<and> cx_next w1 = cx_next w"
proof -
  assume "lm_Close E port w = Inr w1"
  then obtain l where "w1 = listener_Close l (w\<lparr>n_store := mgr_CloseAll (e_ord_sess E) port (n_store w)\<rparr>)
      \<lparr>n_listeners := (n_listeners w)(port := None)\<rparr>" by (auto simp: lm_Close_Inr)
  then show ?thesis
    by (cases "l_ctx (n_lheap w ! l)") (simp_all add: listener_Close_def upd_lsn_def cancel_def)
qed

lemma fctx_ok_mono: "fctx_ok cs m \<Longrightarrow> cx_next cs \<le> cx_next cs1 \<Longrightarrow> fctx_ok cs1 m"
  by (fastforce simp: fctx_ok_def)

lemma doOpen_good:
  assumes "world_inv w" "ctx_ok ctx w" "doOpen E ctx args w = Ret (out, w')"
  shows "good w w'"
proof (cases "w' = w")
  case False
  then obtain port host where op: "lm_Open (E, ctx, host) port w = Inr w'" and "1 \<le> port" "port \<le> 65535"
    using assms(3) by (auto simp: doOpen_def split: list.splits option.splits sum.splits if_splits)
  moreover have "net_inv w'"
    using lm_Open_inv [OF _ op] assms by (simp add: world_inv_def ctx_ok_def)
  ultimately show ?thesis
    using assms(1) lm_Open_fwd [OF op] lt.open_adds [OF op] fctx_ok_mono [of w "w_fwd w" w']
    by (auto simp: good_def world_inv_def ports_ok_def)
qed (use assms good_refl in simp)

lemma lm_Close_good:
  assumes "world_inv w" "enumerates (e_ord_sess E) (st_sessions (n_store w))" and cl: "lm_Close E port w = Inr w'"
  shows "good w w'"
proof -
  have "net_inv w'" using lm_Close_inv [OF _ assms(2) cl] assms(1) by (simp add: world_inv_def)
  with cl show ?thesis
    using assms(1) lm_Close_fwd [OF cl] lt.close_result [OF cl] fctx_ok_mono [of w "w_fwd w" w']
    by (auto simp: good_def world_inv_def ports_ok_def)
qed

lemma doClose_good:
  assumes "world_inv w" "enumerates (e_ord_sess E) (st_sessions (n_store w))"
    and "doClose E ctx args w = Ret (out, w')"
  shows "good w w'"
  using assms(3) lm_Close_good [OF assms(1,2)] good_refl [OF assms(1)]
  by (auto simp: doClose_def split: list.splits option.splits sum.splits)

lemma doKill_good:
  assumes "world_inv w" "doKill E ctx args w = Ret (out, w')"
  shows "good w w'"
  using assms
  by (auto simp: doKill_def Let_def kill_targets_def good_def fold_kill_inv kill_one_inv
      split: list.splits sum.splits if_splits go.splits)

text \<open>The manager of the forwards works on the contexts of the world and on its own table.\<close>

lemma world_inv_fwd:
  assumes "world_inv w" and "fm_wf m" and "ctxs_wf (w\<lparr>cx_next := k, cx_cancelled := cc\<rparr>)"
    and "fctx_ok (w\<lparr>cx_next := k, cx_cancelled := cc\<rparr>) m" and "cx_next w \<le> k"
  shows "good w (w\<lparr>cx_next := k, cx_cancelled := cc, w_fwd := m\<rparr>)"
proof -
  let ?w = "w\<lparr>cx_next := k, cx_cancelled := cc, w_fwd := m\<rparr>"
  have "lctx_ok w" "table_ok w" "readers_ok w" "ports_ok w"
    using assms(1) by (simp_all add: world_inv_def net_inv_def)
  then have "lctx_ok ?w" "table_ok ?w" "readers_ok ?w" "ports_ok ?w"
    using assms(5)
    by (fastforce simp: lctx_ok_def, simp_all add: table_ok_def readers_ok_def ports_ok_def IsOpen_def)
  then show ?thesis
    using assms by (simp add: good_def world_inv_def net_inv_def ctxs_wf_def fctx_ok_def)
qed

lemma fctx_ok_put:
  assumes "fctx_ok cs m" "cx_next cs \<le> cx_next cs1"
    and "\<forall>f. en_fwd e = Some f \<longrightarrow> (\<forall>j\<in>set (f_ctx f). j < cx_next cs1)"
    and "\<forall>x. en_proxy e = Some x \<longrightarrow> (\<forall>j\<in>set (p_ctx x). j < cx_next cs1)"
  shows "fctx_ok cs1 (m\<lparr>fm_entries := (fm_entries m)(p \<mapsto> e)\<rparr>)"
  using assms(3,4) fctx_ok_mono [OF assms(1,2)] by (simp add: fctx_ok_def)

lemma fm_Open_good:
  assumes inv: "world_inv w" and ctx: "ctx_ok ctx w"
    and op: "fm_Open (E, ctx, host, rport) p (w, w_fwd w) = Inr (w1, m)"
  shows "good w (w1\<lparr>w_fwd := m\<rparr>)"
proof -
  have wf: "fm_wf m" using fm_Open_wf [OF _ op] inv by (simp add: world_inv_def)
  have w1: "w1 = w\<lparr>cx_next := Suc (cx_next w), cx_cancelled := cx_cancelled w\<rparr>"
    using op by (auto simp: fm_Open_Inr)
  obtain e where m: "m = (w_fwd w)\<lparr>fm_entries := (fm_entries (w_fwd w))(p \<mapsto> e)\<rparr>"
    and e: "\<forall>f. en_fwd e = Some f \<longrightarrow> f_ctx f = cx_next w # ctx" "en_proxy e = None"
    using op by (auto simp: fm_Open_Inr Let_def)
  have "fctx_ok w1 m"
    unfolding m w1 by (rule fctx_ok_put [of w]) (use inv ctx e in \<open>auto simp: world_inv_def ctx_ok_def\<close>)
  moreover have "ctxs_wf w1" using inv by (auto simp: w1 world_inv_def net_inv_def ctxs_wf_def)
  ultimately show ?thesis using world_inv_fwd [OF inv wf, where k = "Suc (cx_next w)" and cc = "cx_cancelled w"] unfolding w1 by simp
qed

lemma fm_OpenProxy_good:
  assumes inv: "world_inv w" and ctx: "ctx_ok ctx w"
    and op: "fm_OpenProxy (E, ctx, host, rport, lf) p (w, w_fwd w) = Inr (w1, m)"
  shows "good w (w1\<lparr>w_fwd := m\<rparr>)"
proof -
  have wf: "fm_wf m" using fm_OpenProxy_wf [OF _ op] inv by (simp add: world_inv_def)
  have w1: "w1 = w\<lparr>cx_next := Suc (cx_next w), cx_cancelled := cx_cancelled w\<rparr>"
    using op by (auto simp: fm_OpenProxy_Inr)
  obtain e where m: "m = (w_fwd w)\<lparr>fm_entries := (fm_entries (w_fwd w))(p \<mapsto> e)\<rparr>"
    and e: "\<forall>x. en_proxy e = Some x \<longrightarrow> p_ctx x = cx_next w # ctx" "en_fwd e = None"
    using op by (auto simp: fm_OpenProxy_Inr Let_def)
  have "fctx_ok w1 m"
    unfolding m w1 by (rule fctx_ok_put [of w]) (use inv ctx e in \<open>auto simp: world_inv_def ctx_ok_def\<close>)
  moreover have "ctxs_wf w1" using inv by (auto simp: w1 world_inv_def net_inv_def ctxs_wf_def)
  ultimately show ?thesis using world_inv_fwd [OF inv wf, where k = "Suc (cx_next w)" and cc = "cx_cancelled w"] unfolding w1 by simp
qed

lemma cancel_as_update:
  "\<forall>j\<in>set c. j < cx_next cs \<Longrightarrow> \<exists>cc. cancel c cs = cs\<lparr>cx_cancelled := cc\<rparr>
     \<and> (ctxs_wf cs \<longrightarrow> (\<forall>i\<in>set cc. i < cx_next cs))"
proof (cases c)
  case Nil
  then show ?thesis by (intro exI [of _ "cx_cancelled cs"]) (simp add: cancel_def ctxs_wf_def)
next
  case (Cons i c')
  assume "\<forall>j\<in>set c. j < cx_next cs"
  with Cons show ?thesis
    by (intro exI [of _ "i # cx_cancelled cs"]) (simp add: cancel_def ctxs_wf_def)
qed

lemma entry_Close_update:
  assumes "entry_ok p e" and "ctxs_wf cs"
    and "\<forall>f. en_fwd e = Some f \<longrightarrow> (\<forall>j\<in>set (f_ctx f). j < cx_next cs)"
    and "\<forall>x. en_proxy e = Some x \<longrightarrow> (\<forall>j\<in>set (p_ctx x). j < cx_next cs)"
  shows "\<exists>cc. entry_Close e cs = cs\<lparr>cx_cancelled := cc\<rparr> \<and> (\<forall>i\<in>set cc. i < cx_next cs)"
proof (cases "en_fwd e")
  case None
  then obtain x where "en_proxy e = Some x" using assms(1) by (auto simp: entry_ok_def)
  then show ?thesis
    using None cancel_as_update [of "p_ctx x" cs] assms by (auto simp: entry_Close_def Let_def proxy_Close_def)
next
  case (Some f)
  then have "en_proxy e = None" using assms(1) by (auto simp: entry_ok_def)
  then show ?thesis
    using Some cancel_as_update [of "f_ctx f" cs] assms
    by (auto simp: entry_Close_def Let_def forwarder_Close_def)
qed

lemma fm_Close_good:
  assumes inv: "world_inv w" and cl: "fm_Close () p (w, w_fwd w) = Inr (w1, m)"
  shows "good w (w1\<lparr>w_fwd := m\<rparr>)"
proof -
  obtain e where e: "fm_entries (w_fwd w) p = Some e" and w1: "w1 = entry_Close e w"
    and m: "m = (w_fwd w)\<lparr>fm_entries := (fm_entries (w_fwd w))(p := None)\<rparr>"
    using cl by (auto simp: fm_Close_Inr)
  have ok: "entry_ok p e" using fm_wfD [OF _ e] inv by (simp add: world_inv_def)
  have cw: "ctxs_wf w" using inv by (simp add: world_inv_def net_inv_def)
  have fc: "fctx_ok w (w_fwd w)" using inv by (simp add: world_inv_def)
  obtain cc where cc: "entry_Close e w = w\<lparr>cx_cancelled := cc\<rparr>" "\<forall>i\<in>set cc. i < cx_next w"
    using entry_Close_update [OF ok cw] fc e unfolding fctx_ok_def by blast
  have "good w (w\<lparr>cx_next := cx_next w, cx_cancelled := cc, w_fwd := m\<rparr>)"
  proof (rule world_inv_fwd [OF inv])
    show "fm_wf m" using fm_Close_wf [OF _ cl] inv by (simp add: world_inv_def)
    show "fctx_ok (w\<lparr>cx_next := cx_next w, cx_cancelled := cc\<rparr>) m"
      using fc by (simp add: m fctx_ok_def)
  qed (use cc in \<open>simp_all add: ctxs_wf_def\<close>)
  then show ?thesis by (simp add: w1 cc)
qed

lemma fm_SetLogFile_good:
  assumes inv: "world_inv w" and st: "fm_SetLogFile E p path (w_fwd w) = Inr m"
  shows "good w (w\<lparr>w_fwd := m\<rparr>)"
proof -
  have wf: "fm_wf m" using fm_SetLogFile_wf [OF _ st] inv by (simp add: world_inv_def)
  obtain e x d where e: "fm_entries (w_fwd w) p = Some e" "en_proxy e = Some x"
    and m: "m = (w_fwd w)\<lparr>fm_entries := (fm_entries (w_fwd w))(p \<mapsto>
        e\<lparr>en_proxy := Some (x\<lparr>p_logOut := d\<rparr>)\<rparr>)\<rparr>"
    using st by (auto simp: fm_SetLogFile_Inr)
  have fc: "fctx_ok w (w_fwd w)" and cw: "ctxs_wf w"
    using inv by (simp_all add: world_inv_def net_inv_def)
  have "fctx_ok w m"
    unfolding m
    by (rule fctx_ok_put [OF fc]) (use fc [unfolded fctx_ok_def, rule_format, OF e(1)] e(2) in simp_all)
  then have "good w (w\<lparr>cx_next := cx_next w, cx_cancelled := cx_cancelled w, w_fwd := m\<rparr>)"
    by (intro world_inv_fwd [OF inv wf]) (use cw in simp_all)
  then show ?thesis by simp
qed

lemma fwd_close_good:
  assumes "world_inv w" "fwd_close u what E ctx args w = Ret (out, w')"
  shows "good w w'"
  using assms fm_Close_good [OF assms(1)] good_refl [OF assms(1)]
  by (auto simp: fwd_close_def split: list.splits option.splits sum.splits)

lemma proxy_log_good:
  assumes "world_inv w" "proxy_log E ctx args w = Ret (out, w')"
  shows "good w w'"
  using assms fm_SetLogFile_good [OF assms(1)] good_refl [OF assms(1)]
  by (auto simp: proxy_log_def split: list.splits option.splits sum.splits)

lemma doFwd_good:
  assumes "world_inv w" "ctx_ok ctx w" "doFwd E ctx args w = Ret (out, w')"
  shows "good w w'"
  using assms(3) fm_Open_good [OF assms(1,2)] good_refl [OF assms(1)] fwd_close_good [OF assms(1)]
  by (auto simp: doFwd_def split: list.splits option.splits sum.splits prod.splits if_splits)

lemma doProxy_good:
  assumes "world_inv w" "ctx_ok ctx w" "doProxy E ctx args w = Ret (out, w')"
  shows "good w w'"
  using assms(3) fm_OpenProxy_good [OF assms(1,2)] good_refl [OF assms(1)] fwd_close_good [OF assms(1)]
    proxy_log_good [OF assms(1)]
  by (auto simp: doProxy_def Let_def split: list.splits option.splits sum.splits prod.splits if_splits)

lemma doSend_good:
  assumes "world_inv w" "doSend E ctx args w = Ret (out, w')"
  shows "good w w'"
proof (cases "w' = w")
  case False
  then obtain a d where w': "w' = w\<lparr>n_store := upd_sess a
      (\<lambda>_. fst (session_Write (sess (n_store w) a) d (e_write E))) (n_store w)\<rparr>"
    using assms(2)
    by (auto simp: doSend_def Let_def split: list.splits sum.splits option.splits if_splits go.splits)
  have "upd_sess a (\<lambda>_. fst (session_Write (sess (n_store w) a) d (e_write E))) (n_store w)
      = upd_sess a (\<lambda>s. fst (session_Write s d (e_write E))) (n_store w)"
    by (simp add: upd_sess_def)
  then show ?thesis
    unfolding w' by (simp, intro good_store keeps_upd world_inv_wf assms) (simp_all add: write_state)
qed (use assms good_refl in simp)

lemma upd_read: "upd_sess a (\<lambda>_. snd (ReadBuffered (sess st a))) st = upd_sess a (\<lambda>s. snd (ReadBuffered s)) st"
  by (simp add: upd_sess_def)

lemma doRead_good:
  assumes "world_inv w" "doRead E ctx args w = Ret (out, w')"
  shows "good w w'"
proof (cases "w' = w")
  case False
  then obtain a where w': "w' = w\<lparr>n_store := upd_sess a
      (\<lambda>_. snd (ReadBuffered (sess (n_store w) a))) (n_store w)\<rparr>"
    using assms(2)
    by (auto simp: doRead_def Let_def split: list.splits sum.splits option.splits if_splits go.splits prod.splits)
       (metis snd_conv)+
  show ?thesis
    unfolding w' upd_read
    by (intro good_store keeps_upd world_inv_wf assms) (simp_all add: read_state)
qed (use assms good_refl in simp)

lemma Dispatch_other:
  assumes "Dispatch E ctx c w = Ret (out, w')"
    and "cmd_verb c \<notin> {''open'', ''close'', ''kill'', ''fwd'', ''proxy'', ''send'', ''read''}"
  shows "w' = w"
  using assms
  by (auto simp: Dispatch_def doList_def doInfo_def doLog_def doHelp_def Let_def
      split: if_splits list.splits sum.splits go.splits)

lemma Dispatch_good:
  assumes "world_inv w" and "enumerates (e_ord_sess E) (st_sessions (n_store w))" and "ctx_ok ctx w"
    and "Dispatch E ctx c w = Ret (out, w')"
  shows "good w w'"
proof (cases "cmd_verb c \<in> {''open'', ''close'', ''kill'', ''fwd'', ''proxy'', ''send'', ''read''}")
  case True
  then show ?thesis
    using assms doOpen_good [OF assms(1,3)] doClose_good [OF assms(1,2)] doKill_good [OF assms(1)]
      doFwd_good [OF assms(1,3)] doProxy_good [OF assms(1,3)] doSend_good [OF assms(1)] doRead_good [OF assms(1)]
    by (auto simp: Dispatch_def Let_def)
next
  case False
  then show ?thesis using Dispatch_other [OF assms(4)] good_refl [OF assms(1)] by simp
qed


text \<open>Two worlds for the witnesses: nothing open, and two connections on port 80.\<close>

definition empty_world :: world where
  "empty_world = net.extend net_init \<lparr>w_fwd = fm_NewManager 10\<rparr>"

definition busy_world :: world where
  "busy_world = empty_world\<lparr>n_store := sample_store, n_rx := [0, 1]\<rparr>"

definition env12 :: env where "env12 = plain_env\<lparr>e_ord_sess := [1, 2]\<rparr>"
definition env21 :: env where "env21 = plain_env\<lparr>e_ord_sess := [2, 1]\<rparr>"

lemma empty_world_inv: "world_inv empty_world"
  by (simp add: world_inv_def empty_world_def net.extend_def net_init_def net_inv_def ctxs_wf_def
      table_ok_def readers_ok_def lctx_ok_def fctx_ok_def ports_ok_def IsOpen_def fm_NewManager_wf
      NewManager_wf)
     (simp add: NewManager_def fm_NewManager_def)

lemma sample_sess_0: "sess sample_store 0 = newSession 1 80 (fresh_conn ''p0'') 0"
  and sample_sess_1: "sess sample_store (Suc 0) = newSession 2 80 (fresh_conn ''p1'') 0"
  and sample_heap: "length (st_heap sample_store) = 2"
  by (simp_all add: sample_store_def mgr_Accept_def NewManager_def Let_def sess_def)

lemma busy_store: "n_store busy_world = sample_store"
  by (simp add: busy_world_def)

lemma busy_orders:
  "enumerates (e_ord_sess env12) (st_sessions (n_store busy_world))"
  "enumerates (e_ord_sess env21) (st_sessions (n_store busy_world))"
  using sample_store_orders by (simp_all add: busy_store env12_def env21_def)

lemma busy_world_inv: "world_inv busy_world"
proof -
  have "a = 0 \<or> a = Suc 0" if "a < length (st_heap sample_store)" for a
    using that by (auto simp: sample_heap)
  with empty_world_inv sample_store_wf show ?thesis
    by (auto simp: world_inv_def busy_world_def net_inv_def ctxs_wf_def table_ok_def readers_ok_def
        lctx_ok_def fctx_ok_def ports_ok_def IsOpen_def)
qed

lemma busy_ByPort:
  "ByPort (e_ord_sess env12) 80 (n_store busy_world) = [0, 1]"
  "ByPort (e_ord_sess env21) 80 (n_store busy_world) = [1, 0]"
  by (simp_all add: ByPort_def env12_def env21_def busy_store sample_store_sessions sample_sess_0
      sample_sess_1 newSession_def)

lemma sample_parse:
  "ParsePortIdx ''80:-1'' = Inr (80, - 1)" "ParsePortIdx ''80:1'' = Inr (80, 1)" "ParsePortIdx ''80'' = Inr (80, 0)"
  by code_simp+


section \<open>Panics\<close>

text \<open>The argument that names a session, for the commands that index without a lower bound.\<close>

definition indexed_target :: "cmd \<Rightarrow> string option" where
  "indexed_target c =
     (let args = cmd_args c in
      if cmd_verb c = ''kill''
      then (case filter (\<lambda>a. a \<noteq> ''-f'') args of [] \<Rightarrow> None | a # _ \<Rightarrow> Some a)
      else if cmd_verb c = ''send'' then (case args of a # _ # _ \<Rightarrow> Some a | _ \<Rightarrow> None)
      else if cmd_verb c = ''read'' then (case args of a # _ \<Rightarrow> Some a | _ \<Rightarrow> None)
      else None)"

lemma slice_at_in: "0 \<le> i \<Longrightarrow> i < int (length xs) \<Longrightarrow> slice_at xs i = Ret (xs ! nat i)"
  by (simp add: slice_at_def)

lemma ui_returns: "Ret x \<noteq> Panic" by simp

lemma doKill_panic:
  "doKill E ctx args w = Panic \<longleftrightarrow>
   (\<exists>a rest p i. filter (\<lambda>a. a \<noteq> ''-f'') args = a # rest \<and> ParsePortIdx a = Inr (p, i) \<and> i < 0
      \<and> ByPort (e_ord_sess E) p (n_store w) \<noteq> [])"
  by (auto simp: doKill_def Let_def slice_at_Panic slice_at_Ret split: list.splits sum.splits go.splits)

lemma doSend_panic:
  "doSend E ctx args w = Panic \<longleftrightarrow>
   (\<exists>a b rest p i. args = a # b # rest \<and> ParsePortIdx a = Inr (p, i) \<and> i < 0
      \<and> ByPort (e_ord_sess E) p (n_store w) \<noteq> [])"
  by (auto simp: doSend_def Let_def slice_at_Panic slice_at_Ret split: list.splits sum.splits go.splits option.splits)

lemma doRead_panic:
  "doRead E ctx args w = Panic \<longleftrightarrow>
   (\<exists>a rest p i. args = a # rest \<and> ParsePortIdx a = Inr (p, i) \<and> i < 0
      \<and> ByPort (e_ord_sess E) p (n_store w) \<noteq> [])"
  by (auto simp: doRead_def Let_def slice_at_Panic slice_at_Ret split: list.splits sum.splits go.splits option.splits
      prod.splits)

lemma other_panic:
  "doOpen E ctx args w \<noteq> Panic" "doClose E ctx args w \<noteq> Panic" "doList E ctx args w \<noteq> Panic"
  "doInfo E ctx args w \<noteq> Panic" "doLog E ctx args w \<noteq> Panic" "doFwd E ctx args w \<noteq> Panic"
  "doProxy E ctx args w \<noteq> Panic" "doHelp E ctx args w \<noteq> Panic"
  by (auto simp: doOpen_def doClose_def doList_def doInfo_def doLog_def doFwd_def doProxy_def doHelp_def
      fwd_close_def proxy_log_def Let_def slice_at_Panic slice_at_Ret split: list.splits sum.splits go.splits option.splits
      prod.splits)

text \<open>
  A command panics, and takes the whole program down with it, exactly when it is \<open>kill\<close>,
  \<open>send\<close> or \<open>read\<close> with a negative index on a port that has a live connection: the code
  checks the index against the number of connections, but not against zero. Every other
  command, and every other argument, returns.
\<close>

theorem Dispatch_panic_iff:
  "Dispatch E ctx c w = Panic \<longleftrightarrow>
   (\<exists>a port idx. indexed_target c = Some a \<and> ParsePortIdx a = Inr (port, idx) \<and> idx < 0
      \<and> ByPort (e_ord_sess E) port (n_store w) \<noteq> [])"
proof -
  consider "cmd_verb c = ''kill''" | "cmd_verb c = ''send''" | "cmd_verb c = ''read''"
    | "cmd_verb c \<notin> {''kill'', ''send'', ''read''}" by blast
  then show ?thesis
  proof cases
    case 1
    then show ?thesis
      by (auto simp: Dispatch_def Let_def doKill_panic indexed_target_def split: list.splits)
  next
    case 2
    then show ?thesis
      by (auto simp: Dispatch_def Let_def doSend_panic indexed_target_def split: list.splits)
  next
    case 3
    then show ?thesis
      by (auto simp: Dispatch_def Let_def doRead_panic indexed_target_def split: list.splits)
  next
    case 4
    then show ?thesis by (auto simp: Dispatch_def Let_def other_panic indexed_target_def)
  qed
qed

text \<open>
  The commands that only report (\<open>list\<close>, \<open>info\<close>, \<open>log\<close>, \<open>help\<close>, \<open>clear\<close> and every
  unknown verb) change nothing at all.
\<close>

theorem Dispatch_reports:
  assumes "cmd_verb c \<notin> {''open'', ''close'', ''kill'', ''fwd'', ''proxy'', ''send'', ''read''}"
  shows "\<exists>out. Dispatch E ctx c w = Ret (out, w)"
proof (cases "Dispatch E ctx c w")
  case (Ret r)
  then show ?thesis using Dispatch_other [of E ctx c w "fst r" "snd r"] assms by (cases r) auto
next
  case Panic
  with assms show ?thesis by (simp add: Dispatch_def Let_def other_panic split: if_splits)
qed

theorem Dispatch_reports_witness:
  "\<exists>out. Dispatch env12 [] \<lparr>cmd_kind = CmdTool, cmd_verb = ''info'', cmd_args = [''80:-1''], cmd_raw = []\<rparr>
     busy_world = Ret (out, busy_world)"
  by (rule Dispatch_reports) simp

section \<open>Killing connections\<close>

lemma kill_store:
  "n_store (kill_one force a w) = mgr_Remove (s_ID (sess (n_store w) a))
     (upd_sess a (if force then session_ForceClose else session_Close) (n_store w))"
proof -
  have "s_ID (sess (upd_sess a f (n_store w)) a) = s_ID (sess (n_store w) a)"
    if "\<And>s. s_ID (f s) = s_ID s" for f
    using that
    by (cases "a < length (st_heap (n_store w))") (simp_all add: sess_upd, simp add: sess_def upd_sess_def list_update_beyond)
  then show ?thesis by (simp add: kill_one_def Let_def)
qed

lemma kill_fold:
  assumes "store_wf (n_store w)" and "distinct as"
    and "\<forall>a\<in>set as. st_sessions (n_store w) (s_ID (sess (n_store w) a)) = Some a"
  shows "(\<forall>b. sess (n_store (fold (kill_one force) as w)) b =
       (if b \<in> set as then (if force then session_ForceClose else session_Close) (sess (n_store w) b)
        else sess (n_store w) b))
    \<and> (\<forall>sid. st_sessions (n_store (fold (kill_one force) as w)) sid =
       (if \<exists>a\<in>set as. s_ID (sess (n_store w) a) = sid then None else st_sessions (n_store w) sid))"
  using assms
proof (induction as arbitrary: w)
  case (Cons a as)
  let ?f = "if force then session_ForceClose else session_Close"
  let ?w1 = "kill_one force a w"
  have at: "st_sessions (n_store w) (s_ID (sess (n_store w) a)) = Some a" using Cons.prems(3) by simp
  then have a: "a < length (st_heap (n_store w))" using store_wfD [OF Cons.prems(1)] by blast
  have se: "sess (n_store ?w1) b = (if b = a then ?f (sess (n_store w) a) else sess (n_store w) b)" for b
    using a by (simp add: kill_store sess_upd)
  have ma: "st_sessions (n_store ?w1) = (st_sessions (n_store w))(s_ID (sess (n_store w) a) := None)"
    by (simp add: kill_store)
  have wf: "store_wf (n_store ?w1)"
    unfolding kill_store by (intro mgr_Remove_wf upd_sess_wf Cons.prems(1)) simp
  have id_ne: "s_ID (sess (n_store w) b) \<noteq> s_ID (sess (n_store w) a)" if "b \<in> set as" for b
  proof
    assume eq: "s_ID (sess (n_store w) b) = s_ID (sess (n_store w) a)"
    have "st_sessions (n_store w) (s_ID (sess (n_store w) b)) = Some b" using Cons.prems(3) that by (meson list.set_intros(2))
    then have "Some a = Some b" unfolding eq by (rule trans [OF at [symmetric]])
    with that Cons.prems(2) show False by simp
  qed
  have ne: "b \<noteq> a" if "b \<in> set as" for b using that Cons.prems(2) by auto
  have own: "\<forall>b\<in>set as. st_sessions (n_store ?w1) (s_ID (sess (n_store ?w1) b)) = Some b"
  proof
    fix b
    assume b: "b \<in> set as"
    have "st_sessions (n_store w) (s_ID (sess (n_store w) b)) = Some b" using Cons.prems(3) b by (meson list.set_intros(2))
    then show "st_sessions (n_store ?w1) (s_ID (sess (n_store ?w1) b)) = Some b"
      unfolding se ma using ne [OF b] id_ne [OF b] by simp
  qed
  have dis: "distinct as" "a \<notin> set as" using Cons.prems(2) by simp_all
  have same: "sess (n_store ?w1) b = sess (n_store w) b" if "b \<in> set as" for b
    unfolding se using ne [OF that] by simp
  note IH = Cons.IH [OF wf dis(1) own]
  have fold: "fold (kill_one force) (a # as) w = fold (kill_one force) as ?w1" by simp
  have "sess (n_store (fold (kill_one force) (a # as) w)) b =
      (if b \<in> set (a # as) then ?f (sess (n_store w) b) else sess (n_store w) b)" for b
    unfolding fold IH [THEN conjunct1, rule_format, of b] se using dis(2) by auto
  moreover have "st_sessions (n_store (fold (kill_one force) (a # as) w)) sid =
      (if \<exists>a\<in>set (a # as). s_ID (sess (n_store w) a) = sid then None else st_sessions (n_store w) sid)" for sid
  proof -
    have "(\<exists>b\<in>set as. s_ID (sess (n_store ?w1) b) = sid) = (\<exists>b\<in>set as. s_ID (sess (n_store w) b) = sid)"
      using same by simp
    then show ?thesis unfolding fold IH [THEN conjunct2, rule_format, of sid] ma by simp
  qed
  ultimately show ?case by blast
qed simp

text \<open>
  C16. \<open>kill\<close> of a port without an index: every live session of the port, and no other, is
  closed (with a reset under \<open>-f\<close>, with a FIN otherwise) and leaves the manager; the abstract
  map loses exactly the sessions that were live on the port, in any order of the map.
\<close>

theorem kill_port:
  assumes "store_wf (n_store w)" and "enumerates (e_ord_sess E) (st_sessions (n_store w))"
    and "ParsePortIdx a0 = Inr (port, 0)" and "a0 \<noteq> ''-f''"
    and "ByPort (e_ord_sess E) port (n_store w) \<noteq> []"
  shows "\<exists>out w'. doKill E ctx (if force then [''-f'', a0] else [a0]) w = Ret (out, w')
    \<and> mgr_view (n_store w') =
        (\<lambda>sid. case mgr_view (n_store w) sid of
           None \<Rightarrow> None | Some s \<Rightarrow> if live_on port s then None else Some s)
    \<and> (\<forall>b. sess (n_store w') b =
        (if b \<in> set (ByPort (e_ord_sess E) port (n_store w))
         then (if force then session_ForceClose else session_Close) (sess (n_store w) b)
         else sess (n_store w) b))"
proof -
  let ?st = "n_store w" and ?as = "ByPort (e_ord_sess E) port (n_store w)"
  let ?w' = "fold (kill_one force) ?as w"
  have own: "\<forall>a\<in>set ?as. st_sessions ?st (s_ID (sess ?st a)) = Some a"
    using ByPort_mem store_wfD [OF assms(1)] by metis
  note k = kill_fold [OF assms(1) distinct_ByPort [OF assms(1,2)] own, of force]
  have kv: "sess (n_store ?w') b = (if b \<in> set ?as then (if force then session_ForceClose else session_Close) (sess ?st b)
        else sess ?st b)" for b using k by blast
  have km: "st_sessions (n_store ?w') sid =
      (if \<exists>a\<in>set ?as. s_ID (sess ?st a) = sid then None else st_sessions ?st sid)" for sid using k by blast
  have view: "mgr_view (n_store ?w') sid =
        (case mgr_view ?st sid of None \<Rightarrow> None | Some s \<Rightarrow> if live_on port s then None else Some s)" for sid
  proof (cases "st_sessions ?st sid")
    case None
    then show ?thesis by (auto simp: mgr_view_def km)
  next
    case (Some b)
    have sid: "s_ID (sess ?st b) = sid" using store_wfD [OF assms(1) Some] by simp
    have "b \<in> set ?as \<longleftrightarrow> live_on port (sess ?st b)"
      using Some by (auto simp: set_ByPort [OF assms(2)])
    moreover have "(\<exists>a\<in>set ?as. s_ID (sess ?st a) = sid) \<longleftrightarrow> b \<in> set ?as"
    proof
      assume "\<exists>a\<in>set ?as. s_ID (sess ?st a) = sid"
      then obtain a where a: "a \<in> set ?as" "s_ID (sess ?st a) = sid" by blast
      then have "st_sessions ?st sid = Some a" using own by blast
      with Some a(1) show "b \<in> set ?as" by simp
    next
      assume "b \<in> set ?as"
      with sid show "\<exists>a\<in>set ?as. s_ID (sess ?st a) = sid" by blast
    qed
    ultimately show ?thesis using Some by (simp add: mgr_view_def km kv)
  qed
  have "doKill E ctx (if force then [''-f'', a0] else [a0]) w = Ret (fst (kill_targets force port ?as E w), ?w')"
    using assms(3-5) by (simp add: doKill_def Let_def kill_targets_def)
  then show ?thesis using view kv by blast
qed

theorem kill_port_witness:
  "\<exists>out w'. doKill env12 [] [''-f'', ''80''] busy_world = Ret (out, w') \<and> mgr_view (n_store w') = Map.empty"
proof -
  have live: "live_on 80 (newSession i 80 c 0)" for i c
    by (simp add: live_on_def newSession_def)
  have none: "(case mgr_view (n_store busy_world) sid of None \<Rightarrow> None
      | Some s \<Rightarrow> if live_on 80 s then None else Some s) = None" for sid
    by (cases "sid = 1"; cases "sid = 2")
       (simp_all add: mgr_view_def busy_store sample_store_sessions sample_sess_0 sample_sess_1 live)
  have ne: "ByPort (e_ord_sess env12) 80 (n_store busy_world) \<noteq> []" by (simp add: busy_ByPort)
  obtain out w' where k: "doKill env12 [] (if True then [''-f'', ''80''] else [''80'']) busy_world = Ret (out, w')"
      "mgr_view (n_store w') = (\<lambda>sid. case mgr_view (n_store busy_world) sid of None \<Rightarrow> None
         | Some s \<Rightarrow> if live_on 80 s then None else Some s)"
    using kill_port [of busy_world env12 "''80''" 80 "[]" True, OF world_inv_wf [OF busy_world_inv] busy_orders(1)
      sample_parse(3) _ ne] by blast
  from k(2) have "mgr_view (n_store w') = Map.empty" unfolding none .
  with k(1) show ?thesis by (intro exI conjI) simp_all
qed

text \<open>
  An index does not name a connection. \<open>ByPort\<close> ranges over a Go map, whose order is not
  determined: in one and the same state, \<open>kill 80:1\<close> may end either of two connections.
\<close>

theorem kill_index_unstable:
  "\<exists>w E1 E2 out1 out2 w1 w2.
     world_inv w \<and> enumerates (e_ord_sess E1) (st_sessions (n_store w))
     \<and> enumerates (e_ord_sess E2) (st_sessions (n_store w))
     \<and> E1\<lparr>e_ord_sess := []\<rparr> = E2\<lparr>e_ord_sess := []\<rparr>
     \<and> doKill E1 [] [''80:1''] w = Ret (out1, w1) \<and> doKill E2 [] [''80:1''] w = Ret (out2, w2)
     \<and> mgr_Get 1 (n_store w1) = None \<and> mgr_Get 2 (n_store w1) \<noteq> None
     \<and> mgr_Get 1 (n_store w2) \<noteq> None \<and> mgr_Get 2 (n_store w2) = None"
proof -
  have "doKill env12 [] [''80:1''] busy_world = Ret (kill_targets False 80 [0] env12 busy_world)"
    and "doKill env21 [] [''80:1''] busy_world = Ret (kill_targets False 80 [1] env21 busy_world)"
    by (simp_all add: doKill_def sample_parse busy_ByPort slice_at_def Let_def)
  moreover have "mgr_Get i (n_store (snd (kill_targets False 80 [a] E busy_world))) =
      (if i = s_ID (sess sample_store a) then None else mgr_Get i sample_store)" for i a E
    by (simp add: kill_targets_def mgr_Get_def kill_store busy_store)
  moreover have "mgr_Get 1 sample_store \<noteq> None" "mgr_Get 2 sample_store \<noteq> None"
    by (simp_all add: mgr_Get_def sample_store_sessions)
  moreover have "s_ID (sess sample_store 0) = 1" "s_ID (sess sample_store 1) = 2"
    by (simp_all add: sample_sess_0 sample_sess_1 newSession_def)
  moreover have "env12\<lparr>e_ord_sess := []\<rparr> = env21\<lparr>e_ord_sess := []\<rparr>"
    by (simp add: env12_def env21_def)
  ultimately show ?thesis
    using busy_world_inv busy_orders
    by (intro exI [of _ busy_world] exI [of _ env12] exI [of _ env21]
          exI [of _ "fst (kill_targets False 80 [0] env12 busy_world)"]
          exI [of _ "fst (kill_targets False 80 [1] env21 busy_world)"]
          exI [of _ "snd (kill_targets False 80 [0] env12 busy_world)"]
          exI [of _ "snd (kill_targets False 80 [1] env21 busy_world)"]) simp
qed

end
