(* ===== verification/Exchange_Props.thy ===== *)
theory Exchange_Props
  imports Dispatch_Props
begin

text \<open>
  Properties of the commands that exchange bytes with a connection (\<open>send\<close>, \<open>read\<close>) and of
  the tables (\<open>list\<close>), of \<open>internal/console/dispatcher.go\<close> and \<open>pkg/ui/views/tables.go\<close>.
\<close>

section \<open>Choosing a session\<close>

text \<open>The session that a port and an index name: no index, or 0, is the first.\<close>

definition chosen :: "env \<Rightarrow> world \<Rightarrow> int \<Rightarrow> int \<Rightarrow> nat" where
  "chosen E w port idx =
     ByPort (e_ord_sess E) port (n_store w) ! nat ((if idx = 0 then 1 else idx) - 1)"

definition index_ok :: "env \<Rightarrow> world \<Rightarrow> int \<Rightarrow> int \<Rightarrow> bool" where
  "index_ok E w port idx \<longleftrightarrow> 0 \<le> idx \<and> ByPort (e_ord_sess E) port (n_store w) \<noteq> []
     \<and> idx \<le> int (length (ByPort (e_ord_sess E) port (n_store w)))"

lemma chosen_slice:
  "index_ok E w port idx \<Longrightarrow>
   slice_at (ByPort (e_ord_sess E) port (n_store w)) ((if idx = 0 then 1 else idx) - 1)
     = Ret (chosen E w port idx)"
  by (auto simp: slice_at_Ret chosen_def index_ok_def)

lemma chosen_mem:
  "index_ok E w port idx \<Longrightarrow> chosen E w port idx \<in> set (ByPort (e_ord_sess E) port (n_store w))"
  using slice_at_mem [OF chosen_slice] by blast

lemma index_le: "index_ok E w port idx \<Longrightarrow>
  \<not> int (length (ByPort (e_ord_sess E) port (n_store w))) < (if idx = 0 then 1 else idx)"
  by (cases "ByPort (e_ord_sess E) port (n_store w)") (auto simp: index_ok_def)

lemma chosen_bound:
  "store_wf (n_store w) \<Longrightarrow> index_ok E w port idx \<Longrightarrow> chosen E w port idx < length (st_heap (n_store w))"
  using chosen_mem ByPort_bounds by blast

lemma chosen_live:
  "index_ok E w port idx \<Longrightarrow> live_on port (sess (n_store w) (chosen E w port idx))"
  using chosen_mem ByPort_mem by blast

section \<open>Sending\<close>

lemma doSend_eq:
  assumes "ParsePortIdx a0 = Inr (port, idx)" and "index_ok E w port idx"
  shows "doSend E ctx (a0 # a1 # rest) w =
    (let a = chosen E w port idx;
         res = session_Write (sess (n_store w) a) (join (a1 # rest) '' '' @ nl) (e_write E);
         w1 = w\<lparr>n_store := upd_sess a (\<lambda>_. fst res) (n_store w)\<rparr>
     in case snd (snd res) of
          Some err \<Rightarrow> Ret (ui_Errorf E (''write error: '' @ err), w1)
        | None \<Rightarrow> Ret (e_render E StyleMuted (''[>] Sent '' @ itoa (int (fst (snd res)))
             @ '' bytes to session '' @ itoa (s_ID (sess (n_store w) a)) @ '' on port '' @ itoa port), w1))"
proof -
  have ne: "ByPort (e_ord_sess E) port (n_store w) \<noteq> []" using assms(2) by (simp add: index_ok_def)
  have alive: "s_state (sess (n_store w) (chosen E w port idx)) \<noteq> StateDead"
    using chosen_live [OF assms(2)] by (simp add: live_on_def)
  show ?thesis
    unfolding doSend_def list.case assms(1) sum.case prod.case Let_def
    using ne alive index_le [OF assms(2)] chosen_slice [OF assms(2)] by simp
qed


lemma plain_writes_ok: "writes_ok (e_write env12)"
  by (simp add: writes_ok_def env12_def plain_env_def)

lemma busy_index: "index_ok env12 busy_world 80 0"
  by (simp add: index_ok_def busy_ByPort)

lemma busy_chosen: "chosen env12 busy_world 80 0 = 0"
  by (simp add: chosen_def busy_ByPort)


section \<open>Reading\<close>

lemma doRead_eq:
  assumes "ParsePortIdx a0 = Inr (port, idx)" and "index_ok E w port idx"
  shows "doRead E ctx (a0 # rest) w =
    (let a = chosen E w port idx; s = sess (n_store w) a;
         w1 = w\<lparr>n_store := upd_sess a (\<lambda>_. snd (ReadBuffered s)) (n_store w)\<rparr>
     in case fst (ReadBuffered s) of
          None \<Rightarrow> Ret (e_render E StyleMuted (''(no data buffered for session ''
             @ itoa (s_ID s) @ '' on port '' @ itoa port @ '')''), w1)
        | Some d \<Rightarrow> Ret (d, w1))"
proof -
  have ne: "ByPort (e_ord_sess E) port (n_store w) \<noteq> []" using assms(2) by (simp add: index_ok_def)
  obtain data s1 where r: "ReadBuffered (sess (n_store w) (chosen E w port idx)) = (data, s1)" by force
  then have "s_ID s1 = s_ID (sess (n_store w) (chosen E w port idx))"
    using session_ops_ID(6) [of "sess (n_store w) (chosen E w port idx)"] by simp
  then show ?thesis
    unfolding doRead_def list.case assms(1) sum.case prod.case Let_def
    using ne index_le [OF assms(2)] chosen_slice [OF assms(2)] r
    by (cases data) simp_all
qed

text \<open>
  C18. \<open>read\<close> hands out everything that is buffered, once: the reply is the buffer of the
  chosen session (or the message that there is none), the buffer is empty afterwards, and
  nothing else about any session changes.
\<close>

theorem read_drains:
  assumes "store_wf (n_store w)" and "ParsePortIdx a0 = Inr (port, idx)" and "index_ok E w port idx"
    and "buf = s_rxBuf (sess (n_store w) (chosen E w port idx))"
  shows "\<exists>out w'. doRead E ctx (a0 # rest) w = Ret (out, w')
    \<and> out = (if buf = [] then e_render E StyleMuted (''(no data buffered for session ''
          @ itoa (s_ID (sess (n_store w) (chosen E w port idx))) @ '' on port '' @ itoa port @ '')'') else buf)
    \<and> sess (n_store w') (chosen E w port idx) = (sess (n_store w) (chosen E w port idx))\<lparr>s_rxBuf := []\<rparr>
    \<and> (\<forall>b. b \<noteq> chosen E w port idx \<longrightarrow> sess (n_store w') b = sess (n_store w) b)"
proof -
  let ?a = "chosen E w port idx"
  let ?s = "sess (n_store w) ?a"
  let ?w' = "w\<lparr>n_store := upd_sess ?a (\<lambda>_. snd (ReadBuffered ?s)) (n_store w)\<rparr>"
  let ?out = "if buf = [] then e_render E StyleMuted (''(no data buffered for session ''
      @ itoa (s_ID ?s) @ '' on port '' @ itoa port @ '')'') else buf"
  have "doRead E ctx (a0 # rest) w = Ret (?out, ?w')"
    unfolding doRead_eq [OF assms(2,3)] Let_def assms(4) by (simp add: ReadBuffered_def)
  moreover have "sess (n_store ?w') ?a = snd (ReadBuffered ?s)"
    using chosen_bound [OF assms(1,3)] by (simp add: sess_upd)
  moreover have "snd (ReadBuffered ?s) = ?s\<lparr>s_rxBuf := []\<rparr>"
    by (simp add: ReadBuffered_def)
  moreover have "sess (n_store ?w') b = sess (n_store w) b" if "b \<noteq> ?a" for b
    using that by (simp add: sess_upd_other)
  ultimately show ?thesis
    by (intro exI [of _ ?out] exI [of _ ?w']) simp
qed

theorem read_drains_witness:
  "\<exists>w'. doRead env12 [] [''80''] (busy_world\<lparr>n_store := upd_sess 0 (\<lambda>s. s\<lparr>s_rxBuf := ''uid=0''\<rparr>) sample_store\<rparr>)
       = Ret (''uid=0'', w')"
proof -
  let ?st = "upd_sess 0 (\<lambda>s. s\<lparr>s_rxBuf := ''uid=0''\<rparr>) sample_store"
  let ?w = "busy_world\<lparr>n_store := ?st\<rparr>"
  have wf: "store_wf (n_store ?w)" using sample_store_wf by (simp add: upd_sess_wf)
  have s0: "sess ?st 0 = (newSession 1 80 (fresh_conn ''p0'') 0)\<lparr>s_rxBuf := ''uid=0''\<rparr>"
    and s1: "sess ?st (Suc 0) = newSession 2 80 (fresh_conn ''p1'') 0"
    by (simp_all add: sess_upd sample_heap sample_sess_0 sample_sess_1)
  have bp: "ByPort (e_ord_sess env12) 80 (n_store ?w) = [0, 1]"
    by (simp add: ByPort_def env12_def sample_store_sessions s0 s1 newSession_def)
  have ix: "index_ok env12 ?w 80 0" and ch: "chosen env12 ?w 80 0 = 0"
    using bp by (simp_all add: index_ok_def chosen_def)
  have buf: "''uid=0'' = s_rxBuf (sess (n_store ?w) (chosen env12 ?w 80 0))"
    unfolding ch by (simp add: s0)
  show ?thesis
    using read_drains [OF wf sample_parse(3) ix buf, of "[]" "[]"] by auto
qed

section \<open>Tables\<close>

lemma mset_range_vals:
  assumes "store_wf st" "enumerates ord (st_sessions st)" "enumerates ord' (st_sessions st)"
  shows "mset (map (sess st) (mgr_All ord st)) = mset (map (sess st) (mgr_All ord' st))"
proof -
  have "distinct (mgr_All o' st)" if "enumerates o' (st_sessions st)" for o'
    using that assms(1) by (simp add: mgr_All_def enumerates_def distinct_range_vals store_wf_inj)
  moreover have "set (mgr_All ord st) = set (mgr_All ord' st)"
    using assms(2,3) by (simp add: set_mgr_All)
  ultimately have "mset (mgr_All ord st) = mset (mgr_All ord' st)"
    using assms(2,3) by (simp add: set_eq_iff_mset_eq_distinct)
  then show ?thesis by simp
qed

lemma mgr_All_inj:
  assumes "store_wf st" "enumerates ord (st_sessions st)"
  shows "inj_on s_ID (set (map (sess st) (mgr_All ord st)))"
proof (rule inj_onI)
  fix x y
  assume x: "x \<in> set (map (sess st) (mgr_All ord st))" and y: "y \<in> set (map (sess st) (mgr_All ord st))"
    and eq: "s_ID x = s_ID y"
  obtain a i b j where "x = sess st a" "st_sessions st i = Some a" "y = sess st b" "st_sessions st j = Some b"
    using x y by (auto simp: set_mgr_All [OF assms(2)])
  with eq store_wfD [OF assms(1)] show "x = y" by (metis option.inject)
qed

text \<open>
  The table of connections does not show the order of the map: in the same state, any two
  orders of ranging over the manager's map print the same table, sorted by identifier.
\<close>

theorem list_conn_order:
  assumes "store_wf (n_store w)" and "enumerates (e_ord_sess E) (st_sessions (n_store w))"
    and "enumerates ord (st_sessions (n_store w))"
  shows "doList E ctx [''conn''] w = doList (E\<lparr>e_ord_sess := ord\<rparr>) ctx [''conn''] w"
proof -
  have same: "RenderSessions (E\<lparr>e_ord_sess := ord\<rparr>) ss = RenderSessions E ss" for ss
    by (simp add: RenderSessions_def render_session_row_def col_def cong: map_cong)
  have "RenderSessions E (all_sessions E w) = RenderSessions E (all_sessions (E\<lparr>e_ord_sess := ord\<rparr>) w)"
    unfolding all_sessions_def
    by (rule RenderSessions_order)
       (use mset_range_vals [OF assms] mgr_All_inj [OF assms(1,2)] in simp_all)
  moreover have "to_lower ''conn'' = ''conn''" by code_simp
  ultimately show ?thesis by (simp add: doList_def same)
qed

theorem list_conn_order_witness:
  "doList env12 [] [''conn''] busy_world = doList (env12\<lparr>e_ord_sess := [2, 1]\<rparr>) [] [''conn''] busy_world"
  by (rule list_conn_order [OF world_inv_wf [OF busy_world_inv] busy_orders(1)])
     (use busy_orders(2) in \<open>simp add: env21_def\<close>)

lemma length_nat_digits: "n < 10 ^ Suc k \<Longrightarrow> length (nat_digits n) \<le> Suc k"
proof (induction k arbitrary: n)
  case 0
  then show ?case by (simp add: nat_digits.simps [of n])
next
  case (Suc k)
  have "length (nat_digits (n div 10)) \<le> Suc k"
    by (rule Suc.IH) (use Suc.prems in \<open>simp add: less_mult_imp_div_less\<close>)
  then show ?case by (subst nat_digits.simps) simp
qed

lemma length_itoa: "0 \<le> i \<Longrightarrow> i < 10 ^ Suc k \<Longrightarrow> length (itoa i) \<le> Suc k"
  using length_nat_digits [of "nat i" k] by (simp add: itoa_def nat_less_iff)

lemma round_half_even_bounds:
  assumes "0 < d"
  shows "n div d \<le> round_half_even n d \<and> round_half_even n d \<le> n div d + 1"
  by (auto simp: round_half_even_def Let_def)

lemma fmt_tenths_length:
  assumes "0 \<le> n" "0 < d" "n < 999999 * d"
  shows "length (fmt_tenths n d) \<le> 8"
proof -
  define t where "t = round_half_even (10 * n) d"
  have "0 \<le> 10 * n div d" using assms by (simp add: pos_imp_zdiv_nonneg_iff)
  moreover have "10 * n div d < 9999990"
  proof (rule ccontr)
    assume "\<not> 10 * n div d < 9999990"
    then have "d * 9999990 \<le> d * (10 * n div d)" using assms(2) by (intro mult_left_mono) auto
    moreover have "d * (10 * n div d) + 10 * n mod d = 10 * n" by (rule mult_div_mod_eq)
    moreover have "0 \<le> 10 * n mod d" using assms(2) by simp
    ultimately show False using assms(3) by linarith
  qed
  ultimately have t: "0 \<le> t" "t \<le> 9999990"
    using round_half_even_bounds [OF assms(2), of "10 * n"] by (auto simp: t_def)
  have "length (itoa (t div 10)) \<le> Suc 5" by (rule length_itoa) (use t in auto)
  moreover have "length (itoa (t mod 10)) \<le> Suc 0" by (rule length_itoa) auto
  ultimately show ?thesis by (simp add: fmt_tenths_def t_def [symmetric] Let_def)
qed

text \<open>
  \<open>formatBytes\<close> fits its column of nine characters for every count below 999999 MiB.
\<close>

theorem formatBytes_fits:
  assumes "0 \<le> n" and "n < 999999 * 1048576"
  shows "length (formatBytes n) \<le> wSTX \<and> length (formatBytes n) \<le> wFRX"
proof -
  have "length (itoa n) \<le> Suc 3" if "n < 1024"
    by (rule length_itoa) (use that assms in auto)
  moreover have "length (fmt_tenths n 1024) \<le> 8" if "n < 1024 * 1024"
    by (rule fmt_tenths_length) (use that assms in auto)
  moreover have "length (fmt_tenths n (1024 * 1024)) \<le> 8"
    by (rule fmt_tenths_length) (use assms in auto)
  ultimately show ?thesis by (auto simp: formatBytes_def wSTX_def wFRX_def)
qed

theorem formatBytes_fits_witness: "length (formatBytes 1048575) \<le> 9 \<and> formatBytes 1048575 = ''1024.0K''"
proof
  show "length (formatBytes 1048575) \<le> 9" using formatBytes_fits [of 1048575] by (simp add: wSTX_def)
  show "formatBytes 1048575 = ''1024.0K''" by code_simp
qed

end
