(* ===== verification/Repl_Props.thy ===== *)
theory Repl_Props
  imports Repl_Model Exchange_Props
begin

text \<open>
  Properties of the interactive shell (\<open>internal/console/repl.go\<close>): interrupts, lines typed in
  a session, leaving a session, and leaving the program.
\<close>

section \<open>Sample shells\<close>

definition menu_repl :: repl where
  "menu_repl = \<lparr>rp_world = busy_world, rp_cfg = defaultConfig, rp_ctx = [], rp_mode = Menu,
     rp_prompt = ''tcpsh> '', rp_drainers = [], rp_signals = True, rp_open = True, rp_out = []\<rparr>"

definition sess_repl :: repl where
  "sess_repl = menu_repl\<lparr>rp_world := busy_world\<lparr>n_store := upd_sess 0 (\<lambda>s. SetState s StateForeground) sample_store\<rparr>,
     rp_mode := InSession 0 0, rp_drainers := [\<lparr>dr_session = 0, dr_running = True\<rparr>]\<rparr>"

lemma sess_repl_store:
  "sess (n_store (rp_world sess_repl)) 0 = SetState (newSession 1 80 (fresh_conn ''p0'') 0) StateForeground"
  by (simp add: sess_repl_def sess_upd sample_heap sample_sess_0)

lemma parse_words:
  "Parse ''exit'' m = \<lparr>cmd_kind = CmdTool, cmd_verb = ''exit'', cmd_args = [], cmd_raw = ''exit''\<rparr>"
  "Parse ''+exit'' m = \<lparr>cmd_kind = CmdSpecial, cmd_verb = ''+exit'', cmd_args = [], cmd_raw = ''+exit''\<rparr>"
  "Parse ''+back'' m = \<lparr>cmd_kind = CmdSpecial, cmd_verb = ''+back'', cmd_args = [], cmd_raw = ''+back''\<rparr>"
  "Parse ''+bg'' m = \<lparr>cmd_kind = CmdSpecial, cmd_verb = ''+bg'', cmd_args = [], cmd_raw = ''+bg''\<rparr>"
  by (cases m; code_simp)+

section \<open>Interrupts\<close>

text \<open>
  Ctrl+C never ends anything: in the menu and in a session it prints a tip, and changes
  neither the sessions, the listeners and the forwards, nor the mode of the shell.
\<close>

theorem interrupt_harmless:
  "\<exists>tip. repl_step E RInterrupt r = Ret (r\<lparr>rp_out := rp_out r @ tip\<rparr>)"
  by (cases "rp_mode r")
     (auto simp: repl_step_def menu_step_def session_step_def println_def print_def intro: exI [of _ "[]"])

section \<open>Lines of a session\<close>

lemma upd_world_sess_out [simp]:
  "rp_out (upd_world_sess a f r) = rp_out r" "rp_mode (upd_world_sess a f r) = rp_mode r"
  "rp_drainers (upd_world_sess a f r) = rp_drainers r" "rp_prompt (upd_world_sess a f r) = rp_prompt r"
  "rp_cfg (upd_world_sess a f r) = rp_cfg r" "rp_ctx (upd_world_sess a f r) = rp_ctx r"
  "n_store (rp_world (upd_world_sess a f r)) = upd_sess a f (n_store (rp_world r))"
  by (simp_all add: upd_world_sess_def)

lemma print_frame [simp]:
  "rp_world (println s r) = rp_world r" "rp_mode (println s r) = rp_mode r"
  "rp_drainers (println s r) = rp_drainers r" "rp_cfg (println s r) = rp_cfg r"
  "rp_world (print s r) = rp_world r" "rp_mode (print s r) = rp_mode r"
  "rp_drainers (print s r) = rp_drainers r" "rp_ctx (println s r) = rp_ctx r"
  "cur_sess (println s r) a = cur_sess r a" "cur_sess (print s r) a = cur_sess r a"
  by (simp_all add: println_def print_def cur_sess_def)

lemma cur_sess_upd:
  "a < length (st_heap (n_store (rp_world r))) \<Longrightarrow>
   cur_sess (upd_world_sess a f r) b = (if b = a then f (cur_sess r a) else cur_sess r b)"
  by (simp add: cur_sess_def sess_upd)

lemma cur_sess_upd_other: "b \<noteq> a \<Longrightarrow> cur_sess (upd_world_sess a f r) b = cur_sess r b"
  by (simp add: cur_sess_def sess_upd_other)

text \<open>
  C22. A line typed in a session goes to its connection as it was typed, with one line feed,
  even when it begins with a verb of the tool; it is recorded in the session's history, the
  shell stays in the session, and no other session changes.
\<close>

theorem session_passthrough:
  assumes "rp_mode r = InSession a k" and "a < length (st_heap (n_store (rp_world r)))"
    and "dr_running (rp_drainers r ! k)"
    and "cmd_kind (Parse line True) = CmdPassthrough \<or> cmd_kind (Parse line True) = CmdTool"
    and "s_state (cur_sess r a) \<noteq> StateDead" and "\<not> c_closed (s_Conn (cur_sess r a))"
    and "e_write E (line @ nl) = (length (line @ nl), None)"
  shows "\<exists>r'. repl_step E (RLine line) r = Ret r' \<and> rp_mode r' = InSession a k
    \<and> c_out (s_Conn (cur_sess r' a)) = c_out (s_Conn (cur_sess r a)) @ line @ nl
    \<and> History (cur_sess r' a) = History (cur_sess r a) @ [line]
    \<and> s_state (cur_sess r' a) = s_state (cur_sess r a)
    \<and> (\<forall>b. b \<noteq> a \<longrightarrow> cur_sess r' b = cur_sess r b)"
proof -
  obtain s1 where w: "session_Write (cur_sess r a) (line @ nl) (e_write E) = (s1, length (line @ nl), None)"
    and s1: "c_out (s_Conn s1) = c_out (s_Conn (cur_sess r a)) @ line @ nl"
      "s_history s1 = s_history (cur_sess r a)" "s_state s1 = s_state (cur_sess r a)"
    using assms(6,7) by (simp add: session_Write_def conn_write_def)
  let ?r1 = "upd_world_sess a (\<lambda>_. s1) r"
  let ?r2 = "upd_world_sess a (\<lambda>s. AddHistory s line) ?r1"
  have "repl_step E (RLine line) r = Ret ?r2"
    using assms(1,3,4,5) w
    by (auto simp: repl_step_def session_step_def send_line_def Let_def check_remote_def)
  moreover have "cur_sess ?r2 b = (if b = a then AddHistory s1 line else cur_sess r b)" for b
    using assms(2) by (simp add: cur_sess_upd)
  ultimately show ?thesis
    using assms(1) s1 by (intro exI [of _ ?r2]) (simp add: AddHistory_def History_def)
qed

theorem session_passthrough_witness:
  "\<exists>r'. repl_step env12 (RLine ''help me'') sess_repl = Ret r'
     \<and> c_out (s_Conn (cur_sess r' 0)) = ''help me'' @ nl"
proof -
  have "cmd_kind (Parse ''help me'' True) = CmdTool" by code_simp
  moreover have "cur_sess sess_repl 0 = SetState (newSession 1 80 (fresh_conn ''p0'') 0) StateForeground"
    by (simp add: cur_sess_def sess_repl_store)
  moreover have "e_write env12 (''help me'' @ nl) = (length (''help me'' @ nl), None)"
    by (simp add: env12_def plain_env_def)
  moreover have "rp_mode sess_repl = InSession 0 0" "dr_running (rp_drainers sess_repl ! 0)"
      "0 < length (st_heap (n_store (rp_world sess_repl)))"
    by (simp_all add: sess_repl_def sample_heap)
  ultimately show ?thesis
    using session_passthrough [of sess_repl 0 0 "''help me''" env12]
    by (fastforce simp: SetState_def newSession_def fresh_conn_def)
qed

section \<open>Leaving a session\<close>

lemma leaveSession_sess:
  assumes "a < length (st_heap (n_store (rp_world r)))"
  shows "cur_sess (leaveSession a r) b =
    (if b = a \<and> s_state (cur_sess r a) = StateForeground then SetState (cur_sess r a) StateBackground
     else cur_sess r b)"
  using assms cur_sess_upd [OF assms, of "\<lambda>s. SetState s StateBackground" b]
  by (auto simp: leaveSession_def Let_def cur_sess_def)

text \<open>
  \<open>+back\<close> returns to the menu and its prompt and closes nothing: the session that was in
  the foreground is in the background, its connection and its buffer are as they were, and
  a session that has died meanwhile stays dead.
\<close>

theorem back_keeps_session:
  assumes "rp_mode r = InSession a k" and "a < length (st_heap (n_store (rp_world r)))"
  shows "\<exists>r'. repl_step E (RLine ''+back'') r = Ret r' \<and> rp_mode r' = Menu
    \<and> rp_prompt r' = Prompt (rp_cfg r)
    \<and> (\<forall>b. cur_sess r' b = (if b = a \<and> s_state (cur_sess r a) = StateForeground
          then (cur_sess r a)\<lparr>s_state := StateBackground\<rparr> else cur_sess r b))
    \<and> rp_drainers r' = rp_drainers r"
proof -
  let ?r1 = "println (e_render E StyleMuted ''  Returning to menu. Session is still open.'') r"
  have "repl_step E (RLine ''+back'') r = Ret (leaveSession a ?r1)"
    using assms(1) by (simp add: repl_step_def session_step_def parse_words)
  moreover have "rp_drainers (leaveSession a ?r1) = rp_drainers r" "rp_mode (leaveSession a ?r1) = Menu"
      "rp_prompt (leaveSession a ?r1) = Prompt (rp_cfg r)"
    by (simp_all add: leaveSession_def Let_def)
  ultimately show ?thesis
    using leaveSession_sess [of a ?r1] assms(2) by (simp add: SetState_def)
qed

theorem back_keeps_session_witness:
  "\<exists>r'. repl_step env12 (RLine ''+back'') sess_repl = Ret r' \<and> rp_mode r' = Menu
     \<and> s_state (cur_sess r' 0) = StateBackground"
  using back_keeps_session [of sess_repl 0 0 env12] sess_repl_store
  by (auto simp: sess_repl_def cur_sess_def sample_heap SetState_def)

text \<open>
  \<open>+bg\<close> brings the dead back. On a session whose connection is gone it sets the state
  to background, so the session counts as live again: it is listed on its port, although its
  connection is closed and its receive loop has returned.
\<close>

theorem bg_revives:
  assumes "rp_mode r = InSession a k" and "store_wf (n_store (rp_world r))"
    and "st_sessions (n_store (rp_world r)) sid = Some a" and "sid \<in> set ord"
    and "s_state (cur_sess r a) = StateDead"
  shows "\<exists>r'. repl_step E (RLine ''+bg'') r = Ret r'
    \<and> s_state (cur_sess r' a) = StateBackground \<and> s_Conn (cur_sess r' a) = s_Conn (cur_sess r a)
    \<and> a \<in> set (ByPort ord (s_Port (cur_sess r a)) (n_store (rp_world r')))"
proof -
  have len: "a < length (st_heap (n_store (rp_world r)))" using store_wfD [OF assms(2,3)] by simp
  let ?r1 = "upd_world_sess a (\<lambda>s. SetState s StateBackground) r"
  let ?r2 = "println (e_render E StyleBackground
      (''  Session '' @ itoa (s_ID (cur_sess r a)) @ '' sent to background.'')) ?r1"
  have "repl_step E (RLine ''+bg'') r = Ret (leaveSession a ?r2)"
    using assms(1) by (simp add: repl_step_def session_step_def parse_words)
  moreover have bg: "cur_sess ?r2 a = SetState (cur_sess r a) StateBackground"
    using len by (simp add: cur_sess_upd)
  have "cur_sess (leaveSession a ?r2) a = SetState (cur_sess r a) StateBackground"
    using len bg by (subst leaveSession_sess) (simp_all add: SetState_def)
  moreover have "st_sessions (n_store (rp_world (leaveSession a ?r2))) sid = Some a"
    using assms(3) by (simp add: leaveSession_def Let_def)
  ultimately show ?thesis
    using assms(4)
    by (auto simp: ByPort_def set_range_vals cur_sess_def SetState_def intro!: bexI [of _ sid])
qed

definition dead_repl :: repl where
  "dead_repl = sess_repl\<lparr>rp_world := busy_world\<lparr>n_store := upd_sess 0 session_Close sample_store\<rparr>\<rparr>"

theorem bg_revives_witness:
  "\<exists>r'. repl_step env12 (RLine ''+bg'') dead_repl = Ret r' \<and> s_state (cur_sess r' 0) = StateBackground
     \<and> c_closed (s_Conn (cur_sess r' 0)) \<and> 0 \<in> set (ByPort [1, 2] 80 (n_store (rp_world r')))"
proof -
  have s: "cur_sess dead_repl 0 = session_Close (newSession 1 80 (fresh_conn ''p0'') 0)"
    by (simp add: dead_repl_def cur_sess_def sess_upd sample_heap sample_sess_0)
  have "rp_mode dead_repl = InSession 0 0" "store_wf (n_store (rp_world dead_repl))"
    "st_sessions (n_store (rp_world dead_repl)) 1 = Some 0"
    using sample_store_wf
    by (simp_all add: dead_repl_def sess_repl_def upd_sess_wf sample_store_sessions)
  moreover have "s_state (cur_sess dead_repl 0) = StateDead" "c_closed (s_Conn (cur_sess dead_repl 0))"
      "s_Port (cur_sess dead_repl 0) = 80"
    by (simp_all add: s) (simp_all add: session_defs newSession_def)
  ultimately show ?thesis using bg_revives [of dead_repl 0 0 1 "[1, 2]" env12] by auto
qed

text \<open>
  The goroutine that prints a session's output outlives the session mode. After \<open>+back\<close>
  it still runs: bytes that arrive while the user is in the menu are printed over the menu
  and taken out of the buffer, so that \<open>read\<close> no longer finds them.
\<close>

theorem drainer_outlives_back:
  assumes "rp_mode r = InSession a k" and "a < length (st_heap (n_store (rp_world r)))"
    and "k < length (rp_drainers r)" and "rp_drainers r ! k = \<lparr>dr_session = a, dr_running = True\<rparr>"
    and "s_state (cur_sess r a) = StateForeground" and "s_rxBuf (cur_sess r a) = []" and "data \<noteq> []"
  shows "\<exists>r1 r2. repl_step E (RLine ''+back'') r = Ret r1 \<and> rp_mode r1 = Menu
    \<and> drain_step E k (upd_world_sess a (\<lambda>s. fst (rx_turn s now data False)) r1) = Some r2
    \<and> rp_out r2 = rp_out r1 @ data \<and> s_rxBuf (cur_sess r2 a) = [] \<and> dr_running (rp_drainers r2 ! k)"
proof -
  let ?r0 = "println (e_render E StyleMuted ''  Returning to menu. Session is still open.'') r"
  let ?r1 = "leaveSession a ?r0"
  let ?r1' = "upd_world_sess a (\<lambda>s. fst (rx_turn s now data False)) ?r1"
  have step: "repl_step E (RLine ''+back'') r = Ret ?r1"
    using assms(1) by (simp add: repl_step_def session_step_def parse_words)
  have len: "a < length (st_heap (n_store (rp_world ?r1)))"
    using assms(2) by (simp add: leaveSession_def Let_def)
  have s1: "cur_sess ?r1 a = SetState (cur_sess r a) StateBackground"
    using assms(2,5) by (subst leaveSession_sess) simp_all
  have s1': "cur_sess ?r1' a = fst (rx_turn (cur_sess ?r1 a) now data False)"
    using len by (simp add: cur_sess_upd)
  then have buf: "s_rxBuf (cur_sess ?r1' a) = data" "s_state (cur_sess ?r1' a) = StateBackground"
    using assms(6,7) by (simp_all add: s1 rx_turn_def SetState_def)
  let ?r2 = "print data (upd_world_sess a (\<lambda>_. (cur_sess ?r1' a)\<lparr>s_rxBuf := []\<rparr>) ?r1')"
  have dr: "rp_drainers ?r1' ! k = \<lparr>dr_session = a, dr_running = True\<rparr>"
    using assms(4) by (simp add: leaveSession_def Let_def)
  have "drain_step E k ?r1' = Some ?r2"
    unfolding drain_step_def Let_def dr using buf assms(7) by (simp add: DrainRxBuf_def)
  moreover have "s_rxBuf (cur_sess ?r2 a) = []"
    using len by (simp add: cur_sess_upd)
  moreover have "rp_out ?r2 = rp_out ?r1 @ data" by (simp add: print_def)
  moreover have "dr_running (rp_drainers ?r2 ! k)" using dr by simp
  moreover have "rp_mode ?r1 = Menu" by (simp add: leaveSession_def Let_def)
  ultimately show ?thesis using step by blast
qed

theorem drainer_outlives_back_witness:
  "\<exists>r1 r2. repl_step env12 (RLine ''+back'') sess_repl = Ret r1 \<and> rp_mode r1 = Menu
     \<and> drain_step env12 0 (upd_world_sess 0 (\<lambda>s. fst (rx_turn s 1 ''flag'' False)) r1) = Some r2
     \<and> rp_out r2 = rp_out r1 @ ''flag''"
  using drainer_outlives_back [of sess_repl 0 0 "''flag''" env12 1] sess_repl_store
  by (auto simp: sess_repl_def cur_sess_def sample_heap SetState_def newSession_def)

end
