(* ===== verification/Exit_Props.thy ===== *)
theory Exit_Props
  imports Repl_Props
begin

text \<open>
  Leaving the program (\<open>doExit\<close> of \<open>internal/console/repl.go\<close>, \<open>eventLoop\<close> of
  \<open>internal/console/signals.go\<close>) and the panics of the shell.
\<close>

section \<open>Closing every listener\<close>

lemma lm_Close_sess:
  assumes "lm_Close E p w = Inr w1" "store_wf (n_store w)" "enumerates (e_ord_sess E) (st_sessions (n_store w))"
  shows "store_wf (n_store w1) \<and> st_sessions (n_store w1) = st_sessions (n_store w)
    \<and> (\<forall>b. s_Port (sess (n_store w1) b) = s_Port (sess (n_store w) b)
        \<and> (s_state (sess (n_store w) b) = StateDead \<longrightarrow> s_state (sess (n_store w1) b) = StateDead)
        \<and> (s_Port (sess (n_store w) b) = p \<and> b \<in> ran (st_sessions (n_store w))
            \<longrightarrow> s_state (sess (n_store w1) b) = StateDead))"
proof -
  have st: "n_store w1 = mgr_CloseAll (e_ord_sess E) p (n_store w)" by (rule lm_Close_store [OF assms(1)])
  have "s_state (sess (n_store w1) b) = StateDead"
    if "s_Port (sess (n_store w) b) = p" "b \<in> ran (st_sessions (n_store w))" for b
  proof (cases "s_state (sess (n_store w) b) = StateDead")
    case False
    then have "b \<in> set (ByPort (e_ord_sess E) p (n_store w))"
      using that by (auto simp: set_ByPort [OF assms(3)] live_on_def ran_def)
    then show ?thesis by (simp add: st sess_CloseAll [OF assms(2,3)])
  qed (simp add: st sess_CloseAll [OF assms(2,3)])
  then show ?thesis
    using assms(2) by (simp add: st mgr_CloseAll_wf sess_CloseAll [OF assms(2,3)])
qed

lemma close_list_sess:
  assumes "store_wf (n_store w)" "enumerates (e_ord_sess E) (st_sessions (n_store w))"
    and "\<forall>p\<in>set ps. IsOpen w p" "distinct ps"
  shows "st_sessions (n_store (lt.close_list E ps w)) = st_sessions (n_store w)
    \<and> (\<forall>b. s_Port (sess (n_store (lt.close_list E ps w)) b) = s_Port (sess (n_store w) b)
        \<and> (s_state (sess (n_store w) b) = StateDead \<longrightarrow> s_state (sess (n_store (lt.close_list E ps w)) b) = StateDead)
        \<and> (s_Port (sess (n_store w) b) \<in> set ps \<and> b \<in> ran (st_sessions (n_store w))
            \<longrightarrow> s_state (sess (n_store (lt.close_list E ps w)) b) = StateDead))"
  using assms
proof (induction ps arbitrary: w)
  case (Cons p ps)
  then obtain w1 where cl: "lm_Close E p w = Inr w1" using lt.close_removes [of w p E] by auto
  note one = lm_Close_sess [OF cl Cons.prems(1,2)]
  have "\<forall>q\<in>set ps. IsOpen w1 q" using Cons.prems(3,4) lt.close_result [OF cl] by auto
  then have IH: "st_sessions (n_store (lt.close_list E ps w1)) = st_sessions (n_store w1)
    \<and> (\<forall>b. s_Port (sess (n_store (lt.close_list E ps w1)) b) = s_Port (sess (n_store w1) b)
        \<and> (s_state (sess (n_store w1) b) = StateDead \<longrightarrow> s_state (sess (n_store (lt.close_list E ps w1)) b) = StateDead)
        \<and> (s_Port (sess (n_store w1) b) \<in> set ps \<and> b \<in> ran (st_sessions (n_store w1))
            \<longrightarrow> s_state (sess (n_store (lt.close_list E ps w1)) b) = StateDead))"
    using one Cons.prems(2,4) by (intro Cons.IH) auto
  show ?case using one IH by (simp add: cl) blast
qed simp

lemma fm_CloseAll_world:
  "fm_CloseAll ord (w :: world, m) = (w3, m3) \<Longrightarrow> n_store w3 = n_store w \<and> n_listeners w3 = n_listeners w
     \<and> (ctx_done w c \<longrightarrow> ctx_done w3 c)"
proof -
  have close1: "n_store (fst t) = n_store (fst s) \<and> n_listeners (fst t) = n_listeners (fst s)
      \<and> (ctx_done (fst s) c \<longrightarrow> ctx_done (fst t) c)" if "fm_Close () p s = Inr t"
    for p and s t :: "world \<times> fmgr"
    using that
    by (cases s; cases t)
       (auto simp: fm_Close_Inr entry_Close_def Let_def forwarder_Close_def proxy_Close_def intro: ctx_done_mono
          split: option.splits)
  have "n_store (fst (ft.close_list () ps s)) = n_store (fst s) \<and> n_listeners (fst (ft.close_list () ps s)) = n_listeners (fst s)
      \<and> (ctx_done (fst s) c \<longrightarrow> ctx_done (fst (ft.close_list () ps s)) c)" for ps and s :: "world \<times> fmgr"
  proof (induction ps arbitrary: s)
    case (Cons p ps)
    show ?case
      using Cons.IH [of "case fm_Close () p s of Inl e \<Rightarrow> s | Inr t \<Rightarrow> t"] close1 [of p s]
      by (cases "fm_Close () p s") auto
  qed simp
  then show "fm_CloseAll ord (w :: world, m) = (w3, m3) \<Longrightarrow> n_store w3 = n_store w \<and> n_listeners w3 = n_listeners w
     \<and> (ctx_done w c \<longrightarrow> ctx_done w3 c)"
    unfolding fm_CloseAll_close_list by (metis fst_conv)
qed

lemma lt_close_list_frame:
  "w_fwd (lt.close_list E ps w) = w_fwd w \<and> (ctx_done w c \<longrightarrow> ctx_done (lt.close_list E ps w) c)"
proof (induction ps arbitrary: w)
  case (Cons p ps)
  show ?case
  proof (cases "lm_Close E p w")
    case (Inr w1)
    then have "w_fwd w1 = w_fwd w" using lm_Close_fwd by blast
    moreover obtain l where "w1 = listener_Close l (w\<lparr>n_store := mgr_CloseAll (e_ord_sess E) p (n_store w)\<rparr>)
        \<lparr>n_listeners := (n_listeners w)(p := None)\<rparr>" using Inr by (auto simp: lm_Close_Inr)
    then have "ctx_done w c \<longrightarrow> ctx_done w1 c"
      by (cases "l_ctx (n_lheap w ! l)") (auto simp: listener_Close_def ctx_done_def cancel_def)
    ultimately show ?thesis using Cons.IH [of w1] Inr by simp
  qed (use Cons.IH in simp)
qed simp

lemma close_everything_effect:
  assumes wf: "store_wf (n_store w)" and os: "enumerates (e_ord_sess E) (st_sessions (n_store w))"
    and op: "enumerates (e_ord_ports E) (n_listeners w)" and of: "enumerates (e_ord_fwds E) (fm_entries (w_fwd w))"
    and ne: "ctx \<noteq> []"
  shows "\<forall>p. \<not> IsOpen (close_everything E ctx w) p"
    and "fm_entries (w_fwd (close_everything E ctx w)) = Map.empty"
    and "ctx_done (close_everything E ctx w) ctx"
    and "\<forall>b\<in>ran (st_sessions (n_store w)). IsOpen w (s_Port (sess (n_store w) b)) \<longrightarrow>
      s_state (sess (n_store (close_everything E ctx w)) b) = StateDead"
proof -
  let ?w1 = "cancel ctx w" and ?ps = "OpenPorts (e_ord_ports E) (cancel ctx w)"
  define w2 where "w2 = lt.close_list E ?ps ?w1"
  obtain w3 m3 where fc: "fm_CloseAll (e_ord_fwds E) (w2, w_fwd w2) = (w3, m3)" by force
  have ce: "close_everything E ctx w = w3\<lparr>w_fwd := m3\<rparr>"
    by (simp add: close_everything_def Let_def lm_CloseAll_close_list fc flip: w2_def)
  have fwd1: "w_fwd ?w1 = w_fwd w" by (simp add: cancel_def split: list.split)
  have mem: "p \<in> set ?ps" if "IsOpen ?w1 p" for p
    using that op by (auto simp: OpenPorts_def IsOpen_def enumerates_def)
  have fr: "w_fwd w2 = w_fwd w \<and> ctx_done w2 ctx"
    using lt_close_list_frame [of E ?ps ?w1 ctx] fwd1 ctx_done_cancel [OF ne, of w ctx] ne
    by (simp add: w2_def)
  note keep = fm_CloseAll_world [OF fc, of ctx]
  have "\<not> IsOpen w2 p" for p unfolding w2_def by (rule lt.close_list_empty) (rule mem)
  then show "\<forall>p. \<not> IsOpen (close_everything E ctx w) p" using keep by (simp add: ce IsOpen_def)
  have "\<not> fm_present (w3, m3) p" for p
    using of fr unfolding fc [symmetric] fm_CloseAll_close_list
    by (intro ft.close_list_empty) (auto simp: enumerates_def fm_present_def)
  then show "fm_entries (w_fwd (close_everything E ctx w)) = Map.empty"
    by (auto simp: ce fm_present_def)
  show "ctx_done (close_everything E ctx w) ctx"
    using keep fr by (simp add: ce ctx_done_def)
  have ps: "\<forall>p\<in>set ?ps. IsOpen ?w1 p" "distinct ?ps"
    using op by (auto simp: OpenPorts_def enumerates_def)
  have "store_wf (n_store ?w1)" "enumerates (e_ord_sess E) (st_sessions (n_store ?w1))"
    using wf os by simp_all
  from close_list_sess [OF this ps]
  show "\<forall>b\<in>ran (st_sessions (n_store w)). IsOpen w (s_Port (sess (n_store w) b)) \<longrightarrow>
      s_state (sess (n_store (close_everything E ctx w)) b) = StateDead"
    using keep mem by (simp add: ce IsOpen_def flip: w2_def)
qed

section \<open>Exits\<close>

lemma doExit_sure:
  "fst (doExit E False r) = println (e_render E StyleMuted ''Bye.'')
     (r\<lparr>rp_signals := False, rp_world := close_everything E (rp_ctx r) (rp_world r), rp_open := False\<rparr>)"
  by (simp add: doExit_def Let_def)


definition exit_env :: env where
  "exit_env = plain_env\<lparr>e_ord_sess := [1], e_ord_ports := [80], e_ord_fwds := []\<rparr>"

definition listening_repl :: repl where
  "listening_repl = menu_repl\<lparr>rp_ctx := [7], rp_world := empty_world\<lparr>n_store := snd (mgr_Accept 80 (fresh_conn ''p'') 0 NewManager),
     n_lheap := [\<lparr>l_Port = 80, l_Host = [], l_ctx = [8], l_closed = False, l_pc = AtAccept\<rparr>],
     n_listeners := [80 \<mapsto> 0], n_rx := [0]\<rparr>\<rparr>"


text \<open>
  Declining to exit does not stay. When sessions are alive and the user does not answer
  \<open>y\<close>, \<open>exit\<close> in the menu still returns from \<open>Run\<close>, and \<open>+exit\<close> in a session still ends the
  process; and neither has closed anything: sessions, listeners and forwards are as before.
\<close>

theorem declined_exit_leaves:
  assumes "mgr_All (e_ord_sess E) (n_store (rp_world r)) \<noteq> []"
    and "to_lower (trim_space (e_scan E)) \<noteq> ''y''"
    and "(rp_mode r = Menu \<and> line = ''exit'' \<and> final = Returned None)
      \<or> (rp_mode r = InSession a k \<and> line = ''+exit'' \<and> final = OsExit)"
  shows "\<exists>r'. repl_step E (RLine line) r = Ret r' \<and> rp_mode r' = final
    \<and> rp_world r' = rp_world r \<and> rp_open r' = rp_open r \<and> rp_signals r' = rp_signals r"
  using assms
  by (auto simp: repl_step_def menu_step_def session_step_def parse_words returned_def doExit_def Let_def
      print_def)

theorem declined_exit_leaves_witness:
  "\<exists>r'. repl_step (env12\<lparr>e_scan := ''n''\<rparr>) (RLine ''exit'') menu_repl = Ret r'
     \<and> rp_mode r' = Returned None \<and> rp_world r' = rp_world menu_repl"
proof -
  have "mgr_All (e_ord_sess (env12\<lparr>e_scan := ''n''\<rparr>)) (n_store (rp_world menu_repl)) \<noteq> []"
    by (simp add: menu_repl_def busy_store env12_def mgr_All_def sample_store_sessions sample_sess_0
        newSession_def)
  moreover have "to_lower (trim_space ''n'') \<noteq> ''y''" by code_simp
  ultimately show ?thesis
    using declined_exit_leaves [of "env12\<lparr>e_scan := ''n''\<rparr>" menu_repl "''exit''" "Returned None" 0 0]
    by (auto simp: menu_repl_def)
qed

section \<open>Panics\<close>

text \<open>The argument that names a session, for every command of the menu that indexes.\<close>

definition menu_target :: "string \<Rightarrow> string option" where
  "menu_target line =
     (let c = Parse line False in
      if cmd_kind c \<noteq> CmdTool then None
      else if cmd_verb c = ''use'' then (case cmd_args c of a # _ \<Rightarrow> Some a | [] \<Rightarrow> None)
      else indexed_target c)"

lemma doUse_panic:
  "doUse E args r = Panic \<longleftrightarrow>
   (\<exists>a rest p i. args = a # rest \<and> ParsePortIdx a = Inr (p, i) \<and> i < 0
      \<and> ByPort (e_ord_sess E) p (n_store (rp_world r)) \<noteq> [])"
proof -
  have "slice_at xs (n - 1) \<noteq> Panic" if "\<not> (n < 1 \<or> int (length xs) < n)" for n and xs :: "nat list"
    using that by (simp add: slice_at_Panic)
  then show ?thesis
    by (auto simp: doUse_def Let_def slice_at_Panic slice_at_Ret split: list.splits sum.splits go.splits option.splits)
qed

lemma Dispatch_panic_target:
  "Dispatch E ctx c w = Panic \<longleftrightarrow>
   (\<exists>a port idx. indexed_target c = Some a \<and> ParsePortIdx a = Inr (port, idx) \<and> idx < 0
      \<and> ByPort (e_ord_sess E) port (n_store w) \<noteq> [])"
  by (cases "cmd_verb c = ''kill''"; cases "cmd_verb c = ''send''"; cases "cmd_verb c = ''read''")
     (auto simp: Dispatch_def Let_def doKill_panic doSend_panic doRead_panic other_panic indexed_target_def
        split: list.splits)

lemma verbs_no_target:
  "cmd_verb c = ''exit'' \<Longrightarrow> indexed_target c = None"
  by (simp add: indexed_target_def Let_def)

text \<open>
  C15. The shell panics exactly on a line of the menu whose command is \<open>use\<close>, \<open>kill\<close>, \<open>send\<close>
  or \<open>read\<close> with a negative index on a port that has a live connection. No other input, in
  the menu or in a session, can make it panic.
\<close>

theorem repl_panic_iff:
  "repl_step E inp r = Panic \<longleftrightarrow>
   (\<exists>line a port idx. inp = RLine line \<and> rp_mode r = Menu \<and> menu_target line = Some a
      \<and> ParsePortIdx a = Inr (port, idx) \<and> idx < 0
      \<and> ByPort (e_ord_sess E) port (n_store (rp_world r)) \<noteq> [])"
proof (cases "rp_mode r = Menu \<and> (\<exists>line. inp = RLine line)")
  case False
  then show ?thesis
    by (auto simp: repl_step_def menu_step_def split: mode.splits rl_input.splits)
next
  case True
  then obtain line where m: "rp_mode r = Menu" and inp: "inp = RLine line" by blast
  define c where "c = Parse line False"
  have step: "repl_step E inp r = menu_step E (RLine line) r" using m inp by (simp add: repl_step_def)
  show ?thesis
  proof (cases "cmd_kind c = CmdTool \<and> cmd_verb c \<noteq> ''exit''")
    case False
    then have "menu_step E (RLine line) r \<noteq> Panic"
      by (cases "cmd_kind c") (auto simp: menu_step_def Let_def c_def)
    moreover have "menu_target line = None"
      using False verbs_no_target [of c] by (auto simp: menu_target_def Let_def c_def)
    ultimately show ?thesis using step inp by simp
  next
    case True
    show ?thesis
    proof (cases "cmd_verb c = ''use''")
      case use: True
      then have "repl_step E inp r = doUse E (cmd_args c) r"
        unfolding step using True by (simp add: menu_step_def Let_def flip: c_def)
      moreover have "menu_target line = (case cmd_args c of a # _ \<Rightarrow> Some a | [] \<Rightarrow> None)"
        using True use by (simp add: menu_target_def Let_def flip: c_def)
      ultimately show ?thesis
        using m inp by (auto simp: doUse_panic split: list.splits)
    next
      case False
      then have "menu_step E (RLine line) r = Panic \<longleftrightarrow> Dispatch E (rp_ctx r) c (rp_world r) = Panic"
        using True by (auto simp: menu_step_def Let_def simp flip: c_def split: go.splits)
      moreover have "menu_target line = indexed_target c"
        using True False by (simp add: menu_target_def Let_def flip: c_def)
      ultimately show ?thesis
        using m step unfolding inp by (simp add: Dispatch_panic_target)
    qed
  qed
qed

end
