(* ===== verification/Forward_Pipe.thy ===== *)
theory Forward_Pipe
  imports Forward_Model "HOL-Library.Sublist"
begin

text \<open>
  One forwarded connection: \<open>handle\<close> of \<open>internal/forward/forwarder.go\<close> and of
  \<open>internal/forward/proxy.go\<close>. The two copying goroutines, the two peers and the
  cancellation of the context are the steps of a relation. A direction records what its
  peer has sent so far, how much of it the copy loop has read, and what has been written to
  the other side; a proxy also records what its \<open>TeeReader\<close> handed to the log.
\<close>

section \<open>The log writer\<close>

text \<open>\<open>logWriter.Write\<close>: the line appended to the log, and the count it returns.\<close>

definition logWriter_Write :: "string \<Rightarrow> string \<Rightarrow> string \<times> nat" where
  "logWriter_Write tag p = (tag @ '' '' @ go_quote p @ nl, length p)"

definition proxy_tag :: "rule \<Rightarrow> string \<Rightarrow> string" where
  "proxy_tag r peer = ''[proxy :'' @ itoa (r_LocalPort r) @ '' '' @ peer @ '']''"

lemma hex_digit_not_nl: "d < 16 \<Longrightarrow> hex_digit d \<noteq> CHR 0x0A"
proof -
  assume d: "d < 16"
  have "(of_char (hex_digit d) :: nat) = (if d < 10 then 48 + d else 87 + d)"
    using d by (simp add: hex_digit_def of_char_of)
  then have "(of_char (hex_digit d) :: nat) \<noteq> of_char (CHR 0x0A)" by (simp split: if_splits)
  then show ?thesis by metis
qed

lemma quote_char_no_nl: "CHR 0x0A \<notin> set (quote_char c)"
proof -
  have n: "(of_char c :: nat) < 256" by simp
  have "hex_digit (of_char c div 16) \<noteq> CHR 0x0A"
    by (rule hex_digit_not_nl) (rule less_mult_imp_div_less, use n in simp)
  moreover have "hex_digit (of_char c mod 16) \<noteq> CHR 0x0A"
    by (rule hex_digit_not_nl) simp
  ultimately show ?thesis by (auto simp: quote_char_def Let_def)
qed

lemma go_quote_no_nl: "CHR 0x0A \<notin> set (go_quote s)"
  using quote_char_no_nl by (auto simp: go_quote_def)

section \<open>A direction of a connection\<close>

record dir =
  d_sent :: string
  d_eof :: bool
  d_pos :: nat
  d_dst :: string
  d_log :: "string list"
  d_run :: bool
  d_count :: "64 word"

definition dir_new :: dir where
  "dir_new = \<lparr>d_sent = [], d_eof = False, d_pos = 0, d_dst = [], d_log = [], d_run = True, d_count = 0\<rparr>"

text \<open>
  A turn of \<open>io.Copy\<close>: \<open>k\<close> bytes were read (and teed into the log by a proxy), \<open>n\<close> of them
  written.
\<close>

definition copy_turn :: "bool \<Rightarrow> nat \<Rightarrow> nat \<Rightarrow> dir \<Rightarrow> dir" where
  "copy_turn tee k n d =
     (let chunk = take k (drop (d_pos d) (d_sent d)) in
      d\<lparr>d_pos := d_pos d + length chunk,
        d_dst := d_dst d @ take n chunk,
        d_log := (if tee then d_log d @ [chunk] else d_log d)\<rparr>)"

text \<open>What follows the copy loop in its goroutine: the counters, then \<open>closeAll\<close>.\<close>

definition copy_end :: "dir \<Rightarrow> dir" where
  "copy_end d = d\<lparr>d_run := False, d_count := d_count d + of_nat (length (d_dst d))\<rparr>"

record pipe =
  pi_tee :: bool
  pi_ctx :: ctx
  pi_lr :: dir
  pi_rl :: dir
  pi_done :: bool

text \<open>
  \<open>handle\<close> up to the start of the two goroutines: the dial fails when the context is done
  or the network says so, and then there is no pipe.
\<close>

definition handle :: "bool \<Rightarrow> ctx \<Rightarrow> 'a ctxs_scheme \<Rightarrow> string option \<Rightarrow> string + pipe" where
  "handle tee ctx cs dial =
     (if ctx_done cs ctx then Inl ''operation was canceled''
      else case dial of
             Some err \<Rightarrow> Inl err
           | None \<Rightarrow> Inr \<lparr>pi_tee = tee, pi_ctx = ctx, pi_lr = dir_new, pi_rl = dir_new, pi_done = False\<rparr>)"

lemmas pipe_defs = copy_turn_def copy_end_def dir_new_def Let_def

inductive dir_step :: "bool \<Rightarrow> bool \<Rightarrow> dir \<Rightarrow> dir \<Rightarrow> bool \<Rightarrow> bool" where
  peer_sends: "\<not> d_eof d \<Longrightarrow> dir_step tee isdone d (d\<lparr>d_sent := d_sent d @ s\<rparr>) isdone"
| peer_closes: "dir_step tee isdone d (d\<lparr>d_eof := True\<rparr>) isdone"
| copies: "d_run d \<Longrightarrow> \<not> isdone \<Longrightarrow> 0 < k \<Longrightarrow> d_pos d + k \<le> length (d_sent d) \<Longrightarrow>
    dir_step tee isdone d (copy_turn tee k k d) isdone"
| write_fails: "d_run d \<Longrightarrow> 0 < k \<Longrightarrow> d_pos d + k \<le> length (d_sent d) \<Longrightarrow> n < k \<Longrightarrow>
    dir_step tee isdone d (copy_end (copy_turn tee k n d)) True"
| read_ends: "d_run d \<Longrightarrow> isdone \<or> (d_eof d \<and> d_pos d = length (d_sent d)) \<Longrightarrow>
    dir_step tee isdone d (copy_end d) True"

inductive pipe_step :: "'a ctxs_scheme \<Rightarrow> pipe \<Rightarrow> pipe \<Rightarrow> bool" for cs :: "'a ctxs_scheme" where
  lr_step: "dir_step (pi_tee p) (pi_done p) (pi_lr p) d b \<Longrightarrow>
    pipe_step cs p (p\<lparr>pi_lr := d, pi_done := b\<rparr>)"
| rl_step: "dir_step (pi_tee p) (pi_done p) (pi_rl p) d b \<Longrightarrow>
    pipe_step cs p (p\<lparr>pi_rl := d, pi_done := b\<rparr>)"
| ctx_step: "ctx_done cs (pi_ctx p) \<Longrightarrow> pipe_step cs p (p\<lparr>pi_done := True\<rparr>)"

definition pipe_start :: "pipe \<Rightarrow> bool" where
  "pipe_start p \<longleftrightarrow> pi_lr p = dir_new \<and> pi_rl p = dir_new \<and> \<not> pi_done p"

section \<open>The invariant\<close>

text \<open>
  While a copy loop runs it has written exactly what it has read; afterwards it has written
  an initial part of it, and the counters hold the number of bytes written.
\<close>

definition dir_ok :: "bool \<Rightarrow> dir \<Rightarrow> bool" where
  "dir_ok tee d \<longleftrightarrow> d_pos d \<le> length (d_sent d)
     \<and> prefix (d_dst d) (take (d_pos d) (d_sent d))
     \<and> (d_run d \<longrightarrow> d_dst d = take (d_pos d) (d_sent d) \<and> d_count d = 0)
     \<and> (\<not> d_run d \<longrightarrow> d_count d = of_nat (length (d_dst d)))
     \<and> concat (d_log d) = (if tee then take (d_pos d) (d_sent d) else [])"

definition pipe_ok :: "pipe \<Rightarrow> bool" where
  "pipe_ok p \<longleftrightarrow> dir_ok (pi_tee p) (pi_lr p) \<and> dir_ok (pi_tee p) (pi_rl p)
     \<and> (\<not> d_run (pi_lr p) \<longrightarrow> pi_done p) \<and> (\<not> d_run (pi_rl p) \<longrightarrow> pi_done p)"

lemma dir_ok_new: "dir_ok tee dir_new"
  by (simp add: dir_ok_def dir_new_def)

lemma prefix_take_mono: "m \<le> n \<Longrightarrow> prefix (take m xs) (take n xs)"
  by (metis min.absorb1 take_is_prefix take_take)

lemma copy_turn_frame [simp]:
  "d_sent (copy_turn tee k n d) = d_sent d" "d_run (copy_turn tee k n d) = d_run d"
  "d_count (copy_turn tee k n d) = d_count d" "d_eof (copy_turn tee k n d) = d_eof d"
  by (simp_all add: copy_turn_def Let_def)

lemma dir_ok_turn:
  assumes ok: "dir_ok tee d" and run: "d_run d" and k: "d_pos d + k \<le> length (d_sent d)" "n \<le> k"
  shows "d_pos (copy_turn tee k n d) = d_pos d + k"
    and "d_dst (copy_turn tee k n d) = take (d_pos d + n) (d_sent d)"
    and "concat (d_log (copy_turn tee k n d)) = (if tee then take (d_pos d + k) (d_sent d) else [])"
proof -
  let ?chunk = "take k (drop (d_pos d) (d_sent d))"
  have "length ?chunk = k" using k(1) by simp
  then show "d_pos (copy_turn tee k n d) = d_pos d + k"
    unfolding copy_turn_def Let_def by (simp del: length_take)
  have "take n ?chunk = take n (drop (d_pos d) (d_sent d))"
    using k(2) by (simp add: min_def)
  then show "d_dst (copy_turn tee k n d) = take (d_pos d + n) (d_sent d)"
    using ok run by (simp add: dir_ok_def copy_turn_def Let_def take_add del: take_take)
  show "concat (d_log (copy_turn tee k n d)) = (if tee then take (d_pos d + k) (d_sent d) else [])"
    using ok by (simp add: dir_ok_def copy_turn_def Let_def take_add)
qed

lemma dir_step_ok: "dir_step tee isdone d d' b \<Longrightarrow> dir_ok tee d \<Longrightarrow> dir_ok tee d'"
proof (induction rule: dir_step.induct)
  case (copies d isdone k tee)
  have "d_count d = 0" using copies by (simp add: dir_ok_def)
  then show ?case
    unfolding dir_ok_def [of tee "copy_turn tee k k d"]
      dir_ok_turn [OF copies.prems copies.hyps(1,4) order_refl]
    using copies.hyps by simp
next
  case (write_fails d k n tee isdone)
  have n: "n \<le> k" and c: "d_count d = 0" using write_fails by (simp_all add: dir_ok_def)
  note turn = dir_ok_turn [OF write_fails.prems write_fails.hyps(1,3) n]
  have "prefix (take (d_pos d + n) (d_sent d)) (take (d_pos d + k) (d_sent d))"
    using n by (intro prefix_take_mono) simp
  moreover define e where "e = copy_end (copy_turn tee k n d)"
  have "d_pos (copy_end (copy_turn tee k n d)) = d_pos d + k"
    "d_dst (copy_end (copy_turn tee k n d)) = take (d_pos d + n) (d_sent d)"
    "concat (d_log (copy_end (copy_turn tee k n d))) = (if tee then take (d_pos d + k) (d_sent d) else [])"
    "d_sent (copy_end (copy_turn tee k n d)) = d_sent d" "\<not> d_run (copy_end (copy_turn tee k n d))"
    "d_count (copy_end (copy_turn tee k n d)) = of_nat (length (take (d_pos d + n) (d_sent d)))"
    using turn c by (simp_all add: copy_end_def)
  ultimately show ?case
    using write_fails.hyps(3) unfolding e_def [symmetric] dir_ok_def [of tee e] by simp
qed (auto simp: dir_ok_def copy_end_def)

lemma dir_step_done: "dir_step tee isdone d d' b \<Longrightarrow> (isdone \<longrightarrow> b) \<and> (d_run d \<and> \<not> d_run d' \<longrightarrow> b)"
  by (induction rule: dir_step.induct) (simp_all add: copy_turn_def Let_def)

lemma dir_step_run: "dir_step tee isdone d d' b \<Longrightarrow> d_run d' \<Longrightarrow> d_run d"
  by (induction rule: dir_step.induct) (simp_all add: copy_end_def)

lemma pipe_step_ok: "pipe_step cs p q \<Longrightarrow> pipe_ok p \<Longrightarrow> pipe_ok q"
proof (induction rule: pipe_step.induct)
  case (lr_step p d b)
  then show ?case
    using dir_step_ok [OF lr_step(1)] dir_step_done [OF lr_step(1)] by (auto simp: pipe_ok_def)
next
  case (rl_step p d b)
  then show ?case
    using dir_step_ok [OF rl_step(1)] dir_step_done [OF rl_step(1)] by (auto simp: pipe_ok_def)
next
  case (ctx_step p)
  then show ?case by (simp add: pipe_ok_def)
qed

lemma pipe_ok_start: "pipe_start p \<Longrightarrow> pipe_ok p"
  by (simp add: pipe_start_def pipe_ok_def dir_ok_new) (simp add: dir_new_def)

interpretation pipe: inductive_invariant pipe_start "pipe_step cs" pipe_ok
  by unfold_locales (auto intro: pipe_ok_start pipe_step_ok)

section \<open>After the first direction has ended\<close>

lemma dir_step_frozen: "dir_step tee True d d' b \<Longrightarrow> \<not> d_run d \<Longrightarrow> d_dst d' = d_dst d \<and> \<not> d_run d'"
  by (induction tee "True" d d' b rule: dir_step.induct) simp_all

lemma dir_step_prefix:
  "dir_step tee isdone d d' b \<Longrightarrow> prefix (d_sent d) (d_sent d') \<and> prefix (d_dst d) (d_dst d')"
  by (induction rule: dir_step.induct) (simp_all add: copy_turn_def copy_end_def Let_def)

end
