(* ===== verification/Server_Props.thy ===== *)
theory Server_Props
  imports Server_Model Exit_Props Forward_Pipe
begin

text \<open>
  Properties of the server (\<open>internal/server/server.go\<close>): the token it starts with, the
  answers it gives, the bounds of its channels, its panics, and what is left of its state
  when a client goes away.
\<close>

section \<open>The token\<close>

text \<open>
  A server never starts with an invalid token, given or generated, and its key is the
  digest of exactly that token; a valid token is used as it is given.
\<close>

theorem server_New_token:
  assumes "draws_ok draw" and "server_New sha256 draw cfg bnd token = Inr s"
  shows "ValidateToken (sv_token s) = None \<and> sv_key s = sha256 (sv_token s)
    \<and> (token \<noteq> [] \<longrightarrow> sv_token s = token) \<and> sv_bind s = bnd
    \<and> (\<forall>p. \<not> IsOpen (sv_world s) p \<and> \<not> fm_present (sv_world s, w_fwd (sv_world s)) p)"
proof -
  have "ValidateToken (sv_token s) = None"
    using assms token_bytes_ok [OF assms(1)]
    by (auto simp: server_New_def Let_def GenerateToken_def ValidateToken_None tokenLen_def
        split: if_splits sum.splits option.splits)
  moreover have "sv_key s = sha256 (sv_token s) \<and> (token \<noteq> [] \<longrightarrow> sv_token s = token) \<and> sv_bind s = bnd
      \<and> sv_world s = world_init cfg"
    using assms(2)
    by (auto simp: server_New_def Let_def TokenToKey_def split: if_splits sum.splits option.splits)
  ultimately show ?thesis
    by (simp add: world_init_def net.extend_def net_init_def IsOpen_def fm_present_def fm_NewManager_def)
qed

theorem server_New_token_witness:
  "\<exists>s. server_New (\<lambda>t. t) (\<lambda>i. Inr (i mod 62)) defaultConfig '':9000'' (replicate 32 CHR ''k'') = Inr s
     \<and> sv_token s = replicate 32 CHR ''k'' \<and> ValidateToken (sv_token s) = None"
proof -
  have v: "ValidateToken (replicate 32 CHR ''k'') = None"
    by (simp add: ValidateToken_None token_char_def)
  then obtain s where s: "server_New (\<lambda>t. t) (\<lambda>i. Inr (i mod 62)) defaultConfig '':9000'' (replicate 32 CHR ''k'') = Inr s"
    by (simp add: server_New_def Let_def)
  have "draws_ok (\<lambda>i. Inr (i mod 62))" by (auto simp: draws_ok_def tokenCharset_ok)
  from server_New_token [OF this s] s show ?thesis by auto
qed

section \<open>Answers\<close>

lemma sv_send_simps [simp]:
  "sv_pending (sv_send t x s) = sv_pending s @ [(t, x)]" "sv_sent (sv_send t x s) = sv_sent s"
  "sv_mode (sv_send t x s) = sv_mode s" "sv_outCh (sv_send t x s) = sv_outCh s"
  "sv_cmds (sv_send t x s) = sv_cmds s" "sv_pumps (sv_send t x s) = sv_pumps s"
  "sv_world (sv_send t x s) = sv_world s" "sv_cmds_closed (sv_send t x s) = sv_cmds_closed s"
  by (simp_all add: sv_send_def)

lemma sv_upd_sess_simps [simp]:
  "sv_pending (sv_upd_sess a f s) = sv_pending s" "sv_sent (sv_upd_sess a f s) = sv_sent s"
  "sv_mode (sv_upd_sess a f s) = sv_mode s" "sv_outCh (sv_upd_sess a f s) = sv_outCh s"
  "sv_cmds (sv_upd_sess a f s) = sv_cmds s" "sv_pumps (sv_upd_sess a f s) = sv_pumps s"
  by (simp_all add: sv_upd_sess_def)

lemma start_session_simps [simp]:
  "sv_pending (start_session a i s) = sv_pending s @ [(FrameSessionStart, session_start_payload (sv_sess s a) i)]"
  "sv_sent (start_session a i s) = sv_sent s" "sv_outCh (start_session a i s) = sv_outCh s"
  "sv_cmds (start_session a i s) = sv_cmds s"
  "sv_mode (start_session a i s) = SvSession a (length (sv_pumps s))"
  "length (sv_pumps (start_session a i s)) = Suc (length (sv_pumps s))"
  by (simp_all add: start_session_def Let_def)

lemma serveSession_answers:
  assumes "serveSession E args s = Ret s'"
  shows "\<exists>typ text. sv_pending s' = sv_pending s @ [(typ, text)]
      \<and> (typ = FrameResponse \<and> sv_mode s' = sv_mode s \<and> sv_pumps s' = sv_pumps s
         \<or> typ = FrameSessionStart \<and> (\<exists>a. sv_mode s' = SvSession a (length (sv_pumps s)))
            \<and> length (sv_pumps s') = Suc (length (sv_pumps s)))"
    and "sv_sent s' = sv_sent s" "sv_outCh s' = sv_outCh s" "sv_cmds s' = sv_cmds s"
  using assms
  by (auto simp: serveSession_def Let_def split: list.splits sum.splits if_splits go.splits)

text \<open>A line of the menu whose answer is the empty text, for which the server sends no frame.\<close>

definition silent_line :: "env \<Rightarrow> string \<Rightarrow> server \<Rightarrow> bool" where
  "silent_line E line s \<longleftrightarrow>
     (let c = Parse line False in
      (cmd_kind c = CmdSystem \<and> RunSystem E (hd (cmd_args c)) = []) \<or>
      (cmd_kind c = CmdTool \<and> (\<exists>w. Dispatch E (sv_ctx s) c (sv_world s) = Ret ([], w))))"

text \<open>
  C26. Every line that a client sends to the menu, and that is not blank, is answered by
  exactly one frame: a response, the start of a session, or the farewell after which the
  client is served no more. The one exception is a command whose output is empty: it gets no
  answer.
\<close>

theorem menu_line_answers:
  assumes "sv_mode s = SvMenu" and "trim_space line \<noteq> []" and "menu_line E line s = Ret s'"
  shows "(\<exists>text. sv_pending s' = sv_pending s @ [(FrameResponse, text)] \<and> sv_mode s' = SvMenu \<and> sv_sent s' = sv_sent s)
    \<or> (\<exists>text a. sv_pending s' = sv_pending s @ [(FrameSessionStart, text)]
          \<and> sv_mode s' = SvSession a (length (sv_pumps s)) \<and> sv_sent s' = sv_sent s)
    \<or> (sv_pending s' = sv_pending s \<and> sv_sent s' = sv_sent s @ [(FrameResponse, ''Bye.'')] \<and> sv_mode s' = SvDone)
    \<or> (silent_line E line s \<and> sv_pending s' = sv_pending s \<and> sv_sent s' = sv_sent s \<and> sv_mode s' = SvMenu)"
proof -
  define c where "c = Parse line False"
  have ne: "line \<noteq> []" using assms(2) by (auto simp: trim_space_Nil_iff)
  have nonempty: "cmd_kind c \<noteq> CmdEmpty"
    using assms(2) Parse_empty_iff [of line False] by (simp add: c_def trim_space_Nil_iff)
  have notpass: "cmd_kind c \<noteq> CmdPassthrough" unfolding c_def by (rule Parse_menu_not_passthrough)
  have bye: "sv_pending (say_bye s) = sv_pending s" "sv_mode (say_bye s) = SvDone"
      "sv_sent (say_bye s) = sv_sent s @ [(FrameResponse, ''Bye.'')]"
    by (simp_all add: say_bye_def endClient_def)
  have resp: "respond t s1 = (if t \<noteq> [] then sv_send FrameResponse t s1 else s1)" for t s1
    by (simp add: respond_def)
  note body = assms(3) [unfolded menu_line_def Let_def c_def [symmetric]]
  show ?thesis
  proof (cases "cmd_kind c")
    case CmdTool
    show ?thesis
    proof (cases "cmd_verb c = ''use''")
      case True
      then have "serveSession E (cmd_args c) s = Ret s'" using body ne CmdTool by simp
      then show ?thesis using serveSession_answers [of E "cmd_args c" s s'] assms(1) by auto
    next
      case False
      show ?thesis
      proof (cases "cmd_verb c = ''exit''")
        case True
        with body ne CmdTool bye show ?thesis by auto
      next
        case exit: False
        then obtain t w where d: "Dispatch E (sv_ctx s) c (sv_world s) = Ret (t, w)"
          and s': "s' = respond t (s\<lparr>sv_world := w\<rparr>)"
          using body ne CmdTool False by (auto split: go.splits)
        then have "t = [] \<Longrightarrow> silent_line E line s"
          using CmdTool by (auto simp: silent_line_def Let_def c_def)
        with s' assms(1) show ?thesis by (auto simp: resp)
      qed
    qed
  next
    case CmdSystem
    then have s': "s' = respond (RunSystem E (hd (cmd_args c))) s" using body ne by simp
    moreover have "RunSystem E (hd (cmd_args c)) = [] \<Longrightarrow> silent_line E line s"
      using CmdSystem by (simp add: silent_line_def Let_def c_def)
    ultimately show ?thesis using assms(1) by (auto simp: resp)
  next
    case CmdSpecial
    with body ne bye assms(1) show ?thesis
      by (auto simp: resp special_text_def split: if_splits)
  qed (use nonempty notpass in simp_all)
qed

definition menu_server :: server where
  "menu_server = \<lparr>sv_world = busy_world, sv_cfg = defaultConfig, sv_bind = [], sv_key = [], sv_token = [],
     sv_ctx = [0], sv_mode = SvMenu, sv_cmds = [], sv_cmds_closed = False, sv_pending = [],
     sv_outCh = [], sv_sent = [], sv_pumps = [], sv_writing = True,
     sv_forwarding = True, sv_evPending = None\<rparr>"

lemma parse_help: "Parse ''help'' False = \<lparr>cmd_kind = CmdTool, cmd_verb = ''help'', cmd_args = [], cmd_raw = ''help''\<rparr>"
  by code_simp

lemma menu_help: "menu_line plain_env ''help'' menu_server
    = Ret (respond (helpGeneral plain_env) (menu_server\<lparr>sv_world := busy_world\<rparr>))"
  by (simp add: menu_line_def parse_help Dispatch_def doHelp_def menu_server_def)

theorem menu_line_answers_witness:
  "\<exists>s'. menu_line plain_env ''help'' menu_server = Ret s'
     \<and> (\<exists>text. sv_pending s' = [(FrameResponse, text)])"
proof -
  have "trim_space ''help'' \<noteq> []" by code_simp
  moreover have "helpGeneral plain_env \<noteq> []" by (simp add: helpGeneral_def nl_def)
  then have "\<not> silent_line plain_env ''help'' menu_server"
    by (simp add: silent_line_def parse_help Dispatch_def doHelp_def Let_def)
  moreover have "sv_mode (respond t (menu_server\<lparr>sv_world := w\<rparr>)) = SvMenu" for t w
    by (simp add: respond_def menu_server_def)
  ultimately show ?thesis
    using menu_line_answers [OF _ _ menu_help] by (fastforce simp: menu_server_def menu_help [unfolded menu_server_def])
qed

section \<open>When the client goes away\<close>

lemma endClient_world: "sv_world (endClient s) = cancel (sv_ctx s) (sv_world s)"
  by (simp add: endClient_def)

text \<open>
  C33. What a disconnect keeps and what it ends. The tables survive: every session, every
  open port and every entry of the forwards is as before. But a listener opened for the
  client runs under the client's context, which is done from then on, so the watchers of its
  connections may return without having reported a death; and a forward opened for the
  client, although it is still in the table, refuses every connection, whatever the network
  answers. The comment of \<open>serveClient\<close> says that all state persists.
\<close>

theorem disconnect_ends_forwards:
  assumes "sv_ctx s \<noteq> []"
    and "fm_Open (E, sv_ctx s, host, rport) p (w0, w_fwd w0) = Inr (w1, m)"
    and "lm_Open (E, sv_ctx s, lhost) port (w1\<lparr>w_fwd := m\<rparr>) = Inr w2"
    and "s1 = s\<lparr>sv_world := w2\<rparr>"
  shows "n_store (sv_world (endClient s1)) = n_store w2
    \<and> n_listeners (sv_world (endClient s1)) = n_listeners w2 \<and> w_fwd (sv_world (endClient s1)) = w_fwd w2
    \<and> IsOpen (sv_world (endClient s1)) port
    \<and> (\<forall>l. lm_Get (sv_world (endClient s1)) port = Some l \<longrightarrow> ctx_done (sv_world (endClient s1)) (l_ctx l))
    \<and> (\<exists>e f. fm_Get (w_fwd (sv_world (endClient s1))) p = Some e \<and> en_fwd e = Some f
        \<and> (\<forall>tee dial. handle tee (f_ctx f) (sv_world (endClient s1)) dial = Inl ''operation was canceled''))"
proof -
  obtain i ctx' where ctx: "sv_ctx s = i # ctx'" using assms(1) by (cases "sv_ctx s") auto
  have w: "sv_world (endClient s1) = cancel (sv_ctx s) w2"
    by (simp add: endClient_world assms(4))
  have kept: "w_fwd (cancel (sv_ctx s) w2) = w_fwd w2" by (simp add: ctx cancel_def)
  have m: "w_fwd w2 = m" using lm_Open_fwd [OF assms(3)] by simp
  obtain e f where e: "fm_entries m p = Some e" "en_fwd e = Some f" "f_ctx f = cx_next w0 # sv_ctx s"
    using assms(2) by (auto simp: fm_Open_Inr Let_def)
  have "ctx_done (cancel (sv_ctx s) w2) (f_ctx f)"
    by (simp add: e ctx ctx_done_def cancel_def)
  then have "\<forall>tee dial. handle tee (f_ctx f) (sv_world (endClient s1)) dial = Inl ''operation was canceled''"
    by (simp add: handle_def w)
  moreover have "ctx_done (cancel (sv_ctx s) w2) (l_ctx l)" if "lm_Get (cancel (sv_ctx s) w2) port = Some l" for l
    using that assms(3) by (auto simp: lm_Open_Inr lm_Get_def ctx ctx_done_def cancel_def dest!: Start_Inr)
  ultimately show ?thesis
    using lt.open_adds [OF assms(3), of port] e m by (auto simp: w kept fm_Get_def IsOpen_def)
qed

theorem disconnect_ends_forwards_witness:
  "\<exists>w1 m w2. fm_Open (plain_env, [0], ''10.0.0.1'', 22) 8022 (empty_world\<lparr>cx_next := 1\<rparr>, w_fwd empty_world) = Inr (w1, m)
     \<and> lm_Open (plain_env, [0], []) 80 (w1\<lparr>w_fwd := m\<rparr>) = Inr w2
     \<and> IsOpen (sv_world (endClient (menu_server\<lparr>sv_world := w2\<rparr>))) 80"
proof -
  obtain w1 m where f: "fm_Open (plain_env, [0], ''10.0.0.1'', 22) 8022 (empty_world\<lparr>cx_next := 1\<rparr>, w_fwd empty_world) = Inr (w1, m)"
    and l1: "n_listeners w1 = Map.empty"
    by (simp add: fm_Open_Inr plain_env_def empty_world_def net.extend_def fm_NewManager_def net_init_def)
  obtain w2 where l: "lm_Open (plain_env, [0], []) 80 (w1\<lparr>w_fwd := m\<rparr>) = Inr w2"
    using l1 by (simp add: lm_Open_def Start_def resolveHost_def plain_env_def with_cancel_def Let_def)
  have "sv_ctx menu_server = [0]" by (simp add: menu_server_def)
  then show ?thesis
    using disconnect_ends_forwards [of menu_server plain_env "''10.0.0.1''" 22 8022 "empty_world\<lparr>cx_next := 1\<rparr>" w1 m "[]" 80 w2] f l
    by auto
qed

section \<open>Panics\<close>

lemma serveSession_panic:
  "serveSession E args s = Panic \<longleftrightarrow>
   (\<exists>a rest p i. args = a # rest \<and> ParsePortIdx a = Inr (p, i) \<and> i < 0
      \<and> ByPort (e_ord_sess E) p (n_store (sv_world s)) \<noteq> [])"
  by (auto simp: serveSession_def Let_def slice_at_Panic slice_at_Ret split: list.splits sum.splits go.splits)

text \<open>
  C14. A client can crash the server with one line: the main loop panics exactly on a command
  of \<open>use\<close>, \<open>kill\<close>, \<open>send\<close> or \<open>read\<close> with a negative index on a port that has a live
  connection. There is no recovery, so every listener and session of the server is lost.
\<close>

theorem server_panic_iff:
  "menu_line E line s = Panic \<longleftrightarrow>
   (\<exists>a port idx. menu_target line = Some a \<and> ParsePortIdx a = Inr (port, idx) \<and> idx < 0
      \<and> ByPort (e_ord_sess E) port (n_store (sv_world s)) \<noteq> [])"
proof (cases "line = []")
  case True
  have "cmd_kind (Parse [] False) = CmdEmpty" by (simp add: Parse_empty_iff)
  with True show ?thesis by (simp add: menu_line_def menu_target_def Let_def)
next
  case ne: False
  define c where "c = Parse line False"
  show ?thesis
  proof (cases "cmd_kind c = CmdTool \<and> cmd_verb c \<noteq> ''exit''")
    case False
    then have "menu_line E line s \<noteq> Panic"
      by (cases "cmd_kind c") (auto simp: menu_line_def Let_def c_def)
    moreover have "menu_target line = None"
      using False verbs_no_target [of c] by (auto simp: menu_target_def Let_def c_def)
    ultimately show ?thesis by simp
  next
    case tool: True
    show ?thesis
    proof (cases "cmd_verb c = ''use''")
      case True
      then have "menu_line E line s = serveSession E (cmd_args c) s"
        using tool ne by (simp add: menu_line_def Let_def flip: c_def)
      moreover have "menu_target line = (case cmd_args c of a # _ \<Rightarrow> Some a | [] \<Rightarrow> None)"
        using True tool by (simp add: menu_target_def Let_def flip: c_def)
      ultimately show ?thesis by (auto simp: serveSession_panic split: list.splits)
    next
      case False
      then have "menu_line E line s = Panic \<longleftrightarrow> Dispatch E (sv_ctx s) c (sv_world s) = Panic"
        using tool ne by (auto simp: menu_line_def Let_def simp flip: c_def split: go.splits)
      moreover have "menu_target line = indexed_target c"
        using tool False by (simp add: menu_target_def Let_def flip: c_def)
      ultimately show ?thesis by (simp add: Dispatch_panic_target)
    qed
  qed
qed

end
