(* ===== verification/Server_Steps.thy ===== *)
theory Server_Steps
  imports Server_Props
begin

text \<open>
  The goroutines that serve one client (\<open>serveClient\<close> and \<open>serveSession\<close> of
  \<open>internal/server/server.go\<close>) as a step relation: its invariant, the bounds of the channels,
  the order of the frames, and the state in which the server serves nobody any more.
\<close>

section \<open>Channels\<close>

text \<open>
  The interleavings of the goroutines of one served client; the last rule stands for the
  goroutines of the listeners, sessions and forwards, which change the world in between and
  never cancel the client's context.
\<close>

inductive srv_step :: "env \<Rightarrow> server \<Rightarrow> server \<Rightarrow> bool" for E :: env where
  reader: "reader_step b frame s = Some s' \<Longrightarrow> srv_step E s s'"
| writer: "writer_step b fails s = Some s' \<Longrightarrow> srv_step E s s'"
| flush: "flush_step s = Some s' \<Longrightarrow> srv_step E s s'"
| events: "event_forward b s = Some s' \<Longrightarrow> srv_step E s s'"
| pump: "k < length (sv_pumps s) \<Longrightarrow> pump_step b k s = Some s' \<Longrightarrow> srv_step E s s'"
| main: "main_step E b s = Some (Ret s') \<Longrightarrow> srv_step E s s'"
| world: "ctx_done w (sv_ctx s) = sv_done s \<Longrightarrow> srv_step E s (s\<lparr>sv_world := w\<rparr>)"

inductive_cases srv_stepE: "srv_step E s s'"

definition srv_start :: "server \<Rightarrow> bool" where
  "srv_start s \<longleftrightarrow> (\<exists>s0. s = serveClient s0)"

definition srv_inv :: "server \<Rightarrow> bool" where
  "srv_inv s \<longleftrightarrow> length (sv_outCh s) \<le> out_cap \<and> length (sv_cmds s) \<le> cmd_cap
     \<and> (\<forall>a k. sv_mode s = SvSession a k \<longrightarrow> k < length (sv_pumps s))"

lemma push_out_inv: "push_out m s = Some s' \<Longrightarrow> srv_inv s \<Longrightarrow> srv_inv s'"
  by (auto simp: srv_inv_def push_out_def split: if_splits)

lemma srv_inv_frame: "srv_inv (s\<lparr>sv_pending := p\<rparr>) = srv_inv s" "srv_inv (s\<lparr>sv_world := w\<rparr>) = srv_inv s"
  "srv_inv (sv_upd_sess a f s) = srv_inv s" "srv_inv (sv_send t x s) = srv_inv s"
  by (simp_all add: srv_inv_def)

lemma srv_inv_pumps: "srv_inv s \<Longrightarrow> srv_inv (s\<lparr>sv_pumps := (sv_pumps s)[k := p]\<rparr>)"
  by (simp add: srv_inv_def)

lemma pump_step_inv: "srv_inv s \<Longrightarrow> pump_step b k s = Some s' \<Longrightarrow> srv_inv s'"
proof (cases "px_pending (sv_pumps s ! k)")
  case (Cons m ms)
  assume "srv_inv s" "pump_step b k s = Some s'"
  then show ?thesis
    using Cons
    by (auto simp: pump_step_def Let_def intro!: srv_inv_pumps elim: push_out_inv split: if_splits)
next
  case Nil
  assume inv: "srv_inv s" and st: "pump_step b k s = Some s'"
  obtain data x1 where d: "DrainRxBuf (sv_sess s (px_session (sv_pumps s ! k))) = (data, x1)" by force
  have "\<exists>p. s' = (sv_upd_sess (px_session (sv_pumps s ! k)) (\<lambda>_. x1) s)\<lparr>sv_pumps :=
      (sv_pumps (sv_upd_sess (px_session (sv_pumps s ! k)) (\<lambda>_. x1) s))[k := p]\<rparr>"
    using Nil st unfolding pump_step_def Let_def d by (auto split: if_splits)
  then show ?thesis using inv srv_inv_pumps srv_inv_frame(3) by blast
qed

lemma end_session_inv: "srv_inv s \<Longrightarrow> srv_inv (end_session a s)"
  by (simp add: srv_inv_def end_session_def Let_def)

lemma set_exit_inv: "srv_inv s \<Longrightarrow> srv_inv (set_exit k s)"
  by (simp add: set_exit_def srv_inv_pumps)

lemma session_line_inv: "srv_inv s \<Longrightarrow> srv_inv (session_line E a k line s)"
  by (auto simp: session_line_def Let_def srv_inv_frame intro!: end_session_inv set_exit_inv
      split: option.split)

lemma menu_line_inv:
  assumes "srv_inv s" "menu_line E line s = Ret s'" "sv_mode s = SvMenu"
  shows "srv_inv s'"
proof (cases "serveSession E (cmd_args (Parse line False)) s = Ret s'")
  case True
  then show ?thesis using assms serveSession_answers [OF True] by (auto simp: srv_inv_def)
next
  case False
  then show ?thesis
    using assms
    by (auto simp: menu_line_def Let_def respond_def srv_inv_frame say_bye_def endClient_def
        split: if_splits cmd_kind.splits go.splits)
       (simp_all add: srv_inv_def)
qed

lemma main_step_inv: "srv_inv s \<Longrightarrow> main_step E b s = Some (Ret s') \<Longrightarrow> srv_inv s'"
proof -
  assume inv: "srv_inv s" and st: "main_step E b s = Some (Ret s')"
  have tl: "srv_inv (s\<lparr>sv_cmds := rest\<rparr>)" if "sv_cmds s = line # rest" for line rest
    using inv that by (simp add: srv_inv_def)
  show ?thesis
  proof (cases "sv_mode s")
    case SvMenu
    show ?thesis
    proof (cases "sv_cmds s")
      case Nil
      then have "s' = endClient s" using st SvMenu by (simp add: main_step_def split: if_splits)
      with inv show ?thesis by (simp add: endClient_def srv_inv_def)
    next
      case (Cons line rest)
      then have "menu_line E line (s\<lparr>sv_cmds := rest\<rparr>) = Ret s'"
        using st SvMenu by (simp add: main_step_def split: if_splits)
      then show ?thesis by (rule menu_line_inv [OF tl [OF Cons]]) (simp add: SvMenu)
    qed
  next
    case (SvSession a k)
    have "(\<exists>line rest. sv_cmds s = line # rest \<and> s' = session_line E a k line (s\<lparr>sv_cmds := rest\<rparr>))
        \<or> s' = end_session a (set_exit k s) \<or> s' = end_session a s"
      using st SvSession by (cases "sv_cmds s") (auto simp: main_step_def split: if_splits)
    then show ?thesis
      using tl inv end_session_inv set_exit_inv session_line_inv by blast
  next
    case SvDone
    then show ?thesis using st by (simp add: main_step_def split: if_splits)
  qed
qed

lemma event_forward_inv: "srv_inv s \<Longrightarrow> event_forward b s = Some s' \<Longrightarrow> srv_inv s'"
  by (auto simp: event_forward_def Let_def srv_inv_def push_out_def split: list.splits option.splits if_splits)

lemma srv_step_inv: "srv_inv s \<Longrightarrow> srv_step E s s' \<Longrightarrow> srv_inv s'"
proof (erule srv_stepE, goal_cases)
  case (1 b frame)
  then show ?case
    by (auto simp: reader_step_def srv_inv_def split: if_splits option.splits)
next
  case (2 b fails)
  then show ?case by (auto simp: writer_step_def srv_inv_def split: if_splits list.splits)
next
  case 3
  then show ?case by (auto simp: flush_step_def srv_inv_frame elim: push_out_inv split: list.splits)
next
  case (4 b)
  then show ?case using event_forward_inv by blast
next
  case (5 k b)
  then show ?case using pump_step_inv by blast
next
  case (6 b)
  then show ?case using main_step_inv by blast
qed (simp add: srv_inv_frame)

interpretation srv: inductive_invariant srv_start "srv_step E" srv_inv
proof
  show "srv_inv s" if "srv_start s" for s
    using that by (auto simp: srv_start_def serveClient_def with_cancel_def srv_inv_def)
qed (rule srv_step_inv)

text \<open>
  While a client is served, under every interleaving of the server's goroutines, at most
  64 frames wait to be sent and at most 8 commands to be run, and the session a client is
  attached to has its pump.
\<close>

theorem server_channels_bounded:
  assumes "reach srv_start (srv_step E) s"
  shows "length (sv_outCh s) \<le> 64 \<and> length (sv_cmds s) \<le> 8
    \<and> (\<forall>a k. sv_mode s = SvSession a k \<longrightarrow> k < length (sv_pumps s))"
  using srv.reach_inv [OF assms] by (simp add: srv_inv_def out_cap_def cmd_cap_def)

theorem server_channels_bounded_witness:
  "length (sv_cmds ((serveClient menu_server)\<lparr>sv_cmds := [''help'']\<rparr>)) \<le> 8"
proof -
  have "reader_step False (Some ''help'') (serveClient menu_server) = Some ((serveClient menu_server)\<lparr>sv_cmds := [''help'']\<rparr>)"
    by (simp add: reader_step_def serveClient_def with_cancel_def cmd_cap_def trim_right_def)
  then have st: "srv_step plain_env (serveClient menu_server) ((serveClient menu_server)\<lparr>sv_cmds := [''help'']\<rparr>)"
    by (rule srv_step.reader)
  have "reach srv_start (srv_step plain_env) (serveClient menu_server)"
    by (rule reach_start) (auto simp: srv_start_def)
  then have "reach srv_start (srv_step plain_env) ((serveClient menu_server)\<lparr>sv_cmds := [''help'']\<rparr>)"
    using st by (rule reach_step)
  from server_channels_bounded [OF this] show ?thesis by (elim conjE)
qed

section \<open>A server that serves nobody\<close>

text \<open>
  The writer has returned, the channel to it is full, and the main goroutine has a message to
  send.
\<close>

definition wedged :: "server \<Rightarrow> bool" where
  "wedged s \<longleftrightarrow> \<not> sv_writing s \<and> length (sv_outCh s) = out_cap \<and> sv_pending s \<noteq> [] \<and> \<not> sv_done s"

lemma sv_done_frame [simp]:
  "sv_done (s\<lparr>sv_cmds := c\<rparr>) = sv_done s" "sv_done (s\<lparr>sv_outCh := o'\<rparr>) = sv_done s"
  "sv_done (s\<lparr>sv_pending := p\<rparr>) = sv_done s" "sv_done (s\<lparr>sv_pumps := q\<rparr>) = sv_done s"
  "sv_done (s\<lparr>sv_cmds_closed := b\<rparr>) = sv_done s" "sv_done (s\<lparr>sv_writing := b\<rparr>) = sv_done s"
  "sv_done (s\<lparr>sv_evPending := e\<rparr>) = sv_done s" "sv_done (sv_upd_sess a f s) = sv_done s"
  by (simp_all add: sv_done_def ctx_done_def sv_upd_sess_def)

lemma take_event_done: "take_event w = Some w' \<Longrightarrow> ctx_done w' c = ctx_done w c"
  by (auto simp: take_event_def Let_def ctx_done_def split: list.splits prod.splits EventType.splits option.splits)

lemma event_forward_frame:
  "event_forward b s = Some t \<Longrightarrow> \<not> sv_done s \<Longrightarrow>
   \<not> sv_done t \<and> sv_mode t = sv_mode s \<and> sv_pending t = sv_pending s \<and> sv_sent t = sv_sent s
     \<and> sv_writing t = sv_writing s \<and> (length (sv_outCh s) = out_cap \<longrightarrow> sv_outCh t = sv_outCh s)"
  by (auto simp: event_forward_def push_out_def Let_def sv_done_def take_event_done
      split: if_splits option.splits list.splits)

lemma pump_step_frame:
  assumes "pump_step b k s = Some t" "\<not> sv_done s"
  shows "\<not> sv_done t \<and> sv_mode t = sv_mode s \<and> sv_pending t = sv_pending s \<and> sv_sent t = sv_sent s
     \<and> sv_writing t = sv_writing s \<and> (length (sv_outCh s) = out_cap \<longrightarrow> sv_outCh t = sv_outCh s)"
proof (cases "px_pending (sv_pumps s ! k)")
  case (Cons m ms)
  then show ?thesis using assms by (auto simp: pump_step_def push_out_def Let_def split: if_splits)
next
  case Nil
  obtain data x1 where d: "DrainRxBuf (sv_sess s (px_session (sv_pumps s ! k))) = (data, x1)" by force
  then obtain q where "t = (sv_upd_sess (px_session (sv_pumps s ! k)) (\<lambda>_. x1) s)\<lparr>sv_pumps := q\<rparr>"
    using Nil assms(1) unfolding pump_step_def Let_def d by (auto split: if_splits)
  with assms(2) show ?thesis by simp (simp add: sv_upd_sess_def)
qed

lemma wedged_step:
  assumes "wedged s" "srv_step E s t"
  shows "wedged t \<and> sv_mode t = sv_mode s \<and> sv_pending t = sv_pending s \<and> sv_sent t = sv_sent s"
  using assms(2)
proof cases
  case (reader b frame)
  then show ?thesis using assms(1) by (auto simp: wedged_def reader_step_def split: option.splits if_splits)
next
  case (writer b fails)
  then show ?thesis using assms(1) by (simp add: wedged_def writer_step_def)
next
  case flush
  then show ?thesis using assms(1) by (auto simp: wedged_def flush_step_def push_out_def split: list.splits)
next
  case (events b)
  then show ?thesis using assms(1) event_forward_frame [OF events] by (simp add: wedged_def)
next
  case (pump k b)
  then show ?thesis using assms(1) pump_step_frame [OF pump(2)] by (simp add: wedged_def)
next
  case (main b)
  then show ?thesis using assms(1) by (simp add: wedged_def main_step_def)
next
  case (world w)
  then show ?thesis using assms(1) by (simp add: wedged_def) (simp add: sv_done_def)
qed

lemma wedged_forever:
  "(srv_step E)\<^sup>*\<^sup>* s t \<Longrightarrow> wedged s \<Longrightarrow>
   wedged t \<and> sv_mode t = sv_mode s \<and> sv_pending t = sv_pending s \<and> sv_sent t = sv_sent s"
  by (induction rule: rtranclp_induct) (auto dest: wedged_step)

text \<open>A menu that has nothing to do, and one more \<open>help\<close> for it.\<close>

definition idle :: "env \<Rightarrow> server \<Rightarrow> bool" where
  "idle E s \<longleftrightarrow> reach srv_start (srv_step E) s \<and> sv_mode s = SvMenu \<and> sv_pending s = [] \<and> sv_cmds s = []
     \<and> \<not> sv_cmds_closed s \<and> \<not> sv_done s"

lemma helpGeneral_nonempty: "helpGeneral E \<noteq> []"
  by (simp add: helpGeneral_def nl_def)

lemma help_asked:
  assumes "idle E s"
  shows "reach srv_start (srv_step E) (sv_send FrameResponse (helpGeneral E) s)"
proof -
  let ?s1 = "s\<lparr>sv_cmds := [''help'']\<rparr>"
  have "reader_step False (Some ''help'') s = Some ?s1"
    using assms by (simp add: idle_def reader_step_def cmd_cap_def trim_right_def)
  then have "reach srv_start (srv_step E) ?s1"
    using assms by (auto simp: idle_def intro: reach_step srv_step.reader)
  moreover have "main_step E False ?s1 = Some (Ret (sv_send FrameResponse (helpGeneral E) s))"
    using assms helpGeneral_nonempty [of E]
    by (simp add: idle_def main_step_def menu_line_def parse_help Dispatch_def doHelp_def respond_def sv_send_def)
  ultimately show ?thesis by (auto intro: reach_step srv_step.main)
qed

lemma help_queued:
  assumes "idle E s" "length (sv_outCh s) < out_cap"
  shows "idle E (s\<lparr>sv_outCh := sv_outCh s @ [(FrameResponse, helpGeneral E)]\<rparr>)"
proof -
  have "flush_step (sv_send FrameResponse (helpGeneral E) s)
      = Some (s\<lparr>sv_outCh := sv_outCh s @ [(FrameResponse, helpGeneral E)]\<rparr>)"
    using assms by (simp add: flush_step_def push_out_def idle_def sv_send_def)
  then show ?thesis
    using help_asked [OF assms(1)] assms(1)
    by (auto simp: idle_def intro: reach_step srv_step.flush)
qed

lemma idle_start: "idle E (serveClient menu_server)"
proof -
  have "reach srv_start (srv_step E) (serveClient menu_server)"
    by (rule reach_start) (auto simp: srv_start_def)
  moreover have "\<not> sv_done (serveClient menu_server)"
    by (simp add: sv_done_def serveClient_def with_cancel_def menu_server_def ctx_done_def
        busy_world_def empty_world_def net.extend_def net_init_def)
  ultimately show ?thesis by (simp add: idle_def serveClient_def with_cancel_def)
qed

lemma idle_full:
  "n \<le> out_cap \<Longrightarrow> \<exists>s. idle E s \<and> \<not> sv_writing s \<and> length (sv_outCh s) = n"
proof (induction n)
  case 0
  let ?s0 = "serveClient menu_server"
  let ?s1 = "?s0\<lparr>sv_outCh := sv_outCh ?s0 @ [(FrameResponse, helpGeneral E)]\<rparr>"
  have out: "sv_outCh ?s0 = []" "sv_writing ?s0" by (simp_all add: serveClient_def with_cancel_def)
  then have i: "idle E ?s1" using help_queued [OF idle_start] by (simp add: out_cap_def)
  have "writer_step False True ?s1 = Some (?s1\<lparr>sv_outCh := [], sv_writing := False\<rparr>)"
    using out by (simp add: writer_step_def)
  then have "idle E (?s1\<lparr>sv_outCh := [], sv_writing := False\<rparr>)"
    using i by (auto simp: idle_def intro: reach_step srv_step.writer)
  then show ?case by (intro exI conjI) auto
next
  case (Suc n)
  then obtain s where "idle E s" "\<not> sv_writing s" "length (sv_outCh s) = n" by auto
  with help_queued [of E s] Suc.prems show ?case
    by (intro exI [of _ "s\<lparr>sv_outCh := sv_outCh s @ [(FrameResponse, helpGeneral E)]\<rparr>"]) simp
qed

lemma wedge_reachable: "\<exists>s. reach srv_start (srv_step E) s \<and> sv_mode s = SvMenu \<and> wedged s"
proof -
  obtain s where s: "idle E s" "\<not> sv_writing s" "length (sv_outCh s) = out_cap"
    using idle_full [of out_cap E] by blast
  let ?t = "sv_send FrameResponse (helpGeneral E) s"
  have "wedged ?t"
    using s by (simp add: wedged_def idle_def) (simp add: sv_send_def sv_done_def)
  moreover have "sv_mode ?t = SvMenu" using s(1) by (simp add: idle_def)
  ultimately show ?thesis using help_asked [OF s(1)] by blast
qed

end
