(* ===== verification/Answer_Props.thy ===== *)
theory Answer_Props
  imports Dispatch_Props
begin

text \<open>
  Every command of the dispatcher answers: no command of \<open>internal/console/dispatcher.go\<close>
  returns the empty text, provided the terminal library does not render a text to nothing.
\<close>

text \<open>What is assumed of \<open>Style.Render\<close>: a text is not rendered to nothing.\<close>

definition renders :: "env \<Rightarrow> bool" where
  "renders E \<longleftrightarrow> (\<forall>st x. x \<noteq> [] \<longrightarrow> e_render E st x \<noteq> [])"

lemma ui_speaks: "renders E \<Longrightarrow> ui_Errorf E m \<noteq> []" "renders E \<Longrightarrow> ui_Warnf E m \<noteq> []"
  by (auto simp: renders_def ui_Errorf_def ui_Warnf_def)

lemma nl_nonempty: "nl \<noteq> []" by (simp add: nl_def)

lemma views_speak: "RenderPorts E ps \<noteq> []" "RenderSessions E ss \<noteq> []" "RenderForwards E es \<noteq> []"
  by (simp_all add: RenderPorts_def RenderSessions_def RenderForwards_def Let_def nl_nonempty)

lemma help_speaks: "helpGeneral E \<noteq> []" "helpFor E v \<noteq> []"
  by (simp_all add: helpGeneral_def helpFor_def Let_def nl_nonempty)

lemma info_speaks: "info_text E s \<noteq> []"
  by (simp add: info_text_def nl_nonempty)

lemma rendered: "renders E \<Longrightarrow> x \<noteq> [] \<Longrightarrow> e_render E st x \<noteq> []"
  by (simp add: renders_def)

lemma doOpen_speaks: "renders E \<Longrightarrow> doOpen E ctx args w = Ret (out, w') \<Longrightarrow> out \<noteq> []"
  by (auto simp: doOpen_def Let_def ui_speaks rendered split: list.splits option.splits if_splits sum.splits)

lemma doClose_speaks: "renders E \<Longrightarrow> doClose E ctx args w = Ret (out, w') \<Longrightarrow> out \<noteq> []"
  by (auto simp: doClose_def Let_def ui_speaks rendered split: list.splits option.splits if_splits sum.splits)

lemma kill_speaks: "renders E \<Longrightarrow> fst (kill_targets f p ts E w) \<noteq> []"
  by (simp add: kill_targets_def rendered)

lemma doKill_speaks: "renders E \<Longrightarrow> doKill E ctx args w = Ret (out, w') \<Longrightarrow> out \<noteq> []"
  using kill_speaks [of E]
  by (auto simp: doKill_def Let_def ui_speaks split: list.splits if_splits sum.splits go.splits) (metis fst_conv)+

lemma doList_speaks: "renders E \<Longrightarrow> doList E ctx args w = Ret (out, w') \<Longrightarrow> out \<noteq> []"
  by (auto simp: doList_def Let_def ui_speaks views_speak renderPorts_def nl_nonempty split: if_splits)

lemma doInfo_speaks: "renders E \<Longrightarrow> doInfo E ctx args w = Ret (out, w') \<Longrightarrow> out \<noteq> []"
  by (auto simp: doInfo_def Let_def ui_speaks info_speaks split: list.splits if_splits sum.splits go.splits)

lemma doLog_speaks: "renders E \<Longrightarrow> doLog E ctx args w = Ret (out, w') \<Longrightarrow> out \<noteq> []"
  by (auto simp: doLog_def ui_speaks split: if_splits)

lemma close_speaks: "renders E \<Longrightarrow> fwd_close u x E ctx args w = Ret (out, w') \<Longrightarrow> out \<noteq> []"
  by (auto simp: fwd_close_def ui_speaks rendered split: list.splits option.splits sum.splits prod.splits)

lemma doFwd_speaks: "renders E \<Longrightarrow> doFwd E ctx args w = Ret (out, w') \<Longrightarrow> out \<noteq> []"
  by (auto simp: doFwd_def ui_speaks rendered views_speak close_speaks
      split: list.splits option.splits sum.splits prod.splits if_splits)

lemma log_speaks: "renders E \<Longrightarrow> proxy_log E ctx args w = Ret (out, w') \<Longrightarrow> out \<noteq> []"
  by (auto simp: proxy_log_def ui_speaks rendered split: list.splits option.splits sum.splits prod.splits)

lemma doProxy_speaks: "renders E \<Longrightarrow> doProxy E ctx args w = Ret (out, w') \<Longrightarrow> out \<noteq> []"
  by (auto simp: doProxy_def Let_def ui_speaks rendered views_speak close_speaks log_speaks
      split: list.splits option.splits sum.splits prod.splits if_splits)

lemma doSend_speaks: "renders E \<Longrightarrow> doSend E ctx args w = Ret (out, w') \<Longrightarrow> out \<noteq> []"
  by (auto simp: doSend_def Let_def ui_speaks rendered
      split: list.splits option.splits sum.splits prod.splits if_splits go.splits)

lemma doRead_speaks: "renders E \<Longrightarrow> doRead E ctx args w = Ret (out, w') \<Longrightarrow> out \<noteq> []"
  by (auto simp: doRead_def Let_def ReadBuffered_def ui_speaks rendered
      split: list.splits option.splits sum.splits prod.splits if_splits go.splits)

lemma Dispatch_speaks:
  assumes "renders E" and "Dispatch E ctx c w = Ret (out, w')"
  shows "out \<noteq> []"
  using assms(2) unfolding Dispatch_def Let_def
  by (auto simp: doHelp_def help_speaks ui_speaks [OF assms(1)] clear_text_def
      dest: doOpen_speaks [OF assms(1)] doClose_speaks [OF assms(1)] doKill_speaks [OF assms(1)]
        doList_speaks [OF assms(1)] doInfo_speaks [OF assms(1)] doLog_speaks [OF assms(1)]
        doFwd_speaks [OF assms(1)] doProxy_speaks [OF assms(1)] doSend_speaks [OF assms(1)]
        doRead_speaks [OF assms(1)]
      split: if_splits list.splits)

end
