(* ===== verification/Client_Model.thy ===== *)
theory Client_Model
  imports Ui_Model Proto_Model
begin

text \<open>
  The client, \<open>internal/client/client.go\<close>. \<open>Run\<close> is a loop whose goroutine is, at any time,
  at a prompt (of the menu or of a session) or waiting in a \<open>select\<close> for the reader goroutine;
  the modes name these places. Frames are plaintexts, as in \<open>Server_Model\<close>: \<open>cl_sent\<close> lists
  those the client has sent, and the reader goroutine receives type bytes and payloads.
\<close>

datatype cl_input = ClLine string | ClInterrupt | ClEOF | ClErr string

datatype cl_mode =
    ClMenu
  | ClWait string
  | ClWaitUse
  | ClSession
  | ClWaitLeave string
  | ClReturned "string option"

record client =
  cl_mode :: cl_mode
  cl_prompt :: string
  cl_sent :: "string list"
  cl_out :: string
  cl_err :: string
  cl_reading :: bool
  cl_eventCh :: "string list"
  cl_responseCh :: "string list"
  cl_sessionStartCh :: "string list"
  cl_readErrCh :: "string list"

definition cl_println :: "string \<Rightarrow> client \<Rightarrow> client" where
  "cl_println s c = c\<lparr>cl_out := cl_out c @ s @ nl\<rparr>"

definition client_prompt :: string where "client_prompt = ''tcpsh> ''"

datatype client_error =
    ConnectFailed string string
  | AuthenticationFailed proto_error
  | ReadlineFailed string

definition squote :: string where "squote = [CHR 0x27]"

definition connected_text :: "string \<Rightarrow> string" where
  "connected_text addr = ''  Connected to tcpsh server at '' @ addr @ nl
     @ ''  Type '' @ squote @ ''help'' @ squote @ '' for commands. Type '' @ squote @ ''exit'' @ squote @ '' or ''
     @ squote @ ''+exit'' @ squote @ '' to disconnect.'' @ nl @ nl"

text \<open>
  \<open>Run\<close> up to its loop: \<open>dial\<close> and \<open>rl\<close> are the errors of the connection and of the line
  editor. The reader keeps what the handshake left buffered (third result).
\<close>

definition client_Run ::
  "aead \<Rightarrow> (string \<Rightarrow> string) \<Rightarrow> string + string \<Rightarrow> string option \<Rightarrow> string option \<Rightarrow> wire \<Rightarrow> reader
    \<Rightarrow> string \<Rightarrow> string \<Rightarrow> client_error + client \<times> wire \<times> reader" where
  "client_Run A sha256 nonce_draw dial rl w br addr token =
     (case dial of
        Some err \<Rightarrow> Inl (ConnectFailed addr err)
      | None \<Rightarrow>
          (case SendHandshake A nonce_draw w br (TokenToKey sha256 token) of
             (w1, br1, Some err) \<Rightarrow> Inl (AuthenticationFailed err)
           | (w1, br1, None) \<Rightarrow>
               (case rl of
                  Some err \<Rightarrow> Inl (ReadlineFailed err)
                | None \<Rightarrow>
                    Inr (\<lparr>cl_mode = ClMenu, cl_prompt = client_prompt, cl_sent = [],
                          cl_out = connected_text addr, cl_err = [], cl_reading = True,
                          cl_eventCh = [], cl_responseCh = [], cl_sessionStartCh = [],
                          cl_readErrCh = []\<rparr>, w1, br1))))"

section \<open>The goroutines\<close>

definition event_cap :: nat where "event_cap = 32"
definition response_cap :: nat where "response_cap = 1"
definition session_start_cap :: nat where "session_start_cap = 1"

text \<open>
  A turn of the reader goroutine, for the result of \<open>ReadTypedFrame\<close>. \<open>None\<close>: it blocks on
  a full channel, or has returned.
\<close>

definition client_reader :: "string + char \<times> string \<Rightarrow> client \<Rightarrow> client option" where
  "client_reader res c =
     (if \<not> cl_reading c then None
      else case res of
        Inl err \<Rightarrow> Some (c\<lparr>cl_readErrCh := cl_readErrCh c @ [err], cl_reading := False\<rparr>)
      | Inr (typ, payload) \<Rightarrow>
          if typ = FrameEvent
          then (if length (cl_eventCh c) < event_cap
                then Some (c\<lparr>cl_eventCh := cl_eventCh c @ [payload]\<rparr>) else None)
          else if typ = FrameSessionStart
          then (if length (cl_sessionStartCh c) < session_start_cap
                then Some (c\<lparr>cl_sessionStartCh := cl_sessionStartCh c @ [payload]\<rparr>) else None)
          else (if length (cl_responseCh c) < response_cap
                then Some (c\<lparr>cl_responseCh := cl_responseCh c @ [payload]\<rparr>) else None))"

definition client_event :: "client \<Rightarrow> client option" where
  "client_event c =
     (case cl_eventCh c of
        [] \<Rightarrow> None
      | msg # msgs \<Rightarrow> Some (cl_println msg (c\<lparr>cl_eventCh := msgs\<rparr>)))"

section \<open>The loop\<close>

text \<open>\<open>strings.Contains\<close>\<close>

fun contains :: "string \<Rightarrow> string \<Rightarrow> bool" where
  "contains [] t \<longleftrightarrow> t = []"
| "contains (c # cs) t \<longleftrightarrow> has_prefix (c # cs) t \<or> contains cs t"

definition isClosedErr :: "string option \<Rightarrow> bool" where
  "isClosedErr err =
     (case err of
        None \<Rightarrow> False
      | Some s \<Rightarrow> contains s ''use of closed'' \<or> contains s ''EOF'' \<or> contains s ''connection reset'')"

text \<open>
  An error of the reader ends \<open>Run\<close>. The text of \<open>io.EOF\<close> contains \<open>EOF\<close>, so the test
  against that error adds nothing to \<open>isClosedErr\<close>.
\<close>

definition disconnected :: "string \<Rightarrow> client \<Rightarrow> client" where
  "disconnected err c =
     (if \<not> isClosedErr (Some err)
      then c\<lparr>cl_err := cl_err c @ nl @ ''  [!] Server disconnected: '' @ err @ nl\<rparr>
      else cl_println (nl @ ''  [!] Server disconnected.'') c)"

definition cl_send :: "(string \<Rightarrow> string option) \<Rightarrow> string \<Rightarrow> cl_mode \<Rightarrow> client \<Rightarrow> client" where
  "cl_send wr frame next_mode c =
     (case wr frame of
        Some err \<Rightarrow> c\<lparr>cl_mode := ClReturned (Some (''client: send: '' @ err))\<rparr>
      | None \<Rightarrow> c\<lparr>cl_sent := cl_sent c @ [frame], cl_mode := next_mode\<rparr>)"

definition client_tip :: string where
  "client_tip = ''  [Tip: use '' @ squote @ ''exit'' @ squote @ '' or '' @ squote @ ''+exit'' @ squote @ '' to disconnect]''"

definition client_menu :: "(string \<Rightarrow> string option) \<Rightarrow> cl_input \<Rightarrow> client \<Rightarrow> client" where
  "client_menu wr inp c =
     (case inp of
        ClInterrupt \<Rightarrow> cl_println client_tip c
      | ClEOF \<Rightarrow> c\<lparr>cl_mode := ClReturned None\<rparr>
      | ClErr err \<Rightarrow> c\<lparr>cl_mode := ClReturned (Some err)\<rparr>
      | ClLine line \<Rightarrow>
          let trimmed = trim_space line in
          if trimmed = [] then c
          else
            (let fs = str_fields trimmed in
             cl_send wr trimmed
               (if fs \<noteq> [] \<and> to_lower (hd fs) = ''use'' then ClWaitUse else ClWait trimmed) c))"

definition leave_words :: "string list" where
  "leave_words = [''+back'', ''+bg'', ''+background'', ''+exit'', ''exit'']"

definition client_session_tip :: string where
  "client_session_tip = ''  [Use '' @ squote @ ''+back'' @ squote @ '' to return to menu, '' @ squote @ ''+exit'' @ squote
     @ '' to quit]''"

definition client_session :: "(string \<Rightarrow> string option) \<Rightarrow> cl_input \<Rightarrow> client \<Rightarrow> client" where
  "client_session wr inp c =
     (case inp of
        ClInterrupt \<Rightarrow> cl_println client_session_tip c
      | ClEOF \<Rightarrow> c\<lparr>cl_mode := ClMenu\<rparr>
      | ClErr _ \<Rightarrow> c\<lparr>cl_mode := ClMenu\<rparr>
      | ClLine sline \<Rightarrow>
          let t = trim_space sline;
              strimmed = (if t = [] then nl else t)
          in cl_send wr strimmed
               (if trim_space strimmed \<in> set leave_words then ClWaitLeave (trim_space strimmed)
                else ClSession) c)"

text \<open>The three channels a \<open>select\<close> may take its case from.\<close>

datatype sel = SelStart | SelResponse | SelErr

definition take_response :: "client \<Rightarrow> (string \<times> client) option" where
  "take_response c =
     (case cl_responseCh c of [] \<Rightarrow> None | r # rs \<Rightarrow> Some (r, c\<lparr>cl_responseCh := rs\<rparr>))"

definition take_err :: "client \<Rightarrow> (string \<times> client) option" where
  "take_err c = (case cl_readErrCh c of [] \<Rightarrow> None | e # es \<Rightarrow> Some (e, c\<lparr>cl_readErrCh := es\<rparr>))"

definition client_enter :: "string \<Rightarrow> client \<Rightarrow> client go" where
  "client_enter info c =
     (let parts = splitn info CHR '':'' 3;
          sessionPrompt = (if 2 \<le> length parts
             then ''['' @ parts ! 0 @ '':'' @ parts ! 1 @ '']> '' else client_prompt);
          remote = (if 3 \<le> length parts then parts ! 2 else [])
      in if length parts < 2 then Panic
         else Ret ((cl_println (''  Entering session '' @ parts ! 0 @ '':'' @ parts ! 1 @ '' ('' @ remote
                     @ ''). Type '' @ squote @ ''+back'' @ squote @ '' to return, '' @ squote @ ''+bg'' @ squote
                     @ '' to background, '' @ squote @ ''+exit'' @ squote @ '' to quit.'') c)
                    \<lparr>cl_prompt := sessionPrompt, cl_mode := ClSession\<rparr>))"

definition client_wait :: "sel \<Rightarrow> client \<Rightarrow> client go option" where
  "client_wait which c =
     (case (cl_mode c, which) of
        (ClWait trimmed, SelResponse) \<Rightarrow>
          map_option (\<lambda>(r, c1).
              Ret ((cl_println r c1)\<lparr>cl_mode :=
                (if to_lower trimmed = ''exit'' \<or> to_lower trimmed = ''+exit''
                 then ClReturned None else ClMenu)\<rparr>)) (take_response c)
      | (ClWait trimmed, SelErr) \<Rightarrow>
          map_option (\<lambda>(e, c1). Ret ((disconnected e c1)\<lparr>cl_mode := ClReturned None\<rparr>)) (take_err c)
      | (ClWaitUse, SelStart) \<Rightarrow>
          (case cl_sessionStartCh c of
             [] \<Rightarrow> None
           | info # infos \<Rightarrow> Some (client_enter info (c\<lparr>cl_sessionStartCh := infos\<rparr>)))
      | (ClWaitUse, SelResponse) \<Rightarrow>
          map_option (\<lambda>(r, c1). Ret ((cl_println r c1)\<lparr>cl_mode := ClMenu\<rparr>)) (take_response c)
      | (ClWaitUse, SelErr) \<Rightarrow>
          map_option (\<lambda>(e, c1). Ret ((disconnected e c1)\<lparr>cl_mode := ClReturned None\<rparr>)) (take_err c)
      | (ClWaitLeave word, SelResponse) \<Rightarrow>
          map_option (\<lambda>(r, c1).
              Ret ((cl_println r c1)\<lparr>cl_prompt := client_prompt,
                cl_mode := (if word = ''+exit'' \<or> word = ''exit'' then ClReturned None else ClMenu)\<rparr>))
            (take_response c)
      | (ClWaitLeave word, SelErr) \<Rightarrow>
          map_option (\<lambda>(e, c1).
              Ret ((cl_println (nl @ ''  [!] Server disconnected.'') c1)\<lparr>cl_mode := ClReturned None\<rparr>))
            (take_err c)
      | _ \<Rightarrow> None)"

definition client_step :: "(string \<Rightarrow> string option) \<Rightarrow> cl_input \<Rightarrow> client \<Rightarrow> client option" where
  "client_step wr inp c =
     (case cl_mode c of
        ClMenu \<Rightarrow> Some (client_menu wr inp c)
      | ClSession \<Rightarrow> Some (client_session wr inp c)
      | _ \<Rightarrow> None)"

end
