(* ===== verification/Conversation.thy ===== *)
theory Conversation
  imports Server_Steps Answer_Props Client_Model
begin

text \<open>
  Client and server together: \<open>internal/client/client.go\<close> against \<open>internal/server/server.go\<close>,
  with the two byte streams between them as lists of frames (\<open>Proto_Model\<close> shows that framing
  and encryption carry such lists unchanged). The conversations looked at here stay in the
  menus: the user types commands other than \<open>use\<close>, \<open>exit\<close> and \<open>!\<close>, while events of the listeners
  arrive at any time.
\<close>

section \<open>Lines that ask for one response\<close>

definition asks :: "string \<Rightarrow> bool" where
  "asks line \<longleftrightarrow>
     (let c = Parse line False in
      (cmd_kind c = CmdTool \<and> cmd_verb c \<noteq> ''use'' \<and> cmd_verb c \<noteq> ''exit'') \<or>
      (cmd_kind c = CmdSpecial \<and> cmd_verb c \<noteq> ''+exit''))"

lemma asks_trim: "asks (trim_space line) = asks line"
  by (simp add: asks_def Parse_trim)

lemma asks_nonempty: "asks line \<Longrightarrow> trim_space line \<noteq> []"
  using Parse_empty_iff [of line False] by (auto simp: asks_def Let_def trim_space_Nil_iff)

lemma lower_fixed: "to_lower t = ''exit'' \<or> to_lower t = ''+exit'' \<Longrightarrow> \<forall>c\<in>set t. \<not> is_space c"
proof
  fix c assume "to_lower t = ''exit'' \<or> to_lower t = ''+exit''" "c \<in> set t"
  then have "lower_char c \<in> set ''+exit''" by (auto simp: to_lower_def dest: arg_cong [where f = set])
  moreover have "lower_char c = c" if "is_space c"
    using that by (auto simp: is_space_def lower_char_def)
  ultimately show "\<not> is_space c" by (auto simp: is_space_def)
qed

lemma lower_char_plus: "lower_char c = CHR ''+'' \<Longrightarrow> c = CHR ''+''"
  by (rule lower_char_eq) simp_all

lemma asks_not_exit: "asks t \<Longrightarrow> to_lower t \<noteq> ''exit'' \<and> to_lower t \<noteq> ''+exit''"
proof (rule ccontr)
  assume a: "asks t" and "\<not> (to_lower t \<noteq> ''exit'' \<and> to_lower t \<noteq> ''+exit'')"
  then have e: "to_lower t = ''exit'' \<or> to_lower t = ''+exit''" by simp
  have nosp: "\<forall>c\<in>set t. \<not> is_space c" using e by (rule lower_fixed)
  have ne: "t \<noteq> []" using e by (auto simp: to_lower_def)
  have f: "str_fields t = [t]" using ne nosp by (rule str_fields_last)
  have tr: "trim_space t = t"
    using ne nosp by (intro trim_space_trimmed) auto
  have "hd t \<noteq> CHR ''!''" using e ne by (cases t) (auto simp: to_lower_def lower_char_def)
  then have "cmd_kind (Parse t False) = CmdTool \<and> cmd_verb (Parse t False) = to_lower t
      \<or> cmd_kind (Parse t False) = CmdSpecial \<and> cmd_verb (Parse t False) = to_lower t \<and> hd t = CHR ''+''"
    using ne by (simp add: Parse_def Let_def tr f has_prefix_1 del: str_fields.simps)
  moreover have "to_lower t = ''+exit'' \<Longrightarrow> hd t = CHR ''+''"
    using ne by (cases t) (auto simp: to_lower_def lower_char_plus)
  moreover have "to_lower t = ''exit'' \<Longrightarrow> hd t \<noteq> CHR ''+''"
    using ne by (cases t) (auto simp: to_lower_def lower_char_def)
  ultimately show False
    using a e by (auto simp: asks_def Let_def Parse_def tr f has_prefix_1 ne split: if_splits
        simp del: str_fields.simps)
qed

lemma special_verb: "cmd_kind (Parse line m) = CmdSpecial \<Longrightarrow> cmd_verb (Parse line m) \<noteq> ''exit''"
proof
  assume a: "cmd_kind (Parse line m) = CmdSpecial" "cmd_verb (Parse line m) = ''exit''"
  then have "has_prefix (trim_space line) ''+''"
    and v: "to_lower (hd (str_fields (trim_space line))) = ''exit''"
    by (auto simp: Parse_def Let_def split: if_splits simp del: str_fields.simps)
  then obtain rest where t: "trim_space line = CHR ''+'' # rest"
    by (cases "trim_space line") (auto simp: has_prefix_1)
  have "\<not> is_space (CHR ''+'')" by (simp add: is_space_def)
  from lower_head [OF this, of rest] v show False
    by (auto simp: t lower_char_def simp del: str_fields.simps)
qed

lemma asks_not_use: "asks line \<Longrightarrow> to_lower (hd (str_fields (trim_space line))) \<noteq> ''use''"
proof
  assume a: "asks line" and u: "to_lower (hd (str_fields (trim_space line))) = ''use''"
  show False
  proof (cases "has_prefix (trim_space line) ''+'' \<or> has_prefix (trim_space line) ''!''")
    case False
    with a u asks_nonempty [OF a] show False
      by (auto simp: asks_def Parse_def Let_def tool_verbs_def simp del: str_fields.simps)
  next
    case True
    then obtain c rest where t: "trim_space line = c # rest" and c: "c = CHR ''+'' \<or> c = CHR ''!''"
      by (cases "trim_space line") (auto simp: has_prefix_1)
    then have "\<not> is_space c" by (auto simp: is_space_def)
    from lower_head [OF this, of rest] u c show False
      by (auto simp: t lower_char_def simp del: str_fields.simps)
  qed
qed

lemma trim_right_trimmed: "trim_right (trim_space line) [CHR 0x0D, CHR 0x0A] = trim_space line"
proof (cases "trim_space line = []")
  case False
  then have "\<not> is_space (last (trim_space line))" by (rule trim_space_last)
  then have "hd (rev (trim_space line)) \<notin> {CHR 0x0D, CHR 0x0A}"
    by (auto simp: hd_rev is_space_def)
  then show ?thesis
    using False by (cases "rev (trim_space line)") (auto simp: trim_right_def rev_swap)
qed (simp add: trim_right_def)

lemma menu_line_asked:
  assumes "renders E" and "asks line" and "menu_line E line s = Ret s'"
  shows "\<exists>text w. s' = sv_send FrameResponse text (s\<lparr>sv_world := w\<rparr>)"
proof -
  have ne: "line \<noteq> []" using asks_nonempty [OF assms(2)] by (auto simp: trim_space_Nil_iff)
  define c where "c = Parse line False"
  from assms(2) consider (tool) "cmd_kind c = CmdTool" "cmd_verb c \<noteq> ''use''" "cmd_verb c \<noteq> ''exit''"
    | (special) "cmd_kind c = CmdSpecial" "cmd_verb c \<noteq> ''+exit''"
    by (auto simp: asks_def Let_def c_def)
  then show ?thesis
  proof cases
    case tool
    then obtain out w where d: "Dispatch E (sv_ctx s) c (sv_world s) = Ret (out, w)"
      and s': "s' = respond out (s\<lparr>sv_world := w\<rparr>)"
      using assms(3) ne by (auto simp: menu_line_def Let_def simp flip: c_def split: go.splits)
    then show ?thesis using Dispatch_speaks [OF assms(1) d] by (auto simp: respond_def)
  next
    case special
    have "cmd_verb c \<noteq> ''exit''" using special(1) unfolding c_def by (rule special_verb)
    with special have "s' = sv_send FrameResponse special_text (s\<lparr>sv_world := sv_world s\<rparr>)"
      using assms(3) ne by (simp add: menu_line_def Let_def respond_def special_text_def flip: c_def)
    then show ?thesis by blast
  qed
qed

section \<open>The two ends and the streams between them\<close>

text \<open>
  \<open>cv_up\<close> and \<open>cv_down\<close> count the frames that the reader goroutines have taken off the two
  streams. Two lists record what happened: \<open>cv_served\<close> the lines the server has run, each with
  the answer it computed, and \<open>cv_shown\<close> the lines the user has typed, each with the text the
  client has printed for it.
\<close>

record conv =
  cv_server :: server
  cv_client :: client
  cv_up :: nat
  cv_down :: nat
  cv_served :: "(string \<times> string) list"
  cv_shown :: "(string \<times> string) list"

fun conv_input :: "cl_input \<Rightarrow> bool" where
  "conv_input (ClLine line) \<longleftrightarrow> trim_space line = [] \<or> asks line"
| "conv_input ClInterrupt \<longleftrightarrow> True"
| "conv_input _ \<longleftrightarrow> False"

inductive conv_step :: "env \<Rightarrow> conv \<Rightarrow> conv \<Rightarrow> bool" for E :: env where
  types: "conv_input inp \<Longrightarrow> client_step (\<lambda>_. None) inp (cv_client v) = Some c \<Longrightarrow>
    conv_step E v (v\<lparr>cv_client := c\<rparr>)"
| shows_answer: "cl_mode (cv_client v) = ClWait t \<Longrightarrow> cl_responseCh (cv_client v) = r # rs \<Longrightarrow>
    client_wait SelResponse (cv_client v) = Some (Ret c) \<Longrightarrow>
    conv_step E v (v\<lparr>cv_client := c, cv_shown := cv_shown v @ [(t, r)]\<rparr>)"
| prints_event: "client_event (cv_client v) = Some c \<Longrightarrow> conv_step E v (v\<lparr>cv_client := c\<rparr>)"
| receives: "cv_down v < length (sv_sent (cv_server v)) \<Longrightarrow>
    client_reader (Inr (sv_sent (cv_server v) ! cv_down v)) (cv_client v) = Some c \<Longrightarrow>
    conv_step E v (v\<lparr>cv_client := c, cv_down := Suc (cv_down v)\<rparr>)"
| takes: "cv_up v < length (cl_sent (cv_client v)) \<Longrightarrow>
    reader_step False (Some (cl_sent (cv_client v) ! cv_up v)) (cv_server v) = Some s \<Longrightarrow>
    conv_step E v (v\<lparr>cv_server := s, cv_up := Suc (cv_up v)\<rparr>)"
| runs: "sv_cmds (cv_server v) = line # rest \<Longrightarrow> main_step E False (cv_server v) = Some (Ret s) \<Longrightarrow>
    conv_step E v (v\<lparr>cv_server := s,
      cv_served := cv_served v @ map (\<lambda>m. (line, snd m)) (sv_pending s)\<rparr>)"
| flushes: "flush_step (cv_server v) = Some s \<Longrightarrow> conv_step E v (v\<lparr>cv_server := s\<rparr>)"
| writes: "writer_step False False (cv_server v) = Some s \<Longrightarrow> conv_step E v (v\<lparr>cv_server := s\<rparr>)"
| forwards: "event_forward False (cv_server v) = Some s \<Longrightarrow> conv_step E v (v\<lparr>cv_server := s\<rparr>)"
| world: "conv_step E v (v\<lparr>cv_server := (cv_server v)\<lparr>sv_world := w\<rparr>\<rparr>)"

definition conv_start :: "conv \<Rightarrow> bool" where
  "conv_start v \<longleftrightarrow> (\<exists>s0. cv_server v = serveClient s0) \<and> cl_mode (cv_client v) = ClMenu
     \<and> cl_sent (cv_client v) = [] \<and> cl_reading (cv_client v) \<and> cl_responseCh (cv_client v) = []
     \<and> cv_up v = 0 \<and> cv_down v = 0 \<and> cv_served v = [] \<and> cv_shown v = []"

section \<open>The invariant\<close>

text \<open>The answers on their way: in the server's hands, in its channel, on the stream.\<close>

definition answers :: "out_msg list \<Rightarrow> string list" where
  "answers ms = map snd (filter (\<lambda>m. fst m \<noteq> FrameEvent) ms)"

lemma answers_simps [simp]:
  "answers [] = []" "answers (m # ms) = (if fst m = FrameEvent then answers ms else snd m # answers ms)"
  "answers (ms @ ns) = answers ms @ answers ns"
  by (simp_all add: answers_def)

definition under_way :: "conv \<Rightarrow> string list" where
  "under_way v = answers (drop (cv_down v) (sv_sent (cv_server v)))
     @ answers (sv_outCh (cv_server v)) @ answers (sv_pending (cv_server v))"

definition menu_ok :: "conv \<Rightarrow> bool" where
  "menu_ok v \<longleftrightarrow> sv_mode (cv_server v) = SvMenu
     \<and> (\<forall>m\<in>set (sv_sent (cv_server v) @ sv_outCh (cv_server v) @ sv_pending (cv_server v)).
          fst m = FrameEvent \<or> fst m = FrameResponse)
     \<and> (\<forall>m. sv_evPending (cv_server v) = Some m \<longrightarrow> fst m = FrameEvent)
     \<and> cv_up v \<le> length (cl_sent (cv_client v)) \<and> cv_down v \<le> length (sv_sent (cv_server v))
     \<and> (\<forall>m\<in>set (sv_pending (cv_server v)). fst m = FrameResponse)
     \<and> sv_writing (cv_server v) \<and> \<not> sv_cmds_closed (cv_server v) \<and> cl_reading (cv_client v)"

definition talk :: "conv \<Rightarrow> string list \<times> string list \<times> string list \<times> string list" where
  "talk v = (drop (cv_up v) (cl_sent (cv_client v)), sv_cmds (cv_server v), under_way v,
     cl_responseCh (cv_client v))"

inductive phase :: "cl_mode \<Rightarrow> string list \<times> string list \<times> string list \<times> string list
    \<Rightarrow> (string \<times> string) list \<Rightarrow> (string \<times> string) list \<Rightarrow> bool" where
  resting: "phase ClMenu ([], [], [], []) shown shown"
| asked: "asks t \<Longrightarrow> trim_space t = t \<Longrightarrow> phase (ClWait t) ([t], [], [], []) shown shown"
| queued: "asks t \<Longrightarrow> trim_space t = t \<Longrightarrow> phase (ClWait t) ([], [t], [], []) shown shown"
| answered: "asks t \<Longrightarrow> trim_space t = t \<Longrightarrow> phase (ClWait t) ([], [], [x], []) shown (shown @ [(t, x)])"
| received: "asks t \<Longrightarrow> trim_space t = t \<Longrightarrow> phase (ClWait t) ([], [], [], [x]) shown (shown @ [(t, x)])"

inductive_cases phaseE: "phase m tk sh se"

definition conv_inv :: "conv \<Rightarrow> bool" where
  "conv_inv v \<longleftrightarrow> menu_ok v
     \<and> phase (cl_mode (cv_client v)) (talk v) (cv_shown v) (cv_served v)
     \<and> map fst (cv_served v) @ sv_cmds (cv_server v) @ drop (cv_up v) (cl_sent (cv_client v)) = cl_sent (cv_client v)"

lemma conv_start_inv: "conv_start v \<Longrightarrow> conv_inv v"
  by (auto simp: conv_start_def conv_inv_def menu_ok_def talk_def under_way_def serveClient_def
      with_cancel_def intro: phase.resting)

lemma inv_types:
  assumes inv: "conv_inv v" and inp: "conv_input inp" and st: "client_step (\<lambda>_. None) inp (cv_client v) = Some c"
  shows "conv_inv (v\<lparr>cv_client := c\<rparr>)"
proof -
  have m: "cl_mode (cv_client v) = ClMenu" "c = client_menu (\<lambda>_. None) inp (cv_client v)"
    using st inv by (auto simp: client_step_def conv_inv_def elim: phaseE split: cl_mode.splits)
  show ?thesis
  proof (cases "\<exists>line. inp = ClLine line \<and> trim_space line \<noteq> []")
    case False
    then have "c = cv_client v \<or> c = cl_println client_tip (cv_client v)"
      using inp m(2) by (cases inp) (auto simp: client_menu_def)
    then show ?thesis
      using inv by (auto simp: conv_inv_def menu_ok_def talk_def under_way_def cl_println_def)
  next
    case True
    then obtain line where line: "inp = ClLine line" "trim_space line \<noteq> []" by blast
    then have a: "asks line" using inp by simp
    have c: "c = (cv_client v)\<lparr>cl_sent := cl_sent (cv_client v) @ [trim_space line],
        cl_mode := ClWait (trim_space line)\<rparr>"
      using line m(2) asks_not_use [OF a] by (simp add: client_menu_def cl_send_def Let_def)
    have ph: "phase ClMenu (talk v) (cv_shown v) (cv_served v)" using inv m(1) by (simp add: conv_inv_def)
    then have e: "drop (cv_up v) (cl_sent (cv_client v)) = []" "sv_cmds (cv_server v) = []"
        "under_way v = []" "cl_responseCh (cv_client v) = []" "cv_served v = cv_shown v"
      by (auto simp: talk_def elim: phaseE)
    have up: "cv_up v = length (cl_sent (cv_client v))"
      using e(1) inv by (simp add: conv_inv_def menu_ok_def)
    have "talk (v\<lparr>cv_client := c\<rparr>) = ([trim_space line], [], [], [])"
      using e up by (simp add: talk_def c under_way_def)
    moreover have "asks (trim_space line)" using a by (simp add: asks_trim)
    ultimately show ?thesis
      using inv e up by (auto simp: conv_inv_def menu_ok_def c trim_space_idem intro: phase.asked)
  qed
qed

lemma inv_shows:
  assumes inv: "conv_inv v" and m: "cl_mode (cv_client v) = ClWait t" "cl_responseCh (cv_client v) = r # rs"
    and st: "client_wait SelResponse (cv_client v) = Some (Ret c)"
  shows "conv_inv (v\<lparr>cv_client := c, cv_shown := cv_shown v @ [(t, r)]\<rparr>)"
proof -
  have "phase (ClWait t) (talk v) (cv_shown v) (cv_served v)" using inv m(1) by (simp add: conv_inv_def)
  then have a: "asks t" "rs = []" "talk v = ([], [], [], [r])" "cv_served v = cv_shown v @ [(t, r)]"
    using m(2) by (auto simp: talk_def elim!: phaseE)
  have c: "c = (cl_println r ((cv_client v)\<lparr>cl_responseCh := []\<rparr>))\<lparr>cl_mode := ClMenu\<rparr>"
    using st m a(2) asks_not_exit [OF a(1)] by (simp add: client_wait_def take_response_def)
  have "talk (v\<lparr>cv_client := c, cv_shown := cv_shown v @ [(t, r)]\<rparr>) = ([], [], [], [])"
    using a(3) by (simp add: talk_def c under_way_def cl_println_def)
  then show ?thesis
    using inv a(4) by (simp add: conv_inv_def menu_ok_def c cl_println_def phase.resting)
qed

lemma inv_receives:
  assumes inv: "conv_inv v" and d: "cv_down v < length (sv_sent (cv_server v))"
    and st: "client_reader (Inr (sv_sent (cv_server v) ! cv_down v)) (cv_client v) = Some c"
  shows "conv_inv (v\<lparr>cv_client := c, cv_down := Suc (cv_down v)\<rparr>)"
proof -
  obtain ty x where m: "sv_sent (cv_server v) ! cv_down v = (ty, x)" by force
  have dr: "drop (cv_down v) (sv_sent (cv_server v)) = (ty, x) # drop (Suc (cv_down v)) (sv_sent (cv_server v))"
    using d m by (simp flip: Cons_nth_drop_Suc)
  have "(ty, x) \<in> set (sv_sent (cv_server v))" using d m by (metis nth_mem)
  then have ty: "ty = FrameEvent \<or> ty = FrameResponse" using inv by (force simp: conv_inv_def menu_ok_def)
  show ?thesis
  proof (cases "ty = FrameEvent")
    case True
    then have "\<exists>evs. c = (cv_client v)\<lparr>cl_eventCh := evs\<rparr>"
      using st m by (auto simp: client_reader_def split: if_splits)
    then show ?thesis
      using inv d dr True by (auto simp: conv_inv_def menu_ok_def talk_def under_way_def)
  next
    case False
    have c: "c = (cv_client v)\<lparr>cl_responseCh := cl_responseCh (cv_client v) @ [x]\<rparr>"
      using st m ty False
      by (auto simp: client_reader_def FrameResponse_def FrameSessionStart_def split: if_splits)
    have ph: "phase (cl_mode (cv_client v)) (talk v) (cv_shown v) (cv_served v)" using inv by (simp add: conv_inv_def)
    have w': "under_way (v\<lparr>cv_client := c, cv_down := Suc (cv_down v)\<rparr>) = under_way (v\<lparr>cv_down := Suc (cv_down v)\<rparr>)"
      by (simp add: under_way_def)
    have w: "under_way v = x # under_way (v\<lparr>cv_down := Suc (cv_down v)\<rparr>)"
      using dr False by (simp add: under_way_def)
    then have "\<exists>t. asks t \<and> trim_space t = t \<and> cl_mode (cv_client v) = ClWait t
        \<and> talk v = ([], [], [x], []) \<and> cv_served v = cv_shown v @ [(t, x)]"
      using ph by (auto simp: talk_def elim!: phaseE)
    then obtain t where t: "asks t" "trim_space t = t" "cl_mode (cv_client v) = ClWait t"
        "talk v = ([], [], [x], [])" "cv_served v = cv_shown v @ [(t, x)]" by blast
    then have "talk (v\<lparr>cv_client := c, cv_down := Suc (cv_down v)\<rparr>) = ([], [], [], [x])"
      using w w' by (simp add: talk_def c)
    then show ?thesis
      using inv d t by (simp add: conv_inv_def menu_ok_def c phase.received)
  qed
qed

lemma inv_takes:
  assumes inv: "conv_inv v" and u: "cv_up v < length (cl_sent (cv_client v))"
    and st: "reader_step False (Some (cl_sent (cv_client v) ! cv_up v)) (cv_server v) = Some s"
  shows "conv_inv (v\<lparr>cv_server := s, cv_up := Suc (cv_up v)\<rparr>)"
proof -
  have dr: "drop (cv_up v) (cl_sent (cv_client v)) = cl_sent (cv_client v) ! cv_up v # drop (Suc (cv_up v)) (cl_sent (cv_client v))"
    using u by (simp flip: Cons_nth_drop_Suc)
  have "phase (cl_mode (cv_client v)) (talk v) (cv_shown v) (cv_served v)" using inv by (simp add: conv_inv_def)
  then obtain t where t: "asks t" "trim_space t = t" "cl_mode (cv_client v) = ClWait t"
      "talk v = ([t], [], [], [])" "cv_served v = cv_shown v"
    by (auto simp: talk_def dr elim!: phaseE)
  then have e: "cl_sent (cv_client v) ! cv_up v = t" "drop (Suc (cv_up v)) (cl_sent (cv_client v)) = []"
      "sv_cmds (cv_server v) = []"
    using dr by (simp_all add: talk_def)
  have s: "s = (cv_server v)\<lparr>sv_cmds := [t]\<rparr>"
    using st e trim_right_trimmed [of t] t(2) by (auto simp: reader_step_def split: if_splits)
  have "talk (v\<lparr>cv_server := s, cv_up := Suc (cv_up v)\<rparr>) = ([], [t], [], [])"
    using t(4) e by (simp add: talk_def s under_way_def)
  then show ?thesis
    using inv u t e dr by (simp add: conv_inv_def menu_ok_def s phase.queued)
qed

lemma inv_runs:
  assumes r: "renders E" and inv: "conv_inv v" and cm: "sv_cmds (cv_server v) = line # rest"
    and st: "main_step E False (cv_server v) = Some (Ret s)"
  shows "conv_inv (v\<lparr>cv_server := s, cv_served := cv_served v @ map (\<lambda>m. (line, snd m)) (sv_pending s)\<rparr>)"
proof -
  have "phase (cl_mode (cv_client v)) (talk v) (cv_shown v) (cv_served v)" using inv by (simp add: conv_inv_def)
  then have t: "asks line" "trim_space line = line" "cl_mode (cv_client v) = ClWait line" "rest = []"
      "talk v = ([], [line], [], [])" "cv_served v = cv_shown v"
    using cm by (auto simp: talk_def elim!: phaseE)
  have md: "sv_mode (cv_server v) = SvMenu" using inv by (simp add: conv_inv_def menu_ok_def)
  have p: "sv_pending (cv_server v) = []"
    and ml: "menu_line E line ((cv_server v)\<lparr>sv_cmds := []\<rparr>) = Ret s"
    using st cm t(4) md by (auto simp: main_step_def split: if_splits)
  obtain x w where s: "s = sv_send FrameResponse x ((cv_server v)\<lparr>sv_cmds := [], sv_world := w\<rparr>)"
    using menu_line_asked [OF r t(1) ml] by auto
  have "FrameResponse \<noteq> FrameEvent" by (simp add: FrameResponse_def FrameEvent_def)
  then have "talk (v\<lparr>cv_server := s, cv_served := cv_served v @ map (\<lambda>m. (line, snd m)) (sv_pending s)\<rparr>)
      = ([], [], [x], [])"
    using t(5) p by (simp add: talk_def s under_way_def sv_send_def)
  then show ?thesis
    using inv t p cm by (simp add: conv_inv_def menu_ok_def s phase.answered sv_send_def)
qed

lemma inv_server:
  assumes "conv_inv v" and "sv_cmds s = sv_cmds (cv_server v)" and "menu_ok (v\<lparr>cv_server := s\<rparr>)"
    and "under_way (v\<lparr>cv_server := s\<rparr>) = under_way v"
  shows "conv_inv (v\<lparr>cv_server := s\<rparr>)"
  using assms by (simp add: conv_inv_def talk_def)

lemma inv_flushes:
  assumes "conv_inv v" and "flush_step (cv_server v) = Some s"
  shows "conv_inv (v\<lparr>cv_server := s\<rparr>)"
  using assms
  by (intro inv_server)
     (auto simp: conv_inv_def menu_ok_def under_way_def flush_step_def push_out_def split: list.splits if_splits)

lemma inv_writes:
  assumes "conv_inv v" and "writer_step False False (cv_server v) = Some s"
  shows "conv_inv (v\<lparr>cv_server := s\<rparr>)"
  using assms
  by (intro inv_server)
     (auto simp: conv_inv_def menu_ok_def under_way_def writer_step_def split: list.splits if_splits)

lemma inv_forwards:
  assumes "conv_inv v" and "event_forward False (cv_server v) = Some s"
  shows "conv_inv (v\<lparr>cv_server := s\<rparr>)"
  using assms
  by (intro inv_server)
     (auto simp: conv_inv_def menu_ok_def under_way_def event_forward_def push_out_def Let_def
       split: list.splits if_splits option.splits)

lemma conv_step_inv:
  assumes "renders E" and "conv_inv v" and "conv_step E v v'"
  shows "conv_inv v'"
  using assms(3)
proof cases
  case (types inp c)
  then show ?thesis using inv_types assms(2) by blast
next
  case (shows_answer t r rs c)
  then show ?thesis using inv_shows assms(2) by blast
next
  case (prints_event c)
  then show ?thesis
    using assms(2) by (auto simp: conv_inv_def menu_ok_def talk_def under_way_def client_event_def
        cl_println_def split: list.splits)
next
  case (receives c)
  then show ?thesis using inv_receives assms(2) by blast
next
  case (takes s)
  then show ?thesis using inv_takes assms(2) by blast
next
  case (runs line rest s)
  then show ?thesis using inv_runs assms(1,2) by blast
next
  case (flushes s)
  then show ?thesis using inv_flushes assms(2) by blast
next
  case (writes s)
  then show ?thesis using inv_writes assms(2) by blast
next
  case (forwards s)
  then show ?thesis using inv_forwards assms(2) by blast
next
  case (world w)
  then show ?thesis using assms(2) by (auto simp: conv_inv_def menu_ok_def talk_def under_way_def)
qed

interpretation conv: inductive_invariant conv_start "conv_step E" "\<lambda>v. renders E \<longrightarrow> conv_inv v"
  by unfold_locales (auto intro: conv_start_inv conv_step_inv)

lemmas conv_reach = conv.reach_inv [rule_format]

section \<open>Every answer belongs to its question\<close>

text \<open>
  C3. A conversation in the menus stays in step. Whatever the goroutines of both sides and
  the events of the listeners do, the answers the client prints are, in order and each beside
  the line it was asked with, the answers the server computed for these lines; the server
  runs the lines in the order they were typed, each once, and is at most one answer ahead;
  and when the client is back at its prompt nothing is outstanding.
\<close>

theorem conversation_in_step:
  assumes "renders E" and "reach conv_start (conv_step E) v"
  shows "prefix (cv_shown v) (cv_served v) \<and> length (cv_served v) \<le> Suc (length (cv_shown v))
    \<and> prefix (map fst (cv_served v)) (cl_sent (cv_client v))
    \<and> (cl_mode (cv_client v) = ClMenu \<longrightarrow>
         cv_shown v = cv_served v \<and> map fst (cv_served v) = cl_sent (cv_client v))"
proof -
  have inv: "conv_inv v" using conv_reach [OF assms(2,1)] .
  then have ph: "phase (cl_mode (cv_client v)) (talk v) (cv_shown v) (cv_served v)"
    and hist: "map fst (cv_served v) @ sv_cmds (cv_server v) @ drop (cv_up v) (cl_sent (cv_client v)) = cl_sent (cv_client v)"
    by (simp_all add: conv_inv_def)
  have "prefix (map fst (cv_served v)) (cl_sent (cv_client v))" by (subst hist [symmetric]) simp
  moreover from ph have "cl_mode (cv_client v) = ClMenu \<Longrightarrow> map fst (cv_served v) = cl_sent (cv_client v)"
    using hist by (auto simp: talk_def elim!: phaseE)
  ultimately show ?thesis using ph by (auto elim!: phaseE)
qed

section \<open>Every question can be answered\<close>

definition work :: "conv \<Rightarrow> nat" where
  "work v = 4 * length (sv_pending (cv_server v)) + 3 * length (sv_outCh (cv_server v))
     + 2 * (length (sv_sent (cv_server v)) - cv_down v) + length (cl_eventCh (cv_client v))"

text \<open>While an answer is under way, some goroutine can move it on.\<close>

lemma answer_moves:
  assumes inv: "conv_inv v" and uw: "under_way v \<noteq> []" and rc: "cl_responseCh (cv_client v) = []"
  shows "\<exists>v'. conv_step E v v' \<and> work v' < work v
    \<and> cl_mode (cv_client v') = cl_mode (cv_client v) \<and> cv_shown v' = cv_shown v \<and> cv_served v' = cv_served v"
proof -
  let ?s = "cv_server v" and ?c = "cv_client v"
  have ok: "sv_writing ?s" "cl_reading ?c" "cv_down v \<le> length (sv_sent ?s)"
    "\<forall>m\<in>set (sv_sent ?s). fst m = FrameEvent \<or> fst m = FrameResponse"
    using inv by (auto simp: conv_inv_def menu_ok_def)
  consider (chan) "sv_outCh ?s \<noteq> []" | (flush) "sv_outCh ?s = []" "sv_pending ?s \<noteq> []"
    | (stream) "cv_down v < length (sv_sent ?s)"
    using uw ok(3) by (force simp: under_way_def)
  then show ?thesis
  proof cases
    case chan
    then obtain m ms where o: "sv_outCh ?s = m # ms" by (cases "sv_outCh ?s") auto
    let ?s' = "?s\<lparr>sv_outCh := ms, sv_sent := sv_sent ?s @ [m]\<rparr>"
    have "writer_step False False ?s = Some ?s'" using o ok(1) by (simp add: writer_step_def)
    from conv_step.writes [OF this] show ?thesis
      using ok(3) o by (intro exI [of _ "v\<lparr>cv_server := ?s'\<rparr>"]) (simp add: work_def)
  next
    case flush
    then obtain m ms where p: "sv_pending ?s = m # ms" by (cases "sv_pending ?s") auto
    let ?s' = "?s\<lparr>sv_outCh := [m], sv_pending := ms\<rparr>"
    have "flush_step ?s = Some ?s'" using p flush by (simp add: flush_step_def push_out_def out_cap_def)
    from conv_step.flushes [OF this] show ?thesis
      using flush p by (intro exI [of _ "v\<lparr>cv_server := ?s'\<rparr>"]) (simp add: work_def)
  next
    case stream
    obtain ty x where m: "sv_sent ?s ! cv_down v = (ty, x)" by force
    then have ty: "ty = FrameEvent \<or> ty = FrameResponse" using ok(4) nth_mem [OF stream] by force
    show ?thesis
    proof (cases "ty = FrameEvent \<and> \<not> length (cl_eventCh ?c) < event_cap")
      case True
      then obtain e es where e: "cl_eventCh ?c = e # es" by (cases "cl_eventCh ?c") (auto simp: event_cap_def)
      let ?c' = "cl_println e (?c\<lparr>cl_eventCh := es\<rparr>)"
      have "client_event ?c = Some ?c'" using e by (simp add: client_event_def)
      from conv_step.prints_event [OF this] show ?thesis
        using e by (intro exI [of _ "v\<lparr>cv_client := ?c'\<rparr>"]) (simp add: work_def cl_println_def)
    next
      case False
      then obtain c' where c': "client_reader (Inr (ty, x)) ?c = Some c'"
        and l: "length (cl_eventCh c') \<le> Suc (length (cl_eventCh ?c))" "cl_mode c' = cl_mode ?c"
        using ok(2) ty rc
        by (auto simp: client_reader_def FrameResponse_def FrameEvent_def FrameSessionStart_def response_cap_def)
      from conv_step.receives [OF stream, of c' E] show ?thesis
        using c' m l stream
        by (intro exI [of _ "v\<lparr>cv_client := c', cv_down := Suc (cv_down v)\<rparr>"]) (simp add: work_def)
    qed
  qed
qed

lemma answer_arrives:
  assumes "renders E" and "conv_inv v" and "cl_mode (cv_client v) = ClWait t"
    and "cv_served v = cv_shown v @ [(t, x)]"
  shows "\<exists>v'. (conv_step E)\<^sup>*\<^sup>* v v' \<and> cl_mode (cv_client v') = ClMenu \<and> cv_shown v' = cv_served v"
  using assms(2-)
proof (induction "work v" arbitrary: v rule: less_induct)
  case less
  have ph: "phase (ClWait t) (talk v) (cv_shown v) (cv_shown v @ [(t, x)])"
    using less.prems by (simp add: conv_inv_def)
  then have a: "asks t" by (auto elim: phaseE)
  show ?case
  proof (cases "cl_responseCh (cv_client v) = []")
    case True
    then have "under_way v \<noteq> []" using ph by (auto simp: talk_def elim: phaseE)
    from answer_moves [OF less.prems(1) this True, of E] obtain v' where
        v': "conv_step E v v'" "work v' < work v" "cl_mode (cv_client v') = ClWait t"
          "cv_shown v' = cv_shown v" "cv_served v' = cv_served v"
      using less.prems(2) by auto
    have "conv_inv v'" by (rule conv_step_inv [OF assms(1) less.prems(1) v'(1)])
    from less.hyps [OF v'(2) this v'(3)] v'(4,5) less.prems(3) obtain u where
      "(conv_step E)\<^sup>*\<^sup>* v' u" "cl_mode (cv_client u) = ClMenu" "cv_shown u = cv_served v" by auto
    with v'(1) show ?thesis by (meson converse_rtranclp_into_rtranclp)
  next
    case False
    then have r: "cl_responseCh (cv_client v) = [x]" using ph by (auto simp: talk_def elim: phaseE)
    let ?c = "(cl_println x ((cv_client v)\<lparr>cl_responseCh := []\<rparr>))\<lparr>cl_mode := ClMenu\<rparr>"
    have "client_wait SelResponse (cv_client v) = Some (Ret ?c)"
      using less.prems(2) r asks_not_exit [OF a] by (simp add: client_wait_def take_response_def)
    from conv_step.shows_answer [OF less.prems(2) r this, of E] show ?thesis
      using less.prems(3) by (intro exI [of _ "v\<lparr>cv_client := ?c, cv_shown := cv_shown v @ [(t, x)]\<rparr>"]) auto
  qed
qed

lemma command_runs:
  assumes r: "renders E" and inv: "conv_inv v" and m: "cl_mode (cv_client v) = ClWait t"
    and q: "sv_cmds (cv_server v) = [t]"
  shows "main_step E False (cv_server v) = Some Panic
    \<or> (\<exists>v'. (conv_step E)\<^sup>*\<^sup>* v v' \<and> cl_mode (cv_client v') = ClMenu)"
proof -
  have ph: "phase (ClWait t) (talk v) (cv_shown v) (cv_served v)" using inv m by (simp add: conv_inv_def)
  then have a: "asks t" and uw: "under_way v = []" and sh: "cv_served v = cv_shown v"
    using q by (auto simp: talk_def elim: phaseE)
  have md: "sv_mode (cv_server v) = SvMenu" "\<forall>m\<in>set (sv_pending (cv_server v)). fst m = FrameResponse"
    using inv by (auto simp: conv_inv_def menu_ok_def)
  have "FrameResponse \<noteq> FrameEvent" by (simp add: FrameResponse_def FrameEvent_def)
  then have p: "sv_pending (cv_server v) = []"
    using uw md(2) by (cases "sv_pending (cv_server v)") (auto simp: under_way_def)
  have st: "main_step E False (cv_server v) = Some (menu_line E t ((cv_server v)\<lparr>sv_cmds := []\<rparr>))"
    using p md(1) q by (simp add: main_step_def)
  show ?thesis
  proof (cases "menu_line E t ((cv_server v)\<lparr>sv_cmds := []\<rparr>)")
    case Panic
    with st show ?thesis by simp
  next
    case (Ret s)
    let ?v = "v\<lparr>cv_server := s, cv_served := cv_served v @ map (\<lambda>m. (t, snd m)) (sv_pending s)\<rparr>"
    obtain x w where s: "s = sv_send FrameResponse x ((cv_server v)\<lparr>sv_cmds := [], sv_world := w\<rparr>)"
      using menu_line_asked [OF r a Ret] by auto
    have step: "conv_step E v ?v" using conv_step.runs [OF q, of E s] st Ret by simp
    have "conv_inv ?v" by (rule conv_step_inv [OF r inv step])
    moreover have "cv_served ?v = cv_shown ?v @ [(t, x)]" using p sh by (simp add: s sv_send_def)
    ultimately obtain u where "(conv_step E)\<^sup>*\<^sup>* ?v u" "cl_mode (cv_client u) = ClMenu"
      using answer_arrives [OF r, of ?v t x] m by auto
    with step show ?thesis by (meson converse_rtranclp_into_rtranclp)
  qed
qed


text \<open>A conversation: the user types \<open>help\<close>, and the server takes the line.\<close>

definition conv0 :: conv where
  "conv0 = \<lparr>cv_server = serveClient menu_server,
     cv_client = \<lparr>cl_mode = ClMenu, cl_prompt = client_prompt, cl_sent = [], cl_out = [], cl_err = [],
       cl_reading = True, cl_eventCh = [], cl_responseCh = [], cl_sessionStartCh = [], cl_readErrCh = []\<rparr>,
     cv_up = 0, cv_down = 0, cv_served = [], cv_shown = []\<rparr>"

definition conv1 :: conv where
  "conv1 = conv0\<lparr>cv_client := (cv_client conv0)\<lparr>cl_sent := [''help''], cl_mode := ClWait ''help''\<rparr>\<rparr>"

lemma trim_help: "trim_space ''help'' = ''help''" "str_fields ''help'' = [''help'']" "to_lower ''help'' = ''help''"
  by code_simp+

lemma asks_help: "asks ''help''"
  by (simp add: asks_def parse_help)

lemma conv1_reach: "reach conv_start (conv_step plain_env) conv1"
proof -
  have "reach conv_start (conv_step plain_env) conv0"
    by (rule reach_start) (auto simp: conv_start_def conv0_def)
  moreover have "client_step (\<lambda>_. None) (ClLine ''help'') (cv_client conv0)
      = Some ((cv_client conv0)\<lparr>cl_sent := [''help''], cl_mode := ClWait ''help''\<rparr>)"
    by (simp add: client_step_def conv0_def client_menu_def trim_help cl_send_def Let_def del: str_fields.simps)
  then have "conv_step plain_env conv0 conv1"
    unfolding conv1_def by (intro conv_step.types [where inp = "ClLine ''help''"]) (simp_all add: asks_help)
  ultimately show ?thesis by (rule reach_step)
qed

lemma plain_renders: "renders plain_env"
  by (simp add: renders_def plain_env_def)

theorem conversation_in_step_witness:
  "prefix (cv_shown conv1) (cv_served conv1) \<and> prefix (map fst (cv_served conv1)) [''help'']"
proof -
  have "cl_sent (cv_client conv1) = [''help'']" by (simp add: conv1_def)
  with conversation_in_step [OF plain_renders conv1_reach] show ?thesis by simp
qed


end
