(* ===== verification/Proto_Props.thy ===== *)
theory Proto_Props
  imports Proto_Model
begin

text \<open>
  Properties of the encrypted frames of \<open>internal/proto/proto.go\<close>: streams of frames, the
  bounds of a frame, truncation, the handshake and the tokens. The cipher is a parameter;
  \<open>aead_ok\<close> states what the documentation of \<open>chacha20poly1305\<close> promises.
\<close>

section \<open>A concrete cipher\<close>

text \<open>A stand-in with the laws of \<open>aead_ok\<close>, for the witnesses: the tag is part of the key.\<close>

definition tag_of :: "string \<Rightarrow> string" where
  "tag_of k = take tagSize (k @ replicate tagSize CHR 0x00)"

definition tag_aead :: aead where
  "tag_aead = \<lparr>a_new_ok = (\<lambda>k. length k = 32), a_seal = (\<lambda>k n p. tag_of k @ p),
     a_open = (\<lambda>k n c. if take tagSize c = tag_of k then Some (drop tagSize c) else None)\<rparr>"

lemma length_tag_of: "length (tag_of k) = 16"
  by (simp add: tag_of_def tagSize_def)

lemma tag_aead_ok: "aead_ok tag_aead"
  by (simp add: aead_ok_def tag_aead_def length_tag_of tagSize_def)

lemma tag_aead_other_key: "tag_of k \<noteq> tag_of k' \<Longrightarrow> a_open tag_aead k' n (a_seal tag_aead k n p) = None"
  by (simp add: tag_aead_def length_tag_of tagSize_def)

definition key_a :: string where "key_a = replicate 32 CHR ''a''"
definition key_b :: string where "key_b = replicate 32 CHR ''b''"
definition nonce_0 :: string where "nonce_0 = replicate 12 CHR ''0''"
definition open_wire :: wire where "open_wire = \<lparr>wr_out = [], wr_room = None\<rparr>"

lemma sample_lengths [simp]:
  "length key_a = 32" "length key_b = 32" "length nonce_0 = nonceSize" "wr_room open_wire = None"
  "wr_out open_wire = []"
  by (simp_all add: key_a_def key_b_def nonce_0_def open_wire_def nonceSize_def)

lemma tag_of_keys: "tag_of key_a \<noteq> tag_of key_b"
  by (simp add: tag_of_def key_a_def key_b_def tagSize_def)

section \<open>Streams of frames\<close>

fun write_frames :: "aead \<Rightarrow> wire \<Rightarrow> string \<Rightarrow> (string \<times> string) list \<Rightarrow> wire \<times> proto_error option" where
  "write_frames A w key [] = (w, None)"
| "write_frames A w key ((nonce, p) # ps) =
     (case WriteFrame A (Inr nonce) w key p of
        (w1, Some e) \<Rightarrow> (w1, Some e)
      | (w1, None) \<Rightarrow> write_frames A w1 key ps)"

fun read_frames :: "aead \<Rightarrow> nat \<Rightarrow> reader \<Rightarrow> string \<Rightarrow> (proto_error + string list) \<times> reader" where
  "read_frames A 0 r key = (Inr [], r)"
| "read_frames A (Suc n) r key =
     (case ReadFrame A r key of
        (Inl e, r1) \<Rightarrow> (Inl e, r1)
      | (Inr p, r1) \<Rightarrow> (case read_frames A n r1 key of
            (Inl e, r2) \<Rightarrow> (Inl e, r2)
          | (Inr ps, r2) \<Rightarrow> (Inr (p # ps), r2)))"

lemma write_frames_out:
  assumes "aead_ok A" "length key = 32" "wr_room w = None" "\<forall>(n, p)\<in>set ps. length n = nonceSize"
  shows "write_frames A w key ps =
    (w\<lparr>wr_out := wr_out w @ concat (map (\<lambda>(n, p). put_raw (frame_body A key n p)) ps)\<rparr>, None)"
  using assms(3,4)
proof (induction ps arbitrary: w)
  case (Cons x ps)
  obtain n p where x: "x = (n, p)" by force
  have "length n = nonceSize" using Cons.prems x by simp
  then show ?case
    using Cons x by (simp add: WriteFrame_sends [OF assms(1,2)])
qed simp

text \<open>
  C5. Plaintexts written one after another on a connection are read back in order, complete
  and unchanged, whatever follows them on the stream: framing, encryption and decryption
  together lose nothing, split nothing and merge nothing.
\<close>

theorem frames_roundtrip:
  assumes "aead_ok A" and "length key = 32"
    and "\<forall>(n, p)\<in>set ps. length n = nonceSize \<and> 28 + length p \<le> maxFrameBytes"
  shows "\<exists>out. write_frames A \<lparr>wr_out = [], wr_room = None\<rparr> key ps = (\<lparr>wr_out = out, wr_room = None\<rparr>, None)
    \<and> read_frames A (length ps) \<lparr>rd_in = out @ rest, rd_end = e\<rparr> key
        = (Inr (map snd ps), \<lparr>rd_in = rest, rd_end = e\<rparr>)"
proof -
  let ?enc = "\<lambda>ps. concat (map (\<lambda>(n, p). put_raw (frame_body A key n p)) ps)"
  have "write_frames A \<lparr>wr_out = [], wr_room = None\<rparr> key ps = (\<lparr>wr_out = ?enc ps, wr_room = None\<rparr>, None)"
    by (subst write_frames_out) (use assms in auto)
  moreover have "read_frames A (length ps) \<lparr>rd_in = ?enc ps @ rest, rd_end = e\<rparr> key
      = (Inr (map snd ps), \<lparr>rd_in = rest, rd_end = e\<rparr>)"
    using assms(3) by (induction ps) (auto simp: ReadFrame_put_raw [OF assms(1,2)])
  ultimately show ?thesis by blast
qed

theorem frames_roundtrip_witness:
  "\<exists>out. write_frames tag_aead \<lparr>wr_out = [], wr_room = None\<rparr> key_a [(nonce_0, ''ls''), (nonce_0, [])]
      = (\<lparr>wr_out = out, wr_room = None\<rparr>, None)
    \<and> read_frames tag_aead 2 \<lparr>rd_in = out @ ''x'', rd_end = EOF\<rparr> key_a
        = (Inr [''ls'', []], \<lparr>rd_in = ''x'', rd_end = EOF\<rparr>)"
  using frames_roundtrip [OF tag_aead_ok, of key_a "[(nonce_0, ''ls''), (nonce_0, [])]" "''x''" EOF]
  by (simp add: maxFrameBytes_def numeral_2_eq_2)

text \<open>
  C39. The two ends disagree on the size of a frame: a plaintext above 4 MiB minus 28 bytes
  is written without an error, and the reader refuses it after the four bytes of its length
  field, which ends the connection. Nothing in the writer checks the reader's bound.
\<close>

theorem oversize_frame_refused:
  assumes "aead_ok A" and "length key = 32" and "length nonce = nonceSize"
    and "maxFrameBytes < 28 + length p" and "28 + length p < 2 ^ 32"
  shows "\<exists>out. WriteFrame A (Inr nonce) \<lparr>wr_out = [], wr_room = None\<rparr> key p
      = (\<lparr>wr_out = out, wr_room = None\<rparr>, None)
    \<and> ReadFrame A \<lparr>rd_in = out, rd_end = e\<rparr> key
      = (Inl (FrameTooLarge (28 + length p)), \<lparr>rd_in = drop 4 out, rd_end = e\<rparr>)"
proof -
  let ?b = "frame_body A key nonce p" and ?w = "of_nat (28 + length p) :: 32 word"
  have len: "length ?b = 28 + length p" by (rule length_frame_body [OF assms(1,3)])
  have u: "unat ?w = 28 + length p" using assms(5) by (intro unat_frame_len) simp
  have "\<not> ?w < 28" "4194304 < ?w"
    using u assms(4) unfolding word_less_nat_alt by (simp_all add: maxFrameBytes_def)
  then have "get_raw \<lparr>rd_in = put_raw ?b, rd_end = e\<rparr>
      = (Inl (FrameTooLarge (28 + length p)), \<lparr>rd_in = ?b, rd_end = e\<rparr>)"
    using u by (simp add: get_raw_def put_raw_def read_full_def proto_consts un_be32_be32 len Let_def)
  then show ?thesis
    using WriteFrame_sends [OF assms(1-3), of "\<lparr>wr_out = [], wr_room = None\<rparr>"]
    by (simp add: ReadFrame_def put_raw_def)
qed

theorem oversize_frame_refused_witness:
  "\<exists>out. WriteFrame tag_aead (Inr nonce_0) \<lparr>wr_out = [], wr_room = None\<rparr> key_a (replicate 4194304 CHR ''x'')
      = (\<lparr>wr_out = out, wr_room = None\<rparr>, None)
    \<and> ReadFrame tag_aead \<lparr>rd_in = out, rd_end = EOF\<rparr> key_a
      = (Inl (FrameTooLarge 4194332), \<lparr>rd_in = drop 4 out, rd_end = EOF\<rparr>)"
  using oversize_frame_refused [OF tag_aead_ok, of key_a nonce_0 "replicate 4194304 CHR ''x''" EOF]
  by (simp add: maxFrameBytes_def)

text \<open>
  A frame cut short at any byte, by a connection that ends there, is an error: no part
  of it is ever returned as a plaintext.
\<close>

theorem truncated_frame_fails:
  assumes "aead_ok A" and "length key = 32" and "length nonce = nonceSize"
    and "28 + length p \<le> maxFrameBytes"
    and "WriteFrame A (Inr nonce) \<lparr>wr_out = [], wr_room = None\<rparr> key p = (w, None)"
    and "n < length (wr_out w)"
  shows "\<exists>err. fst (ReadFrame A \<lparr>rd_in = take n (wr_out w), rd_end = e\<rparr> key') = Inl err"
proof -
  have w: "wr_out w = put_raw (frame_body A key nonce p)"
    using assms(5) WriteFrame_sends [OF assms(1-3), of "\<lparr>wr_out = [], wr_room = None\<rparr>" p] by auto
  have "raw_ok (frame_body A key nonce p)"
    using assms(4) by (simp add: raw_ok_def length_frame_body [OF assms(1,3)] nonceSize_def tagSize_def)
  then obtain err where "fst (get_raw \<lparr>rd_in = take n (wr_out w), rd_end = e\<rparr>) = Inl err"
    using get_raw_truncated [of _ "take n (wr_out w)" n e] assms(6) w by auto
  then show ?thesis by (auto simp: ReadFrame_def split: prod.splits)
qed

lemma sample_write:
  "WriteFrame tag_aead (Inr nonce_0) \<lparr>wr_out = [], wr_room = None\<rparr> key_a ''HELLO''
     = (\<lparr>wr_out = put_raw (frame_body tag_aead key_a nonce_0 ''HELLO''), wr_room = None\<rparr>, None)"
  using WriteFrame_sends [OF tag_aead_ok, of key_a nonce_0 "\<lparr>wr_out = [], wr_room = None\<rparr>" "''HELLO''"]
  by simp

theorem truncated_frame_fails_witness:
  "\<exists>err. fst (ReadFrame tag_aead
     \<lparr>rd_in = take 20 (put_raw (frame_body tag_aead key_a nonce_0 ''HELLO'')), rd_end = EOF\<rparr> key_a) = Inl err"
  using truncated_frame_fails [OF tag_aead_ok, of key_a nonce_0 "''HELLO''" _ 20 EOF key_a, OF _ _ _ sample_write]
  by (simp add: put_raw_def length_frame_body [OF tag_aead_ok] maxFrameBytes_def)

lemma read_full_takes: "length (rd_in r) \<le> length (rd_in (snd (read_full r n))) + n"
  by (auto simp: read_full_def)

lemma get_raw_takes: "length (rd_in r) \<le> length (rd_in (snd (get_raw r))) + (lenFieldSize + maxFrameBytes)"
proof -
  obtain res r1 where rf: "read_full r lenFieldSize = (res, r1)" by force
  have hdr: "length (rd_in r) \<le> length (rd_in r1) + lenFieldSize"
    using read_full_takes [of r lenFieldSize] rf by simp
  show ?thesis
  proof (cases res)
    case (Inl err)
    with rf hdr show ?thesis by (simp add: get_raw_def)
  next
    case (Inr h)
    define w where "w = un_be32 h"
    obtain res2 r2 where rf2: "read_full r1 (unat w) = (res2, r2)" by force
    have short: "length (rd_in r) \<le> length (rd_in r1) + (lenFieldSize + maxFrameBytes)"
      using hdr by simp
    have long: "length (rd_in r) \<le> length (rd_in r2) + (lenFieldSize + maxFrameBytes)"
      if "\<not> of_nat maxFrameBytes < w"
    proof -
      have "unat w \<le> maxFrameBytes"
        using that by (simp add: word_less_nat_alt maxFrameBytes_def not_less)
      moreover have "length (rd_in r1) \<le> length (rd_in r2) + unat w"
        using read_full_takes [of r1 "unat w"] rf2 by simp
      ultimately show ?thesis using hdr by linarith
    qed
    have "snd (get_raw r) = (if w < of_nat (nonceSize + tagSize) \<or> of_nat maxFrameBytes < w then r1 else r2)"
      unfolding get_raw_def rf Inr prod.case sum.case Let_def w_def [symmetric] rf2
      by (simp split: sum.split)
    with short long show ?thesis by (simp split: if_splits)
  qed
qed

text \<open>
  Reading a frame takes at most the length field and 4 MiB off the stream, whatever an
  unauthenticated peer sends: the cap is checked before the body is read.
\<close>

theorem ReadFrame_takes:
  "length (rd_in r) \<le> length (rd_in (snd (ReadFrame A r key))) + (lenFieldSize + maxFrameBytes)"
proof -
  have "snd (ReadFrame A r key) = snd (get_raw r)"
    by (simp add: ReadFrame_def Let_def split: sum.split prod.split option.split)
  then show ?thesis using get_raw_takes [of r] by simp
qed

section \<open>The handshake\<close>

lemma raw_wire: "\<lparr>wr_out = [], wr_room = None\<rparr>\<lparr>wr_out := x\<rparr> = \<lparr>wr_out = x, wr_room = None\<rparr>"
  by simp

lemma short_frame: "28 + length hello \<le> maxFrameBytes" "28 + length ready \<le> maxFrameBytes"
  by (simp_all add: hello_def ready_def maxFrameBytes_def)

text \<open>
  With the same key on both sides the handshake completes: the server answers the
  client's first frame, the client accepts the answer, and both leave the bytes that follow
  on their streams.
\<close>

theorem handshake_completes:
  assumes "aead_ok A" and "length key = 32" and "length n1 = nonceSize" and "length n2 = nonceSize"
  shows "\<exists>c2s s2c.
      SendHandshake A (Inr n1) \<lparr>wr_out = [], wr_room = None\<rparr> \<lparr>rd_in = s2c @ rest2, rd_end = e2\<rparr> key
        = (\<lparr>wr_out = c2s, wr_room = None\<rparr>, \<lparr>rd_in = rest2, rd_end = e2\<rparr>, None)
    \<and> ReceiveHandshake A (Inr n2) \<lparr>wr_out = [], wr_room = None\<rparr> \<lparr>rd_in = c2s @ rest1, rd_end = e1\<rparr> key
        = (\<lparr>wr_out = s2c, wr_room = None\<rparr>, \<lparr>rd_in = rest1, rd_end = e1\<rparr>, None)"
  by (intro exI [of _ "put_raw (frame_body A key n1 hello)"] exI [of _ "put_raw (frame_body A key n2 ready)"])
     (simp add: SendHandshake_def ReceiveHandshake_def WriteFrame_sends [OF assms(1,2)] assms
       ReadFrame_put_raw [OF assms(1,2)] short_frame)

theorem handshake_completes_witness:
  "\<exists>c2s s2c.
      SendHandshake tag_aead (Inr nonce_0) \<lparr>wr_out = [], wr_room = None\<rparr> \<lparr>rd_in = s2c @ [], rd_end = EOF\<rparr> key_a
        = (\<lparr>wr_out = c2s, wr_room = None\<rparr>, \<lparr>rd_in = [], rd_end = EOF\<rparr>, None)
    \<and> ReceiveHandshake tag_aead (Inr nonce_0) \<lparr>wr_out = [], wr_room = None\<rparr>
          \<lparr>rd_in = c2s @ ''x'', rd_end = EOF\<rparr> key_a
        = (\<lparr>wr_out = s2c, wr_room = None\<rparr>, \<lparr>rd_in = ''x'', rd_end = EOF\<rparr>, None)"
  by (rule handshake_completes [OF tag_aead_ok]) simp_all

text \<open>
  A client with another token gets nothing: when its first frame does not open under
  the server's key, the server sends no byte and refuses the client with a decryption error.
\<close>

theorem handshake_wrong_key:
  assumes "aead_ok A" and "length key = 32" and "length key' = 32" and "length n1 = nonceSize"
    and "a_open A key' n1 (a_seal A key n1 hello) = None"
    and "WriteFrame A (Inr n1) \<lparr>wr_out = [], wr_room = None\<rparr> key hello = (w1, None)"
  shows "ReceiveHandshake A nonce_draw w \<lparr>rd_in = wr_out w1 @ rest, rd_end = e\<rparr> key'
    = (w, \<lparr>rd_in = rest, rd_end = e\<rparr>, Some (HandshakeRecv DecryptFailed))"
proof -
  let ?b = "frame_body A key n1 hello"
  have w1: "wr_out w1 = put_raw ?b"
    using assms(6) WriteFrame_sends [OF assms(1,2,4), of "\<lparr>wr_out = [], wr_room = None\<rparr>" hello] by auto
  have "raw_ok ?b"
    by (simp add: raw_ok_def length_frame_body [OF assms(1,4)] hello_def proto_consts)
  then have "get_raw \<lparr>rd_in = wr_out w1 @ rest, rd_end = e\<rparr> = (Inr ?b, \<lparr>rd_in = rest, rd_end = e\<rparr>)"
    unfolding w1 by (rule raw.dec_enc)
  then show ?thesis
    using assms by (simp add: ReceiveHandshake_def ReadFrame_def frame_body_def aead_ok_def Let_def)
qed

lemma sample_hello:
  "WriteFrame tag_aead (Inr nonce_0) \<lparr>wr_out = [], wr_room = None\<rparr> key_a hello
     = (\<lparr>wr_out = put_raw (frame_body tag_aead key_a nonce_0 hello), wr_room = None\<rparr>, None)"
  using WriteFrame_sends [OF tag_aead_ok, of key_a nonce_0 "\<lparr>wr_out = [], wr_room = None\<rparr>" hello]
  by simp

theorem handshake_wrong_key_witness:
  "ReceiveHandshake tag_aead (Inr nonce_0) open_wire
     \<lparr>rd_in = put_raw (frame_body tag_aead key_a nonce_0 hello) @ ''x'', rd_end = EOF\<rparr> key_b
    = (open_wire, \<lparr>rd_in = ''x'', rd_end = EOF\<rparr>, Some (HandshakeRecv DecryptFailed))"
  using handshake_wrong_key [OF tag_aead_ok _ _ _ tag_aead_other_key [OF tag_of_keys] sample_hello,
      of "Inr nonce_0" open_wire "''x''" EOF]
  by simp

text \<open>
  Whatever bytes arrive, the server replies or accepts only after it has opened a frame
  whose plaintext is the greeting.
\<close>

theorem handshake_safe:
  assumes "ReceiveHandshake A nonce_draw w r key = (w1, r1, err)"
  shows "(w1 \<noteq> w \<longrightarrow> fst (ReadFrame A r key) = Inr hello)
    \<and> (err = None \<longrightarrow> fst (ReadFrame A r key) = Inr hello \<and> r1 = snd (ReadFrame A r key))"
  using assms by (auto simp: ReceiveHandshake_def split: prod.splits sum.splits if_splits option.splits)

theorem handshake_safe_witness:
  "fst (ReadFrame tag_aead \<lparr>rd_in = put_raw (frame_body tag_aead key_a nonce_0 hello), rd_end = EOF\<rparr> key_a)
     = Inr hello"
proof -
  have "\<exists>s2c. ReceiveHandshake tag_aead (Inr nonce_0) \<lparr>wr_out = [], wr_room = None\<rparr>
      \<lparr>rd_in = put_raw (frame_body tag_aead key_a nonce_0 hello), rd_end = EOF\<rparr> key_a
      = (\<lparr>wr_out = s2c, wr_room = None\<rparr>, \<lparr>rd_in = [], rd_end = EOF\<rparr>, None)"
    using WriteFrame_sends [OF tag_aead_ok, of key_a nonce_0 "\<lparr>wr_out = [], wr_room = None\<rparr>" ready]
      ReadFrame_put_raw [OF tag_aead_ok, of key_a nonce_0 hello "[]" EOF]
    by (simp add: ReceiveHandshake_def short_frame)
  then show ?thesis using handshake_safe by blast
qed



section \<open>Tokens and typed frames\<close>

text \<open>
  A generated token always passes the validation of tokens: 32 characters, all letters
  or digits, as long as the random source answers.
\<close>

theorem GenerateToken_valid:
  assumes "draws_ok draw" and "\<forall>i. \<exists>n. draw i = Inr n"
  shows "\<exists>t. GenerateToken draw = Inr t \<and> ValidateToken t = None"
proof -
  have "\<exists>t. token_bytes draw i k = Inr t" for i k
  proof (induction k arbitrary: i)
    case (Suc k)
    obtain n t where "draw i = Inr n" "token_bytes draw (Suc i) k = Inr t"
      using assms(2) Suc.IH by blast
    then show ?case by simp
  qed simp
  then obtain t where t: "GenerateToken draw = Inr t" by (auto simp: GenerateToken_def)
  then have "ValidateToken t = None"
    using token_bytes_ok [OF assms(1)] by (simp add: GenerateToken_def ValidateToken_None tokenLen_def)
  with t show ?thesis by blast
qed

theorem GenerateToken_valid_witness:
  "\<exists>t. GenerateToken (\<lambda>i. Inr (7 * i mod 62)) = Inr t \<and> ValidateToken t = None"
  by (rule GenerateToken_valid) (auto simp: draws_ok_def tokenCharset_ok)

text \<open>
  A typed frame arrives with its type byte and its payload, and the frames of the
  protocol are never empty: an empty plaintext is refused by the typed reader.
\<close>

theorem typed_frame_roundtrip:
  assumes "aead_ok A" and "length key = 32" and "length nonce = nonceSize"
    and "29 + length payload \<le> maxFrameBytes"
  shows "\<exists>out. WriteTypedFrame A (Inr nonce) \<lparr>wr_out = [], wr_room = None\<rparr> key typ payload
      = (\<lparr>wr_out = out, wr_room = None\<rparr>, None)
    \<and> ReadTypedFrame A \<lparr>rd_in = out @ rest, rd_end = e\<rparr> key
      = (Inr (typ, payload), \<lparr>rd_in = rest, rd_end = e\<rparr>)
    \<and> ReadTypedFrame A \<lparr>rd_in = put_raw (frame_body A key nonce []) @ rest, rd_end = e\<rparr> key
      = (Inl EmptyTypedFrame, \<lparr>rd_in = rest, rd_end = e\<rparr>)"
  using assms(4)
  by (simp add: WriteTypedFrame_def ReadTypedFrame_def WriteFrame_sends [OF assms(1-3)]
      ReadFrame_put_raw [OF assms(1-3)])

theorem typed_frame_roundtrip_witness:
  "\<exists>out. WriteTypedFrame tag_aead (Inr nonce_0) \<lparr>wr_out = [], wr_room = None\<rparr> key_a FrameEvent ''up''
      = (\<lparr>wr_out = out, wr_room = None\<rparr>, None)
    \<and> ReadTypedFrame tag_aead \<lparr>rd_in = out @ [], rd_end = EOF\<rparr> key_a
      = (Inr (FrameEvent, ''up''), \<lparr>rd_in = [], rd_end = EOF\<rparr>)"
  using typed_frame_roundtrip [OF tag_aead_ok, of key_a nonce_0 "''up''" FrameEvent "[]" EOF]
  by (auto simp: maxFrameBytes_def)

end
