(* ===== verification/Server_Run.thy ===== *)
theory Server_Run
  imports Server_Steps Proto_Props
begin

text \<open>
  The daemon around \<open>serveClient\<close>: \<open>Run\<close> and \<open>PrintToken\<close> of \<open>internal/server/server.go\<close>, and the
  texts of the errors of \<open>internal/proto/proto.go\<close> that \<open>Run\<close> logs. One client is served at a time;
  the daemon is in \<open>Accept\<close>, serving, or has returned.
\<close>

section \<open>The texts of protocol errors\<close>

definition io_text :: "io_err \<Rightarrow> string" where
  "io_text e = (case e of EOF \<Rightarrow> ''EOF'' | UnexpectedEOF \<Rightarrow> ''unexpected EOF'' | IoErr s \<Rightarrow> s)"

text \<open>
  \<open>%q\<close> of a rune. The texts of the two errors of the cipher package are arguments: \<open>cipher\<close> of
  \<open>New\<close>, \<open>auth\<close> of \<open>Open\<close>.
\<close>

definition quote_rune :: "char \<Rightarrow> string" where
  "quote_rune c =
     (let q = [CHR 0x27] in
      q @ (if c = CHR 0x27 then [CHR 0x5C, CHR 0x27] else if c = CHR 0x22 then [c] else quote_char c) @ q)"

fun proto_text :: "string \<Rightarrow> string \<Rightarrow> proto_error \<Rightarrow> string" where
  "proto_text cipher auth (GenerateFailed e) = ''proto: generate token: '' @ e"
| "proto_text cipher auth (TokenLength n) =
     ''must be exactly '' @ itoa (int tokenLen) @ '' characters, got '' @ itoa (int n)"
| "proto_text cipher auth (TokenChar c) =
     ''invalid character '' @ quote_rune c @ '' '' @ em_dash @ '' only [A-Za-z0-9] allowed''"
| "proto_text cipher auth NewCipher = ''proto: new cipher: '' @ cipher"
| "proto_text cipher auth (NonceFailed e) = ''proto: nonce: '' @ e"
| "proto_text cipher auth (WriteHeader e) = ''proto: write header: '' @ io_text e"
| "proto_text cipher auth (WriteNonce e) = ''proto: write nonce: '' @ io_text e"
| "proto_text cipher auth (WriteCiphertext e) = ''proto: write ciphertext: '' @ io_text e"
| "proto_text cipher auth (ReadHeader e) = ''proto: read header: '' @ io_text e"
| "proto_text cipher auth FrameTooShort = ''proto: frame too short''"
| "proto_text cipher auth (FrameTooLarge n) = ''proto: frame too large ('' @ itoa (int n) @ '' bytes)''"
| "proto_text cipher auth (ReadBody e) = ''proto: read frame: '' @ io_text e"
| "proto_text cipher auth DecryptFailed = ''proto: decrypt: '' @ auth"
| "proto_text cipher auth EmptyTypedFrame = ''proto: empty typed frame''"
| "proto_text cipher auth (HandshakeSend e) = ''proto: handshake send: '' @ proto_text cipher auth e"
| "proto_text cipher auth (HandshakeRecv e) = ''proto: handshake recv: '' @ proto_text cipher auth e"
| "proto_text cipher auth (HandshakeReply e) = ''proto: handshake reply: '' @ proto_text cipher auth e"
| "proto_text cipher auth (UnexpectedReply s) = ''proto: unexpected handshake reply '' @ go_quote s"
| "proto_text cipher auth (UnexpectedMessage s) = ''proto: unexpected handshake message '' @ go_quote s"

section \<open>The daemon\<close>

text \<open>\<open>border\<close> is what the terminal library makes of the style with the rounded border.\<close>

definition PrintToken :: "(string \<Rightarrow> string) \<Rightarrow> env \<Rightarrow> server \<Rightarrow> string" where
  "PrintToken border E s =
     (let titleStyle = fg ''12'' (bold lstyle_new);
          tokenStyle = fg ''11'' (bold lstyle_new);
          dimStyle = fg ''8'' lstyle_new;
          body = join
            [e_render E titleStyle (''tcpsh server listening on '' @ sv_bind s),
             [],
             ''TOKEN  '' @ e_render E tokenStyle (sv_token s),
             [],
             e_render E dimStyle ''Connect:'',
             ''  tcpsh -client '' @ sv_bind s @ '' -token '' @ e_render E tokenStyle ''<TOKEN>'',
             ''  TCPSH_TOKEN='' @ e_render E tokenStyle ''<TOKEN>'' @ '' tcpsh -client '' @ sv_bind s,
             [],
             e_render E dimStyle (''Keep this token secret '' @ em_dash @ '' it encrypts all traffic.'')] nl
      in border body @ nl)"

datatype daemon_mode = DmAccepting | DmServing string | DmReturned

record daemon =
  dm_server :: server
  dm_mode :: daemon_mode
  dm_out :: string
  dm_err :: string

text \<open>\<open>Run\<close> up to its loop: the box with the token is printed before the address is tried.\<close>

definition run_start :: "(string \<Rightarrow> string) \<Rightarrow> env \<Rightarrow> server \<Rightarrow> string \<times> (string + daemon)" where
  "run_start border E s =
     (let box = PrintToken border E s in
      case e_listen E (sv_bind s) of
        Some err \<Rightarrow> (box, Inl (''server: listen '' @ sv_bind s @ '': '' @ err))
      | None \<Rightarrow>
          (let greeting = box @ ''  [server] waiting for client connection on '' @ sv_bind s @ nl in
           (greeting, Inr \<lparr>dm_server = s, dm_mode = DmAccepting, dm_out = greeting, dm_err = []\<rparr>)))"

text \<open>
  The body of the loop for a connection from \<open>peer\<close>: \<open>arrived\<close> is what has come in when the
  handshake reads, \<open>w\<close> what goes out; the result has the wire and the bytes dropped with the
  buffer of \<open>authenticate\<close>. A failed handshake closes the connection.
\<close>

definition run_accept ::
  "aead \<Rightarrow> (proto_error \<Rightarrow> string) \<Rightarrow> string + string \<Rightarrow> string \<Rightarrow> wire \<Rightarrow> reader \<Rightarrow> daemon
    \<Rightarrow> (daemon \<times> wire \<times> string) option" where
  "run_accept A show_err nonce_draw peer w arrived d =
     (if dm_mode d \<noteq> DmAccepting then None
      else case authenticate A nonce_draw w arrived (sv_key (dm_server d)) of
        (w1, Some err, dropped) \<Rightarrow>
          Some (d\<lparr>dm_err := dm_err d @ ''  [server] auth failed from '' @ peer @ '': '' @ show_err err @ nl\<rparr>,
                w1, dropped)
      | (w1, None, dropped) \<Rightarrow>
          Some (d\<lparr>dm_out := dm_out d @ ''  [server] client connected: '' @ peer @ nl,
                  dm_server := serveClient (dm_server d), dm_mode := DmServing peer\<rparr>, w1, dropped))"

text \<open>\<open>serveClient\<close> has returned.\<close>

definition run_served :: "daemon \<Rightarrow> daemon option" where
  "run_served d =
     (case dm_mode d of
        DmServing peer \<Rightarrow>
          if sv_mode (dm_server d) = SvDone
          then Some (d\<lparr>dm_out := dm_out d @ ''  [server] client disconnected: '' @ peer @ '' '' @ em_dash
                         @ '' waiting for next connection'' @ nl, dm_mode := DmAccepting\<rparr>)
          else None
      | _ \<Rightarrow> None)"

text \<open>\<open>Accept\<close> fails once the listener is closed, and \<open>Run\<close> returns \<open>nil\<close>.\<close>

definition run_closed :: "daemon \<Rightarrow> daemon option" where
  "run_closed d = (if dm_mode d = DmAccepting then Some (d\<lparr>dm_mode := DmReturned\<rparr>) else None)"

inductive run_step :: "aead \<Rightarrow> (proto_error \<Rightarrow> string) \<Rightarrow> env \<Rightarrow> daemon \<Rightarrow> daemon \<Rightarrow> bool"
  for A :: aead and show_err :: "proto_error \<Rightarrow> string" and E :: env where
  connects: "run_accept A show_err nonce_draw peer w arrived d = Some (d', w', dropped) \<Longrightarrow>
    run_step A show_err E d d'"
| serves: "dm_mode d = DmServing peer \<Longrightarrow> srv_step E (dm_server d) s \<Longrightarrow>
    run_step A show_err E d (d\<lparr>dm_server := s\<rparr>)"
| served: "run_served d = Some d' \<Longrightarrow> run_step A show_err E d d'"
| closed: "run_closed d = Some d' \<Longrightarrow> run_step A show_err E d d'"
| idles: "dm_mode d = DmAccepting \<Longrightarrow> run_step A show_err E d (d\<lparr>dm_server := (dm_server d)\<lparr>sv_world := w\<rparr>\<rparr>)"

section \<open>Only a client with the key is served\<close>

lemma authenticate_None:
  assumes "authenticate A nonce_draw w arrived key = (w1, None, dropped)"
  shows "\<exists>r1. ReadFrame A arrived key = (Inr hello, r1)"
  using assms
  by (auto simp: authenticate_def ReceiveHandshake_def split: prod.splits sum.splits if_splits option.splits)

text \<open>
  Whoever cannot seal \<open>HELLO\<close> under the key of the server gets nothing: if the first frame
  of a connection does not decrypt to it, the server does not change, stays in its accept
  loop, and not one byte is written to the connection.
\<close>

theorem stranger_refused:
  assumes "run_accept A show_err nonce_draw peer w arrived d = Some (d', w', dropped)"
    and "fst (ReadFrame A arrived (sv_key (dm_server d))) \<noteq> Inr hello"
  shows "dm_server d' = dm_server d \<and> dm_mode d' = DmAccepting \<and> w' = w \<and> dm_out d' = dm_out d
    \<and> (\<exists>line. dm_err d' = dm_err d @ ''  [server] auth failed from '' @ peer @ line)"
proof -
  obtain w1 err dropped1 where a: "authenticate A nonce_draw w arrived (sv_key (dm_server d)) = (w1, err, dropped1)"
    by (metis prod_cases3)
  have m: "dm_mode d = DmAccepting" using assms(1) by (auto simp: run_accept_def split: if_splits)
  have "err \<noteq> None"
  proof
    assume "err = None"
    then have "\<exists>r1. ReadFrame A arrived (sv_key (dm_server d)) = (Inr hello, r1)"
      using a by (intro authenticate_None) simp
    with assms(2) show False by auto
  qed
  then obtain e where e: "err = Some e" by blast
  have "w1 = w"
    using a assms(2)
    by (auto simp: authenticate_def ReceiveHandshake_def split: prod.splits sum.splits if_splits)
  with assms(1) a e m show ?thesis by (auto simp: run_accept_def)
qed

definition daemon0 :: daemon where
  "daemon0 = \<lparr>dm_server = menu_server\<lparr>sv_mode := SvDone\<rparr>, dm_mode = DmAccepting, dm_out = [], dm_err = []\<rparr>"

theorem stranger_refused_witness:
  "\<exists>d' dropped. run_accept tag_aead (\<lambda>_. []) (Inr []) ''evil'' \<lparr>wr_out = [], wr_room = None\<rparr> \<lparr>rd_in = [], rd_end = EOF\<rparr> daemon0
       = Some (d', \<lparr>wr_out = [], wr_room = None\<rparr>, dropped) \<and> dm_server d' = dm_server daemon0"
proof -
  let ?w = "\<lparr>wr_out = [], wr_room = None\<rparr>" and ?r = "\<lparr>rd_in = [], rd_end = EOF\<rparr>"
  have f: "fst (ReadFrame tag_aead ?r k) \<noteq> Inr hello" for k
    by (simp add: ReadFrame_def get_raw_def read_full_def lenFieldSize_def split: prod.split sum.split)
  have "run_accept tag_aead (\<lambda>_. []) (Inr []) ''evil'' ?w ?r daemon0 \<noteq> None"
    by (simp add: run_accept_def daemon0_def split: prod.split option.split)
  then obtain d' w' dr where r: "run_accept tag_aead (\<lambda>_. []) (Inr []) ''evil'' ?w ?r daemon0 = Some (d', w', dr)"
    by auto
  from stranger_refused [OF r f] r show ?thesis by auto
qed

section \<open>From one client to the next\<close>

text \<open>
  The next client finds the world as the last one left it, and nothing of the last
  conversation: the same sessions, listeners and forwards, a context that is not done, empty
  channels, and the menu.
\<close>

theorem next_client_starts_clean:
  assumes "run_served d = Some d1"
    and "run_accept A show_err nonce_draw peer w arrived d1 = Some (d2, w', dropped)"
    and "dm_mode d2 \<noteq> DmAccepting" and "ctxs_wf (sv_world (dm_server d))"
  shows "n_store (sv_world (dm_server d2)) = n_store (sv_world (dm_server d))
    \<and> n_listeners (sv_world (dm_server d2)) = n_listeners (sv_world (dm_server d))
    \<and> n_lheap (sv_world (dm_server d2)) = n_lheap (sv_world (dm_server d))
    \<and> w_fwd (sv_world (dm_server d2)) = w_fwd (sv_world (dm_server d))
    \<and> srv_start (dm_server d2) \<and> sv_mode (dm_server d2) = SvMenu \<and> \<not> sv_done (dm_server d2)
    \<and> sv_sent (dm_server d2) = [] \<and> sv_outCh (dm_server d2) = [] \<and> sv_cmds (dm_server d2) = []
    \<and> sv_pending (dm_server d2) = [] \<and> sv_key (dm_server d2) = sv_key (dm_server d)"
proof -
  have d1: "dm_server d1 = dm_server d" "dm_mode d1 = DmAccepting"
    using assms(1) by (auto simp: run_served_def split: daemon_mode.splits if_splits)
  have d2: "dm_server d2 = serveClient (dm_server d)"
    using assms(2,3) d1 by (auto simp: run_accept_def split: prod.splits option.splits if_splits)
  have "\<not> sv_done (serveClient (dm_server d))"
    using assms(4) by (auto simp: sv_done_def serveClient_def with_cancel_def ctx_done_def ctxs_wf_def)
  then show ?thesis
    by (auto simp: d2 srv_start_def) (simp_all add: serveClient_def with_cancel_def)
qed

theorem next_client_starts_clean_witness:
  "\<exists>d1 d2 w' dropped. run_served (daemon0\<lparr>dm_mode := DmServing ''a'', dm_server := menu_server\<lparr>sv_mode := SvDone, sv_key := key_a\<rparr>\<rparr>) = Some d1
     \<and> (\<exists>arrived. run_accept tag_aead (\<lambda>_. []) (Inr nonce_0) ''b'' \<lparr>wr_out = [], wr_room = None\<rparr> arrived d1 = Some (d2, w', dropped))
     \<and> n_store (sv_world (dm_server d2)) = n_store busy_world \<and> sv_mode (dm_server d2) = SvMenu"
proof -
  let ?s = "menu_server\<lparr>sv_mode := SvDone, sv_key := key_a\<rparr>"
  let ?d = "daemon0\<lparr>dm_mode := DmServing ''a'', dm_server := ?s\<rparr>"
  obtain d1 where d1: "run_served ?d = Some d1" "dm_mode d1 = DmAccepting" "dm_server d1 = ?s"
    by (simp add: run_served_def)
  have k: "length key_a = 32" "length nonce_0 = nonceSize" by simp_all
  from handshake_completes [OF tag_aead_ok k(1) k(2) k(2), of "[]" EOF "[]" EOF] obtain c2s s2c where
    "ReceiveHandshake tag_aead (Inr nonce_0) \<lparr>wr_out = [], wr_room = None\<rparr> \<lparr>rd_in = c2s, rd_end = EOF\<rparr> key_a
       = (\<lparr>wr_out = s2c, wr_room = None\<rparr>, \<lparr>rd_in = [], rd_end = EOF\<rparr>, None)" by auto
  then have a: "authenticate tag_aead (Inr nonce_0) \<lparr>wr_out = [], wr_room = None\<rparr> \<lparr>rd_in = c2s, rd_end = EOF\<rparr> key_a
      = (\<lparr>wr_out = s2c, wr_room = None\<rparr>, None, [])" by (simp add: authenticate_def)
  then obtain d2 where d2: "run_accept tag_aead (\<lambda>_. []) (Inr nonce_0) ''b'' \<lparr>wr_out = [], wr_room = None\<rparr>
      \<lparr>rd_in = c2s, rd_end = EOF\<rparr> d1 = Some (d2, \<lparr>wr_out = s2c, wr_room = None\<rparr>, [])"
    and m: "dm_mode d2 \<noteq> DmAccepting"
    using d1 by (simp add: run_accept_def)
  have "ctxs_wf (sv_world (dm_server ?d))"
    by (simp add: menu_server_def busy_world_def empty_world_def net.extend_def net_init_def ctxs_wf_def)
  from next_client_starts_clean [OF d1(1) d2 m this] d1(1) d2 show ?thesis
    by (intro exI conjI) (auto simp: menu_server_def)
qed

section \<open>The life of the daemon\<close>

definition run_begin :: "daemon \<Rightarrow> bool" where
  "run_begin d \<longleftrightarrow> dm_mode d = DmAccepting"

definition run_inv :: "daemon \<Rightarrow> bool" where
  "run_inv d \<longleftrightarrow> (\<forall>peer. dm_mode d = DmServing peer \<longrightarrow> srv_inv (dm_server d))"

lemma run_step_inv: "run_inv d \<Longrightarrow> run_step A show_err E d d' \<Longrightarrow> run_inv d'"
proof -
  assume inv: "run_inv d" and "run_step A show_err E d d'"
  from this(2) show "run_inv d'"
  proof cases
    case (connects nonce_draw peer w arrived w' dropped)
    have "srv_inv (serveClient (dm_server d))" by (rule srv.start_inv) (auto simp: srv_start_def)
    with connects inv show ?thesis
      by (auto simp: run_inv_def run_accept_def split: if_splits prod.splits option.splits)
  next
    case (serves peer s)
    then show ?thesis using inv srv_step_inv [of "dm_server d" E s] by (simp add: run_inv_def)
  next
    case served
    then show ?thesis by (auto simp: run_inv_def run_served_def split: daemon_mode.splits if_splits)
  next
    case closed
    then show ?thesis by (auto simp: run_inv_def run_closed_def split: if_splits)
  next
    case (idles w)
    then show ?thesis by (simp add: run_inv_def)
  qed
qed

interpretation dm: inductive_invariant run_begin "run_step A show_err E" run_inv
proof
  show "run_inv d" if "run_begin d" for d using that by (simp add: run_begin_def run_inv_def)
qed (rule run_step_inv)

lemma wedged_daemon:
  assumes "(run_step A show_err E)\<^sup>*\<^sup>* d t" and "wedged (dm_server d)" and "sv_mode (dm_server d) \<noteq> SvDone"
    and "dm_mode d = DmServing peer"
  shows "wedged (dm_server t) \<and> sv_mode (dm_server t) = sv_mode (dm_server d) \<and> dm_mode t = DmServing peer
    \<and> sv_pending (dm_server t) = sv_pending (dm_server d) \<and> sv_sent (dm_server t) = sv_sent (dm_server d)"
  using assms
proof (induction rule: rtranclp_induct)
  case (step t u)
  from step.hyps(2) show ?case
  proof cases
    case (connects nonce_draw p w arrived w' dropped)
    then show ?thesis using step by (simp add: run_accept_def)
  next
    case (serves p s)
    then show ?thesis using step wedged_step [of "dm_server t" E s] by simp
  next
    case served
    then show ?thesis using step by (simp add: run_served_def)
  next
    case closed
    then show ?thesis using step by (simp add: run_closed_def)
  next
    case (idles w)
    then show ?thesis using step by simp
  qed
qed simp

text \<open>
  C29. One failed write can end the service for good. The writer goroutine returns when the
  connection refuses a frame, and nobody is told; if the frames then pile up to the capacity
  of the channel and the main goroutine has one more to send, it waits for ever. Such a state
  is reachable, and from it, whatever the client, the listeners and the sessions do, the
  daemon stays with its dead client: it never accepts another one.
\<close>

theorem writer_loss_wedges:
  "\<exists>s. reach srv_start (srv_step E) s \<and> sv_pending s \<noteq> []
     \<and> (\<forall>d t. dm_server d = s \<and> dm_mode d = DmServing peer \<and> (run_step A show_err E)\<^sup>*\<^sup>* d t \<longrightarrow>
          dm_mode t = DmServing peer \<and> sv_pending (dm_server t) = sv_pending s
          \<and> sv_sent (dm_server t) = sv_sent s)"
proof -
  obtain s where s: "reach srv_start (srv_step E) s" "sv_mode s = SvMenu" "wedged s"
    using wedge_reachable [of E] by blast
  then have "sv_pending s \<noteq> []" by (simp add: wedged_def)
  moreover have "dm_mode t = DmServing peer \<and> sv_pending (dm_server t) = sv_pending s
      \<and> sv_sent (dm_server t) = sv_sent s"
    if "dm_server d = s" "dm_mode d = DmServing peer" "(run_step A show_err E)\<^sup>*\<^sup>* d t" for d t
    using wedged_daemon [OF that(3)] that s by simp
  ultimately show ?thesis using s(1) by blast
qed

theorem writer_loss_wedges_witness:
  "\<exists>s. reach srv_start (srv_step plain_env) s
     \<and> (\<nexists>t. (run_step tag_aead (\<lambda>_. []) plain_env)\<^sup>*\<^sup>* (daemon0\<lparr>dm_server := s, dm_mode := DmServing ''a''\<rparr>) t
          \<and> dm_mode t = DmAccepting)"
proof -
  obtain s where s: "reach srv_start (srv_step plain_env) s"
    "\<And>d t. dm_server d = s \<Longrightarrow> dm_mode d = DmServing ''a'' \<Longrightarrow> (run_step tag_aead (\<lambda>_. []) plain_env)\<^sup>*\<^sup>* d t \<Longrightarrow>
      dm_mode t = DmServing ''a''"
    using writer_loss_wedges [of plain_env "''a''" tag_aead "\<lambda>_. []"] by blast
  have "dm_mode t = DmServing ''a''"
    if "(run_step tag_aead (\<lambda>_. []) plain_env)\<^sup>*\<^sup>* (daemon0\<lparr>dm_server := s, dm_mode := DmServing ''a''\<rparr>) t" for t
    by (rule s(2) [OF _ _ that]) simp_all
  with s(1) show ?thesis by fastforce
qed

end
