(* ===== verification/Root_Model.thy ===== *)
theory Root_Model
  imports Server_Model Client_Model
begin

text \<open>
  The command line, \<open>cmd/root.go\<close>: the choice of the mode and of the token.
\<close>

record flags =
  flagQuiet :: bool
  flagPort :: int
  flagServer :: string
  flagClient :: string
  flagToken :: string

text \<open>\<open>getenv\<close> is the value of \<open>TCPSH_TOKEN\<close>, \<open>stdin\<close> the line typed at the prompt.\<close>

definition resolveServerToken :: "string \<Rightarrow> string \<Rightarrow> string" where
  "resolveServerToken getenv flagValue = (if flagValue \<noteq> [] then flagValue else getenv)"

definition resolveToken :: "string \<Rightarrow> string \<Rightarrow> string \<Rightarrow> string" where
  "resolveToken getenv stdin flagValue =
     (if flagValue \<noteq> [] then flagValue
      else if getenv \<noteq> [] then getenv
      else trim_space stdin)"

datatype mode_run =
    RunServer config string string
  | RunClient string string
  | RunConsole config string
  | RunError string

definition root_run :: "string + config \<Rightarrow> string \<Rightarrow> string \<Rightarrow> flags \<Rightarrow> mode_run" where
  "root_run loaded getenv stdin fl =
     (case loaded of
        Inl err \<Rightarrow> RunError (''config: '' @ err)
      | Inr cfg0 \<Rightarrow>
          let cfg = (if flagQuiet fl then cfg0\<lparr>Quiet := True\<rparr> else cfg0) in
          if flagServer fl \<noteq> []
          then RunServer cfg (flagServer fl) (resolveServerToken getenv (flagToken fl))
          else if flagClient fl \<noteq> []
          then (let token = resolveToken getenv stdin (flagToken fl) in
                if token = []
                then RunError (''no token provided '' @ em_dash @ '' use -token or set TCPSH_TOKEN'')
                else RunClient (flagClient fl) token)
          else RunConsole cfg
                 (if 0 < flagPort fl then ''Opening port '' @ itoa (flagPort fl) @ ''...'' @ nl else []))"

text \<open>The usage text: \<open>defaults\<close> is what the flag package prints for the flags.\<close>

definition usage :: "string \<Rightarrow> string" where
  "usage defaults = concat
     [''tcpsh '', em_dash, '' interactive TCP server and connection manager'', nl, nl,
      ''Modes:'', nl,
      ''  Console (default)   Interactive REPL on the local terminal.'', nl,
      ''  Server  (-server)   Headless daemon; a client connects over encrypted TCP.'', nl,
      ''  Client  (-client)   Connects to a running tcpsh server.'', nl, nl,
      ''Flags:'', nl, defaults]"

text \<open>\<open>Execute\<close>: what is written to the standard error, and the exit code, if the error decides it.\<close>

definition Execute :: "string option \<Rightarrow> string \<times> nat option" where
  "Execute run_result =
     (case run_result of None \<Rightarrow> ([], None) | Some err \<Rightarrow> (err @ nl, Some 1))"

end
