(* ===== verification/Root_Props.thy ===== *)
theory Root_Props
  imports Root_Model Proto_Props Server_Props
begin

text \<open>
  From the command line to a session between client and server: which token each mode runs
  with (\<open>cmd/root.go\<close>), and that the two meet (\<open>server.New\<close>, \<open>client.Run\<close>, \<open>authenticate\<close>).
\<close>

text \<open>
  The token of a mode. A client never starts without one; a server started by the command
  line never runs with an invalid one; the flag wins over the environment, and the server
  flag over the client flag.
\<close>

theorem root_tokens:
  assumes "draws_ok draw"
  shows "(\<forall>addr t. root_run (Inr cfg) getenv stdin fl = RunClient addr t \<longrightarrow>
       t \<noteq> [] \<and> addr = flagClient fl \<and> flagServer fl = []
       \<and> (flagToken fl \<noteq> [] \<longrightarrow> t = flagToken fl) \<and> (flagToken fl = [] \<and> getenv \<noteq> [] \<longrightarrow> t = getenv))
    \<and> (\<forall>cfg' bnd t s. root_run (Inr cfg) getenv stdin fl = RunServer cfg' bnd t
         \<and> server_New sha256 draw cfg' bnd t = Inr s \<longrightarrow>
       bnd = flagServer fl \<and> ValidateToken (sv_token s) = None \<and> sv_key s = sha256 (sv_token s)
       \<and> (flagToken fl \<noteq> [] \<longrightarrow> sv_token s = flagToken fl)
       \<and> (flagToken fl = [] \<and> getenv \<noteq> [] \<longrightarrow> sv_token s = getenv))"
proof -
  have "ValidateToken (sv_token s) = None \<and> sv_key s = sha256 (sv_token s) \<and> (t \<noteq> [] \<longrightarrow> sv_token s = t)"
    if "server_New sha256 draw cfg' bnd t = Inr s" for cfg' bnd t s
    using server_New_token [OF assms that] by blast
  then show ?thesis
    by (auto simp: root_run_def Let_def resolveToken_def resolveServerToken_def split: if_splits)
qed

definition sample_token :: string where "sample_token = replicate 32 CHR ''k''"

lemma sample_token_valid: "ValidateToken sample_token = None"
  by (simp add: sample_token_def ValidateToken_None token_char_def)

lemma sample_draws: "draws_ok (\<lambda>i. Inr (i mod 62))"
  by (auto simp: draws_ok_def tokenCharset_ok)

lemma sample_server:
  "\<exists>s. server_New (\<lambda>_. key_a) (\<lambda>i. Inr (i mod 62)) defaultConfig '':9000'' sample_token = Inr s
     \<and> sv_token s = sample_token"
  using sample_token_valid by (simp add: server_New_def Let_def sample_token_def)

theorem root_tokens_witness:
  "\<exists>s. root_run (Inr defaultConfig) sample_token [] \<lparr>flagQuiet = False, flagPort = 0, flagServer = '':9000'',
          flagClient = [], flagToken = []\<rparr> = RunServer defaultConfig '':9000'' sample_token
     \<and> server_New (\<lambda>_. key_a) (\<lambda>i. Inr (i mod 62)) defaultConfig '':9000'' sample_token = Inr s
     \<and> ValidateToken (sv_token s) = None \<and> sv_token s = sample_token"
proof -
  let ?fl = "\<lparr>flagQuiet = False, flagPort = 0, flagServer = '':9000'', flagClient = [], flagToken = []\<rparr>"
  obtain s where s: "server_New (\<lambda>_. key_a) (\<lambda>i. Inr (i mod 62)) defaultConfig '':9000'' sample_token = Inr s"
    using sample_server by blast
  have r: "root_run (Inr defaultConfig) sample_token [] ?fl = RunServer defaultConfig '':9000'' sample_token"
    by (simp add: root_run_def resolveServerToken_def)
  have "sample_token \<noteq> []" by (simp add: sample_token_def)
  with root_tokens [OF sample_draws, THEN conjunct2, rule_format, OF conjI [OF r s]] r s
  show ?thesis by (simp add: sample_token_valid)
qed

text \<open>
  C21. A client with the server's token gets in: when the cipher behaves as an AEAD and the
  digest has 32 bytes, the client's handshake frame makes the server accept it, and the
  server's answer takes the client to its menu, with the bytes that follow left to be read.
\<close>

theorem client_meets_server:
  assumes "aead_ok A" and "\<forall>t. length (sha256 t) = 32" and "draws_ok draw"
    and "server_New sha256 draw cfg bnd token = Inr s"
    and "length n1 = nonceSize" and "length n2 = nonceSize"
  shows "\<exists>c2s s2c c.
      client_Run A sha256 (Inr n1) None None \<lparr>wr_out = [], wr_room = None\<rparr> \<lparr>rd_in = s2c @ rest, rd_end = e\<rparr>
          addr (sv_token s)
        = Inr (c, \<lparr>wr_out = c2s, wr_room = None\<rparr>, \<lparr>rd_in = rest, rd_end = e\<rparr>)
    \<and> cl_mode c = ClMenu
    \<and> authenticate A (Inr n2) \<lparr>wr_out = [], wr_room = None\<rparr> \<lparr>rd_in = c2s, rd_end = e\<rparr> (sv_key s)
        = (\<lparr>wr_out = s2c, wr_room = None\<rparr>, None, [])"
proof -
  have key: "sv_key s = sha256 (sv_token s)" using server_New_token [OF assms(3,4)] by simp
  have len: "length (sha256 (sv_token s)) = 32" using assms(2) by simp
  from handshake_completes [OF assms(1) len assms(5,6), of rest e "[]" e] obtain c2s s2c where
    hs: "SendHandshake A (Inr n1) \<lparr>wr_out = [], wr_room = None\<rparr> \<lparr>rd_in = s2c @ rest, rd_end = e\<rparr> (sha256 (sv_token s))
        = (\<lparr>wr_out = c2s, wr_room = None\<rparr>, \<lparr>rd_in = rest, rd_end = e\<rparr>, None)"
      "ReceiveHandshake A (Inr n2) \<lparr>wr_out = [], wr_room = None\<rparr> \<lparr>rd_in = c2s, rd_end = e\<rparr> (sha256 (sv_token s))
        = (\<lparr>wr_out = s2c, wr_room = None\<rparr>, \<lparr>rd_in = [], rd_end = e\<rparr>, None)"
    by auto
  show ?thesis
    by (intro exI [of _ c2s] exI [of _ s2c]) (simp add: client_Run_def authenticate_def TokenToKey_def hs key)
qed

theorem client_meets_server_witness:
  "\<exists>s c2s s2c c. server_New (\<lambda>_. key_a) (\<lambda>i. Inr (i mod 62)) defaultConfig '':9000'' sample_token = Inr s
    \<and> client_Run tag_aead (\<lambda>_. key_a) (Inr nonce_0) None None \<lparr>wr_out = [], wr_room = None\<rparr>
          \<lparr>rd_in = s2c @ [], rd_end = EOF\<rparr> ''host:9000'' (sv_token s)
        = Inr (c, \<lparr>wr_out = c2s, wr_room = None\<rparr>, \<lparr>rd_in = [], rd_end = EOF\<rparr>)
    \<and> cl_mode c = ClMenu"
proof -
  obtain s where s: "server_New (\<lambda>_. key_a) (\<lambda>i. Inr (i mod 62)) defaultConfig '':9000'' sample_token = Inr s"
    using sample_server by blast
  have l: "\<forall>t::string. length key_a = 32" by simp
  from client_meets_server [OF tag_aead_ok l sample_draws s, of nonce_0 nonce_0 "[]" EOF "''host:9000''"] s
  show ?thesis by force
qed

end
