(* ===== verification/Completer_Model.thy ===== *)
theory Completer_Model
  imports Dispatcher_Model
begin

text \<open>
  The completions the line editor offers: \<open>buildCompleter\<close> of \<open>internal/console/repl.go\<close>, as the
  tree of words it builds, against the commands that parser, dispatcher and help know.
\<close>

datatype pc_item = PcItem (pc_name: string) (pc_children: "pc_item list")

definition buildCompleter :: "pc_item list" where
  "buildCompleter =
     [PcItem ''open'' [], PcItem ''close'' [], PcItem ''kill'' [PcItem ''-f'' []], PcItem ''use'' [],
      PcItem ''info'' [], PcItem ''log'' [],
      PcItem ''list'' [PcItem ''ports'' [], PcItem ''conn'' [], PcItem ''fwd'' [], PcItem ''proxy'' [],
        PcItem ''all'' []],
      PcItem ''fwd'' [PcItem ''list'' [], PcItem ''close'' []],
      PcItem ''proxy'' [PcItem ''list'' [], PcItem ''close'' [], PcItem ''log'' []],
      PcItem ''help'' [PcItem ''open'' [], PcItem ''close'' [], PcItem ''kill'' [], PcItem ''use'' [],
        PcItem ''fwd'' [], PcItem ''proxy'' []],
      PcItem ''exit'' [], PcItem ''clear'' []]"

text \<open>The words offered after a command.\<close>

definition offered :: "string \<Rightarrow> string list" where
  "offered verb = concat (map (\<lambda>i. if pc_name i = verb then map pc_name (pc_children i) else []) buildCompleter)"

text \<open>
  The completion offers exactly the commands the parser knows, except \<open>send\<close> and \<open>read\<close>, and
  offers \<open>help\<close> exactly the commands that have a help text of their own.
\<close>

theorem completer_offers:
  "set (map pc_name buildCompleter) = set tool_verbs - {''send'', ''read''}
   \<and> (\<forall>v\<in>set (offered ''help''). helpFor E v \<noteq> helpGeneral E)
   \<and> (\<forall>v. to_lower v \<notin> set (offered ''help'') \<longrightarrow> helpFor E v = helpGeneral E)"
proof -
  have names: "map pc_name buildCompleter = [''open'', ''close'', ''kill'', ''use'', ''info'', ''log'', ''list'',
      ''fwd'', ''proxy'', ''help'', ''exit'', ''clear'']"
    by (simp add: buildCompleter_def)
  have hw: "offered ''help'' = [''open'', ''close'', ''kill'', ''use'', ''fwd'', ''proxy'']"
    by (simp add: offered_def buildCompleter_def)
  have low: "to_lower ''open'' = ''open''" "to_lower ''close'' = ''close''" "to_lower ''kill'' = ''kill''"
    "to_lower ''use'' = ''use''" "to_lower ''fwd'' = ''fwd''" "to_lower ''proxy'' = ''proxy''"
    by code_simp+
  have gen: "hd (helpGeneral E) = CHR 0x0A" by (simp add: helpGeneral_def nl_def)
  have own: "hd (helpFor E v) \<noteq> CHR 0x0A" if "v \<in> set (offered ''help'')" for v
    using that by (auto simp: hw helpFor_def low)
  have "helpFor E v \<noteq> helpGeneral E" if "v \<in> set (offered ''help'')" for v
    using own [OF that] gen by auto
  moreover have "helpFor E v = helpGeneral E" if "to_lower v \<notin> set (offered ''help'')" for v
    using that by (simp add: hw helpFor_def Let_def)
  ultimately show ?thesis unfolding names by (auto simp: tool_verbs_def)
qed

end
