(* ===== verification/Parser_Props.thy ===== *)
theory Parser_Props
  imports Parser_Model Forward_Model
begin

text \<open>
  Properties of the parser of \<open>internal/console/parser.go\<close>: what a typed command parses to,
  how the two modes differ, and the inverses of the printers of ports, indices and remote
  addresses.
\<close>

section \<open>White space around a command\<close>

lemma trim_left_append: "\<forall>c\<in>set l. is_space c \<Longrightarrow> trim_left (l @ s) = trim_left s"
  by (simp add: trim_left_def dropWhile_append2)

lemma trim_space_pad:
  assumes "\<forall>c\<in>set l. is_space c" and "\<forall>c\<in>set r. is_space c"
    and s: "s \<noteq> []" "\<not> is_space (hd s)" "\<not> is_space (last s)"
  shows "trim_space (l @ s @ r) = s"
proof -
  have "trim_left (l @ s @ r) = s @ r"
    using assms(1) s by (simp add: trim_left_append trim_left_nonspace)
  moreover have "trim_left (rev r @ rev s) = rev s"
    using assms(2) s by (simp add: trim_left_append trim_left_nonspace hd_rev)
  ultimately show ?thesis by (simp add: trim_space_def)
qed

lemma tokens_ends:
  assumes "\<forall>t\<in>set (v # args). is_token t"
  shows "join (v # args) '' '' \<noteq> [] \<and> hd (join (v # args) '' '') = hd v
    \<and> \<not> is_space (hd (join (v # args) '' '')) \<and> \<not> is_space (last (join (v # args) '' ''))"
proof -
  have "is_token v" "is_token (last (v # args))" using assms by auto
  then show ?thesis
    using join_hd [of "v # args" "'' ''"] join_last [OF _ assms, of "'' ''"]
    by (simp add: is_token_def)
qed

section \<open>Commands\<close>

text \<open>
  C28. Typing a verb and its arguments, separated by single blanks and with any white space
  around them, gives back exactly the lower-cased verb and the arguments, in the menu and
  (for a verb of the tool) in a session.
\<close>

theorem Parse_roundtrip:
  assumes "\<forall>t\<in>set (v # args). is_token t"
    and "hd v \<noteq> CHR ''!''" and "hd v \<noteq> CHR ''+''"
    and "m \<longrightarrow> to_lower v \<in> set tool_verbs"
    and "\<forall>c\<in>set l. is_space c" and "\<forall>c\<in>set r. is_space c"
  shows "Parse (l @ join (v # args) '' '' @ r) m =
    \<lparr>cmd_kind = CmdTool, cmd_verb = to_lower v, cmd_args = args, cmd_raw = join (v # args) '' ''\<rparr>"
proof -
  define s where "s = join (v # args) '' ''"
  have s: "s \<noteq> []" "hd s = hd v" "\<not> is_space (hd s)" "\<not> is_space (last s)"
    using tokens_ends [OF assms(1)] by (auto simp: s_def)
  have "trim_space (l @ s @ r) = s" by (rule trim_space_pad) (use assms s in auto)
  moreover have "str_fields s = v # args" unfolding s_def by (rule str_fields_join [OF assms(1)])
  ultimately show ?thesis
    using assms s unfolding s_def [symmetric] by (simp add: Parse_def has_prefix_1 Let_def)
qed

lemma lower_Open: "to_lower ''Open'' = ''open''"
  by code_simp

theorem Parse_roundtrip_witness:
  "Parse ''  Open 4444 tun0 '' False =
     \<lparr>cmd_kind = CmdTool, cmd_verb = ''open'', cmd_args = [''4444'', ''tun0''],
      cmd_raw = ''Open 4444 tun0''\<rparr>"
  using Parse_roundtrip [of "''Open''" "[''4444'', ''tun0'']" False "''  ''" "'' ''"]
  by (simp add: is_token_def is_space_def lower_Open)

text \<open>
  The two modes agree on every line but one kind: what the menu takes for a command with
  an unknown verb is, in a session, input for the remote side. In particular a line of the
  session that begins with a verb of the tool still parses as a command.
\<close>

theorem Parse_modes:
  "Parse line True =
     (let c = Parse line False in
      if cmd_kind c = CmdTool \<and> cmd_verb c \<notin> set tool_verbs
      then \<lparr>cmd_kind = CmdPassthrough, cmd_verb = [], cmd_args = [], cmd_raw = trim_space line\<rparr>
      else c)"
  by (simp add: Parse_def Let_def)

text \<open>What a command of each kind looks like; \<open>m\<close> is the mode it was parsed in.\<close>

definition cmd_typed :: "bool \<Rightarrow> cmd \<Rightarrow> bool" where
  "cmd_typed m c \<longleftrightarrow>
     (case cmd_kind c of
        CmdEmpty \<Rightarrow> cmd_verb c = [] \<and> cmd_args c = [] \<and> cmd_raw c = []
      | CmdSystem \<Rightarrow> (\<exists>rest. cmd_raw c = CHR ''!'' # rest \<and> cmd_verb c = [] \<and> cmd_args c = [rest])
      | CmdSpecial \<Rightarrow> is_token (cmd_verb c) \<and> hd (cmd_verb c) = CHR ''+'' \<and> cmd_args c = []
      | CmdPassthrough \<Rightarrow> m \<and> cmd_verb c = [] \<and> cmd_args c = [] \<and> cmd_raw c \<noteq> []
      | CmdTool \<Rightarrow> is_token (cmd_verb c) \<and> hd (cmd_verb c) \<notin> {CHR ''+'', CHR ''!''}
          \<and> (\<forall>a\<in>set (cmd_args c). is_token a) \<and> (m \<longrightarrow> cmd_verb c \<in> set tool_verbs))"

text \<open>
  C27. Every line parses to a command of its type. The verb is a word in small letters, and
  the arguments are words; a command for the system has exactly one argument, so that the
  \<open>Args[0]\<close> of the shell and of the server is in range; a special verb begins with a plus sign and
  no other does; and in a session a tool command is one of the known ones.
\<close>

theorem Parse_typed:
  "cmd_typed m (Parse line m) \<and> to_lower (cmd_verb (Parse line m)) = cmd_verb (Parse line m)
   \<and> cmd_raw (Parse line m) = trim_space line"
proof -
  have "cmd_typed m (Parse line m)"
  proof (cases "trim_space line")
    case Nil
    then show ?thesis by (simp add: Parse_def cmd_typed_def)
  next
    case (Cons c rest)
    have sp: "\<not> is_space c" using trim_space_hd [of line] Cons by simp
    have ne: "str_fields (c # rest) \<noteq> []" using sp by simp
    have tok: "is_token t" if "t \<in> set (str_fields (c # rest))" for t
      using str_fields_tokens [OF that] by (simp add: is_token_def)
    have verb: "is_token (to_lower (hd (str_fields (c # rest))))"
      using tok ne by (simp add: is_token_lower del: str_fields.simps)
    have args: "\<forall>a\<in>set (tl (str_fields (c # rest))). is_token a"
      using tok list.set_sel(2) [OF ne] by blast
    obtain r where h: "to_lower (hd (str_fields (c # rest))) = lower_char c # r"
      using lower_head [OF sp, of rest] by blast
    have low: "lower_char c = d \<longleftrightarrow> c = d" if "d \<in> {CHR ''+'', CHR ''!''}" for d
      using that lower_char_eq [of c d] by (auto simp: lower_char_def)
    show ?thesis
      using verb args h low Cons
      by (cases "c = CHR ''+''") (auto simp: Parse_def Let_def cmd_typed_def has_prefix_1 simp del: str_fields.simps)
  qed
  then show ?thesis by (simp add: Parse_lower Parse_raw)
qed

section \<open>Ports and indices\<close>

lemma cut_unique: "x \<notin> set a \<Longrightarrow> x \<notin> set b \<Longrightarrow> a @ x # s = b @ x # t \<longleftrightarrow> a = b \<and> s = t"
proof (induction a arbitrary: b)
  case Nil
  then show ?case by (cases b) auto
next
  case (Cons y a)
  then show ?case by (cases b) auto
qed

text \<open>
  \<open>ParsePortIdx\<close> accepts exactly a number without a colon, or two numbers around the
  first colon; in particular it accepts a negative index, and it inverts the printing of
  every pair of 64-bit integers.
\<close>

theorem ParsePortIdx_iff:
  "ParsePortIdx s = Inr (p, i) \<longleftrightarrow>
     (CHR '':'' \<notin> set s \<and> atoi s = Some p \<and> i = 0) \<or>
     (\<exists>a b. s = a @ CHR '':'' # b \<and> CHR '':'' \<notin> set a \<and> atoi a = Some p \<and> atoi b = Some i)"
proof (cases "CHR '':'' \<in> set s")
  case True
  then obtain a b where s: "s = a @ CHR '':'' # b" and a: "CHR '':'' \<notin> set a"
    by (meson split_list_first)
  have uniq: "s = a' @ CHR '':'' # b' \<and> CHR '':'' \<notin> set a' \<longleftrightarrow> a' = a \<and> b' = b" for a' b'
    using s a cut_unique [of "CHR '':''" a' a b' b] by auto
  have "ParsePortIdx s = Inr (p, i) \<longleftrightarrow> atoi a = Some p \<and> atoi b = Some i"
    unfolding s ParsePortIdx_colon [OF a] by (simp split: option.split)
  also have "\<dots> \<longleftrightarrow> (\<exists>a' b'. (s = a' @ CHR '':'' # b' \<and> CHR '':'' \<notin> set a')
      \<and> atoi a' = Some p \<and> atoi b' = Some i)"
    unfolding uniq by blast
  finally show ?thesis using True by blast
next
  case False
  then show ?thesis by (auto simp: ParsePortIdx_no_colon split: option.splits)
qed

text \<open>
  Printing a port and an index and parsing the text is the identity on 64-bit integers,
  negative ones included.
\<close>

theorem ParsePortIdx_roundtrip:
  assumes "in_int64 p" and "in_int64 i"
  shows "ParsePortIdx (itoa p @ '':'' @ itoa i) = Inr (p, i) \<and> ParsePortIdx (itoa p) = Inr (p, 0)"
  using assms itoa_no_colon [of p]
  by (simp add: ParsePortIdx_colon ParsePortIdx_no_colon atoi_itoa)

theorem ParsePortIdx_roundtrip_witness:
  "ParsePortIdx (itoa 4444 @ '':'' @ itoa (- 1)) = Inr (4444, - 1)"
  using ParsePortIdx_roundtrip [of 4444 "- 1"] by (simp add: in_int64_def min_int64_def max_int64_def)

text \<open>
  \<open>ParseRemote\<close> inverts \<open>RemoteAddr\<close>: the address shown in the table of forwards, typed
  again, gives the same host and port, whatever bytes the host has (colons included), as
  long as it is not empty.
\<close>

theorem ParseRemote_RemoteAddr:
  assumes "r_RemoteHost r \<noteq> []" and "in_int64 (r_RemotePort r)"
  shows "ParseRemote (RemoteAddr r) = Inr (r_RemoteHost r, r_RemotePort r)"
  using assms itoa_no_colon [of "r_RemotePort r"]
  by (simp add: RemoteAddr_def ParseRemote_colon atoi_itoa)

theorem ParseRemote_RemoteAddr_witness:
  "ParseRemote (RemoteAddr \<lparr>r_LocalPort = 1, r_RemoteHost = ''fe80::1'', r_RemotePort = 80,
     r_IsProxy = False, r_LogFile = []\<rparr>) = Inr (''fe80::1'', 80)"
  using ParseRemote_RemoteAddr [of "\<lparr>r_LocalPort = 1, r_RemoteHost = ''fe80::1'', r_RemotePort = 80,
     r_IsProxy = False, r_LogFile = []\<rparr>"]
  by (simp add: in_int64_def min_int64_def max_int64_def)

end
