(* ===== verification/Session_Wait.thy ===== *)
theory Session_Wait
  imports Session_Model Prelude
begin

text \<open>
  \<open>WaitDead\<close> of \<open>internal/session/session.go\<close> against the receive loop, below the level of
  atomic operations. \<open>WaitDead\<close> tests the state under the session's mutex \<open>mu\<close> and then
  waits on the condition variable of \<open>rxMu\<close>; the receive loop, when \<open>Read\<close> fails, sets the
  state and broadcasts without holding \<open>rxMu\<close>. The interleavings of these steps are the
  relation below.
\<close>

datatype wait_pc =
    AtTest
  | ToWait
  | Blocked
  | Returned_Wait

datatype rx_pc =
    Reading
  | SetDead
  | Broadcast
  | RxReturned

record wait_state =
  w_sess :: session
  w_pc :: wait_pc
  w_rx :: rx_pc

text \<open>
  The body of \<open>WaitDead\<close>: the test of the loop, the registration with the condition
  variable (\<open>Wait\<close> registers, then unlocks), and the return.
\<close>

definition wait_turn :: "wait_state \<Rightarrow> wait_state option" where
  "wait_turn x =
     (case w_pc x of
        AtTest \<Rightarrow> Some (x\<lparr>w_pc := (if WaitDead_done (w_sess x) then Returned_Wait else ToWait)\<rparr>)
      | ToWait \<Rightarrow> Some (x\<lparr>w_pc := Blocked\<rparr>)
      | _ \<Rightarrow> None)"

definition wake :: "wait_state \<Rightarrow> wait_state" where
  "wake x = (if w_pc x = Blocked then x\<lparr>w_pc := AtTest\<rparr> else x)"

text \<open>
  The receive loop: bytes are appended and announced under \<open>rxMu\<close>, which the waiter holds
  except while it is blocked or has returned; an error sets the state and broadcasts.
\<close>

definition rx_loop_turn :: "string \<Rightarrow> bool \<Rightarrow> wait_state \<Rightarrow> wait_state option" where
  "rx_loop_turn data err x =
     (case w_rx x of
        Reading \<Rightarrow>
          if data \<noteq> [] \<and> (w_pc x = Blocked \<or> w_pc x = Returned_Wait)
          then Some (wake (x\<lparr>w_sess := fst (rx_turn (w_sess x) 0 data False),
                            w_rx := (if err then SetDead else Reading)\<rparr>))
          else if data = [] \<and> err then Some (x\<lparr>w_rx := SetDead\<rparr>)
          else None
      | SetDead \<Rightarrow> Some (x\<lparr>w_sess := fst (rx_turn (w_sess x) 0 [] True), w_rx := Broadcast\<rparr>)
      | Broadcast \<Rightarrow> Some ((wake x)\<lparr>w_rx := RxReturned\<rparr>)
      | RxReturned \<Rightarrow> None)"

inductive wait_step :: "wait_state \<Rightarrow> wait_state \<Rightarrow> bool" where
  waiter: "wait_turn x = Some y \<Longrightarrow> wait_step x y"
| receiver: "rx_loop_turn data err x = Some y \<Longrightarrow> wait_step x y"

inductive_cases wait_stepE: "wait_step x y"

definition wait_start :: "wait_state \<Rightarrow> bool" where
  "wait_start x \<longleftrightarrow> w_pc x = AtTest \<and> w_rx x = Reading \<and> s_state (w_sess x) \<noteq> StateDead"

definition wait_inv :: "wait_state \<Rightarrow> bool" where
  "wait_inv x \<longleftrightarrow> (w_pc x = Returned_Wait \<longrightarrow> s_state (w_sess x) = StateDead)
     \<and> (s_state (w_sess x) = StateDead \<longleftrightarrow> w_rx x = Broadcast \<or> w_rx x = RxReturned)"

lemma rx_turn_state: "s_state (fst (rx_turn s now d err)) = (if err then StateDead else s_state s)"
  by (simp add: rx_turn_def SetState_def Let_def)

lemma wake_simps [simp]: "w_sess (wake x) = w_sess x" "w_rx (wake x) = w_rx x"
  "w_pc (wake x) = (if w_pc x = Blocked then AtTest else w_pc x)"
  by (simp_all add: wake_def)

lemma wait_turn_cases:
  assumes "wait_turn x = Some y"
  shows "w_sess y = w_sess x \<and> w_rx y = w_rx x \<and>
    (w_pc x = AtTest \<and> w_pc y = (if s_state (w_sess x) = StateDead then Returned_Wait else ToWait)
     \<or> w_pc x = ToWait \<and> w_pc y = Blocked)"
  using assms by (cases "w_pc x") (auto simp: wait_turn_def WaitDead_done_def)

lemma rx_loop_cases:
  assumes "rx_loop_turn d err x = Some y"
  shows "(w_rx x = Reading \<and> (w_rx y = SetDead \<or> w_rx y = Reading)
       \<and> s_state (w_sess y) = s_state (w_sess x)
       \<and> (w_pc y = w_pc x \<or> w_pc x = Blocked \<and> w_pc y = AtTest))
    \<or> (w_rx x = SetDead \<and> w_rx y = Broadcast \<and> s_state (w_sess y) = StateDead \<and> w_pc y = w_pc x)
    \<or> (w_rx x = Broadcast \<and> w_rx y = RxReturned \<and> w_sess y = w_sess x
       \<and> w_pc y = (if w_pc x = Blocked then AtTest else w_pc x))"
  using assms
  by (cases "w_rx x") (auto simp: rx_loop_turn_def rx_turn_state split: if_splits)

lemma wait_step_inv: "wait_inv x \<Longrightarrow> wait_step x y \<Longrightarrow> wait_inv y"
  unfolding wait_inv_def
  by (erule wait_stepE; drule wait_turn_cases rx_loop_cases; elim disjE conjE; simp split: if_splits)

interpretation wd: inductive_invariant wait_start wait_step wait_inv
proof
  show "wait_inv x" if "wait_start x" for x using that by (simp add: wait_start_def wait_inv_def)
qed (rule wait_step_inv)

text \<open>
  \<open>WaitDead\<close> returns only for a dead session, and as long as the session is alive the
  receive loop has not passed its last broadcast: in every interleaving.
\<close>

theorem WaitDead_sound:
  assumes "reach wait_start wait_step x"
  shows "(w_pc x = Returned_Wait \<longrightarrow> s_state (w_sess x) = StateDead)
    \<and> (s_state (w_sess x) \<noteq> StateDead \<longrightarrow> w_rx x \<noteq> RxReturned)"
  using wd.reach_inv [OF assms] by (auto simp: wait_inv_def)

definition sample_wait :: wait_state where
  "sample_wait = \<lparr>w_sess = newSession 1 80 (fresh_conn ''peer'') 0, w_pc = AtTest, w_rx = Reading\<rparr>"

lemma sample_wait_start: "reach wait_start wait_step sample_wait"
  by (rule reach_start) (simp add: wait_start_def sample_wait_def newSession_def fresh_conn_def)

theorem WaitDead_sound_witness:
  "w_pc sample_wait = Returned_Wait \<longrightarrow> s_state (w_sess sample_wait) = StateDead"
  using WaitDead_sound [OF sample_wait_start] by simp

text \<open>
  C32. A wake-up can be lost. There is an interleaving after which the session is dead and
  the receive loop has returned, while \<open>WaitDead\<close> is blocked, and no step is left that
  could wake it: the test came before the state was set, the registration after the
  broadcast. The watcher of such a session never reports its death.
\<close>

theorem WaitDead_lost_wakeup:
  "\<exists>x. reach wait_start wait_step x \<and> s_state (w_sess x) = StateDead \<and> w_rx x = RxReturned
     \<and> w_pc x = Blocked \<and> (\<forall>y. \<not> wait_step x y)"
proof -
  define x0 where "x0 = sample_wait"
  define x1 where "x1 = x0\<lparr>w_pc := ToWait\<rparr>"
  define x2 where "x2 = x1\<lparr>w_rx := SetDead\<rparr>"
  define x3 where "x3 = x2\<lparr>w_sess := SetState (w_sess x2) StateDead, w_rx := Broadcast\<rparr>"
  define x4 where "x4 = x3\<lparr>w_rx := RxReturned\<rparr>"
  define x5 where "x5 = x4\<lparr>w_pc := Blocked\<rparr>"
  note defs = x0_def x1_def x2_def x3_def x4_def x5_def sample_wait_def newSession_def fresh_conn_def
  have "wait_step x0 x1" by (rule waiter) (simp add: defs wait_turn_def WaitDead_done_def)
  moreover have "wait_step x1 x2" by (rule receiver [of "[]" True]) (simp add: defs rx_loop_turn_def)
  moreover have "wait_step x2 x3"
    by (rule receiver [of "[]" True]) (simp add: defs rx_loop_turn_def session_defs)
  moreover have "wait_step x3 x4"
    by (rule receiver [of "[]" True]) (simp add: defs rx_loop_turn_def wake_def)
  moreover have "wait_step x4 x5" by (rule waiter) (simp add: defs wait_turn_def)
  ultimately have "reach wait_start wait_step x5"
    using sample_wait_start unfolding x0_def [symmetric] by (meson reach_step)
  moreover have "\<not> wait_step x5 y" for y
    by (auto elim!: wait_stepE simp: defs wait_turn_def rx_loop_turn_def)
  moreover have "s_state (w_sess x5) = StateDead \<and> w_rx x5 = RxReturned \<and> w_pc x5 = Blocked"
    by (simp add: defs SetState_def)
  ultimately show ?thesis by blast
qed

definition on_time :: "wait_state \<Rightarrow> bool" where
  "on_time x \<longleftrightarrow> wait_inv x \<and> (w_rx x = Broadcast \<or> w_rx x = RxReturned \<longrightarrow> w_pc x \<noteq> ToWait)
     \<and> (w_rx x = RxReturned \<longrightarrow> w_pc x \<noteq> Blocked)
     \<and> (w_rx x = SetDead \<longrightarrow> w_pc x = Blocked)"

definition blocked_first :: "wait_state \<Rightarrow> bool" where
  "blocked_first x \<longleftrightarrow> w_pc x = Blocked \<and> w_rx x = SetDead \<and> s_state (w_sess x) \<noteq> StateDead"

lemma on_time_step: "on_time x \<Longrightarrow> w_rx x \<noteq> Reading \<Longrightarrow> wait_step x y \<Longrightarrow> on_time y \<and> w_rx y \<noteq> Reading"
  unfolding on_time_def wait_inv_def
  by (erule wait_stepE; drule wait_turn_cases rx_loop_cases; elim disjE conjE; simp split: if_splits)

interpretation wo: inductive_invariant blocked_first wait_step "\<lambda>x. on_time x \<and> w_rx x \<noteq> Reading"
proof
  show "on_time x \<and> w_rx x \<noteq> Reading" if "blocked_first x" for x
    using that by (simp add: blocked_first_def on_time_def wait_inv_def)
  show "on_time y \<and> w_rx y \<noteq> Reading" if "on_time x \<and> w_rx x \<noteq> Reading" "wait_step x y" for x y
    using that on_time_step by blast
qed

text \<open>
  A waiter that is registered before the state is set is woken: from there every run
  that lets both goroutines finish ends with \<open>WaitDead\<close> returned, because no reachable state
  has it blocked after the broadcast.
\<close>

theorem WaitDead_woken:
  assumes "reach blocked_first wait_step x" and "\<forall>y. \<not> wait_step x y"
  shows "w_pc x = Returned_Wait \<and> w_rx x = RxReturned \<and> s_state (w_sess x) = StateDead"
proof -
  have inv: "on_time x" "w_rx x \<noteq> Reading" using wo.reach_inv [OF assms(1)] by auto
  have "rx_loop_turn d e x = None" for d e using assms(2) receiver [of d e x] by (cases "rx_loop_turn d e x") auto
  then have rx: "w_rx x = RxReturned"
    using inv(2) by (cases "w_rx x") (auto simp: rx_loop_turn_def)
  have "wait_turn x = None" using assms(2) waiter [of x] by (cases "wait_turn x") auto
  then have "w_pc x = Blocked \<or> w_pc x = Returned_Wait"
    by (cases "w_pc x") (auto simp: wait_turn_def)
  with rx inv show ?thesis by (auto simp: on_time_def wait_inv_def)
qed

definition woken_end :: wait_state where
  "woken_end = \<lparr>w_sess = SetState (newSession 1 80 (fresh_conn ''peer'') 0) StateDead,
     w_pc = Returned_Wait, w_rx = RxReturned\<rparr>"

theorem WaitDead_woken_witness:
  "w_pc woken_end = Returned_Wait \<and> s_state (w_sess woken_end) = StateDead"
proof -
  define x0 where "x0 = sample_wait\<lparr>w_pc := Blocked, w_rx := SetDead\<rparr>"
  define x1 where "x1 = x0\<lparr>w_sess := SetState (w_sess x0) StateDead, w_rx := Broadcast\<rparr>"
  define x2 where "x2 = x1\<lparr>w_pc := AtTest, w_rx := RxReturned\<rparr>"
  note defs = x0_def x1_def x2_def sample_wait_def newSession_def fresh_conn_def woken_end_def
  have "reach blocked_first wait_step x0"
    by (rule reach_start) (simp add: defs blocked_first_def)
  moreover have "wait_step x0 x1"
    by (rule receiver [of "[]" True]) (simp add: defs rx_loop_turn_def session_defs)
  moreover have "wait_step x1 x2"
    by (rule receiver [of "[]" True]) (simp add: defs rx_loop_turn_def wake_def)
  moreover have "wait_step x2 woken_end"
    by (rule waiter) (simp add: defs wait_turn_def WaitDead_done_def SetState_def)
  ultimately have "reach blocked_first wait_step woken_end" by (meson reach_step)
  moreover have "\<not> wait_step woken_end y" for y
    by (auto elim!: wait_stepE simp: woken_end_def wait_turn_def rx_loop_turn_def)
  ultimately show ?thesis using WaitDead_woken by blast
qed

end
