(* ===== verification/Listener_Props.thy ===== *)
theory Listener_Props
  imports Listener_Steps
begin

text \<open>
  Properties of listeners and of their goroutines (\<open>internal/listener/listener.go\<close>,
  \<open>internal/listener/manager.go\<close>): the invariant of every reachable state, what closing a
  port does, and what the interleavings of the goroutines allow.
\<close>

section \<open>Sample runs\<close>

definition sample_net :: net where
  "sample_net = net_init\<lparr>cx_next := 1,
     n_lheap := [\<lparr>l_Port = 80, l_Host = [], l_ctx = [0], l_closed = False, l_pc = AtAccept\<rparr>],
     n_listeners := [80 \<mapsto> 0]\<rparr>"

lemma net_init_start: "net_start net_init"
  by (simp add: net_start_def net_init_def)

lemma sample_net_open: "lm_Open (plain_env, [], []) 80 net_init = Inr sample_net"
  by (simp add: lm_Open_def Start_def resolveHost_def with_cancel_def plain_env_def net_init_def
      sample_net_def Let_def)

lemma sample_net_reach: "reach net_start (net_step c) sample_net"
  by (rule reach_step [OF reach_start [of net_start, OF net_init_start]])
     (rule open_step [OF _ sample_net_open], simp)

text \<open>A connection on the open port: arrived, registered, announced.\<close>

definition peer :: conn where "peer = fresh_conn ''peer''"

definition arrived_net :: net where
  "arrived_net = set_pc 0 (Accepted peer) sample_net"

definition registered_net :: net where
  "registered_net = set_pc 0 (SendNew 0)
     (arrived_net\<lparr>n_store := snd (mgr_Accept 80 peer 0 NewManager), n_rx := [0]\<rparr>)"

lemmas sample_defs = sample_net_def arrived_net_def registered_net_def net_init_def upd_lsn_def
  set_pc_def

lemma arrived_reach: "reach net_start (net_step c) arrived_net"
proof (rule reach_step [OF sample_net_reach])
  show "net_step c sample_net arrived_net"
    by (rule accept_step [of 0 _ "ConnArrives peer" 0]) (simp_all add: acceptLoop_def sample_defs)
qed

lemma registered_reach: "reach net_start (net_step c) registered_net"
proof (rule reach_step [OF arrived_reach])
  show "net_step c arrived_net registered_net"
    by (rule accept_step [of 0 _ "ConnArrives peer" 0])
       (simp_all add: acceptLoop_def sample_defs mgr_Accept_def NewManager_def Let_def)
qed

section \<open>The invariant\<close>

text \<open>
  In every reachable state, under every interleaving of the goroutines with the commands:
  the channel holds at most 64 events, every session that is not dead still has its receive
  loop, the table holds each open listener under its own port with its socket open, and the
  session store is well-formed.
\<close>

theorem net_reachable:
  assumes "reach net_start (net_step consumer) w"
  shows "length (n_events w) \<le> 64
    \<and> (\<forall>a < length (st_heap (n_store w)). s_state (sess (n_store w) a) \<noteq> StateDead \<longrightarrow> a \<in> set (n_rx w))
    \<and> (\<forall>p l. n_listeners w p = Some l \<longrightarrow> l < length (n_lheap w)
          \<and> l_Port (n_lheap w ! l) = p \<and> \<not> l_closed (n_lheap w ! l))
    \<and> store_wf (n_store w)"
  using net.reach_inv [OF assms]
  by (simp add: net_inv_def table_ok_def readers_ok_def events_cap_def)

theorem net_reachable_witness:
  "0 \<in> set (n_rx registered_net) \<and> l_Port (n_lheap registered_net ! 0) = 80"
  using net_reachable [OF registered_reach [of True]]
  by (simp add: sample_defs mgr_Accept_def NewManager_def sess_def newSession_def Let_def)

section \<open>Closing a port\<close>


lemma registered_order: "enumerates [1] (st_sessions (n_store registered_net))"
  by (simp add: enumerates_def sample_defs mgr_Accept_def NewManager_def Let_def)


text \<open>
  C31. The accept loop and \<open>close\<close> race. There is a run in which a connection that was
  accepted just before its port is closed is registered afterwards: the port is not open and
  yet a live session sits on it, which \<open>close\<close> of that port can no longer end.
\<close>

theorem accept_close_race:
  "\<exists>w ord. reach net_start (net_step True) (w :: net) \<and> enumerates ord (st_sessions (n_store w))
     \<and> \<not> IsOpen w 80 \<and> ByPort ord 80 (n_store w) \<noteq> []
     \<and> (\<forall>E. \<exists>err. lm_Close E 80 w = Inl err)"
proof -
  obtain w1 where cl: "lm_Close plain_env 80 arrived_net = Inr w1"
    using lt.close_removes [of arrived_net 80 plain_env] by (auto simp: IsOpen_def sample_defs)
  have w1: "w1 = listener_Close 0 (arrived_net\<lparr>n_store := mgr_CloseAll [] 80 NewManager\<rparr>)
      \<lparr>n_listeners := Map.empty\<rparr>"
    using cl by (auto simp: lm_Close_Inr plain_env_def sample_defs)
  define w2 where "w2 = set_pc 0 (SendNew 0)
     (w1\<lparr>n_store := snd (mgr_Accept 80 peer 0 (n_store w1)), n_rx := n_rx w1 @ [0]\<rparr>)"
  have "net_step True arrived_net w1"
    by (rule close_step [OF _ cl]) (simp add: enumerates_def plain_env_def sample_defs NewManager_def)
  moreover have "net_step True w1 w2"
    by (rule accept_step [of 0 _ "ConnArrives peer" 0])
       (simp_all add: acceptLoop_def w1 w2_def listener_Close_def sample_defs cancel_def mgr_CloseAll_def
         ByPort_def NewManager_def mgr_Accept_def Let_def)
  ultimately have "reach net_start (net_step True) w2"
    using arrived_reach by (meson reach_step)
  moreover have st: "n_store w2 = snd (mgr_Accept 80 peer 0 NewManager)"
    by (simp add: w2_def w1 listener_Close_def mgr_CloseAll_def ByPort_def NewManager_def)
  moreover have "\<not> IsOpen w2 80"
    by (simp add: IsOpen_def w2_def w1 set_pc_def)
  moreover have "enumerates [1] (st_sessions (n_store w2)) \<and> ByPort [1] 80 (n_store w2) = [0]"
    by (simp add: st enumerates_def ByPort_def mgr_Accept_def NewManager_def sess_def newSession_def Let_def)
  ultimately show ?thesis using lt.close_absent by (intro exI [of _ w2] exI [of _ "[1]"]) auto
qed

section \<open>Events that nobody takes\<close>

text \<open>The accept loops that wait to announce a connection.\<close>

definition announcing :: "'a net_scheme \<Rightarrow> nat" where
  "announcing w = length (filter (\<lambda>l. \<exists>a. l_pc l = SendNew a) (n_lheap w))"

lemma length_filter_update:
  "i < length xs \<Longrightarrow>
   length (filter P (xs[i := x])) + (if P (xs ! i) then 1 else 0)
     = length (filter P xs) + (if P x then 1 else (0::nat))"
proof (induction xs arbitrary: i)
  case (Cons y ys)
  show ?case
  proof (cases i)
    case (Suc j)
    then have "length (filter P (ys[j := x])) + (if P (ys ! j) then 1 else 0)
        = length (filter P ys) + (if P x then 1 else 0)"
      using Cons by simp
    with Suc show ?thesis by simp
  qed simp
qed simp

lemma announcing_set_pc:
  assumes "i < length (n_lheap w)"
  shows "announcing (set_pc i pc w) + (if \<exists>a. l_pc (n_lheap w ! i) = SendNew a then 1 else 0)
    = announcing w + (if \<exists>a. pc = SendNew a then 1 else 0)"
  using length_filter_update [OF assms, of "\<lambda>l. \<exists>a. l_pc l = SendNew a" "(n_lheap w ! i)\<lparr>l_pc := pc\<rparr>"]
  by (simp add: announcing_def set_pc_def upd_lsn_def)

definition unheard_ok :: "'a net_scheme \<Rightarrow> bool" where
  "unheard_ok w \<longleftrightarrow> length (st_heap (n_store w)) \<le> length (n_events w) + announcing w"

lemma unheard_send:
  "chan_send ev w = Some w1 \<Longrightarrow> n_store w1 = n_store w \<and> n_lheap w1 = n_lheap w
     \<and> length (n_events w1) = Suc (length (n_events w))"
  by (auto simp: chan_send_def split: if_splits)

lemma announcing_cong: "n_lheap w1 = n_lheap w \<Longrightarrow> announcing w1 = announcing w"
  by (simp add: announcing_def)

lemma acceptLoop_unheard:
  assumes "unheard_ok w" "i < length (n_lheap w)" "acceptLoop inp now i w = Some w'"
  shows "unheard_ok w'"
proof (cases "l_pc (n_lheap w ! i)")
  case AtAccept
  then obtain pc where "w' = set_pc i pc w" "\<forall>a. pc \<noteq> SendNew a"
    using assms(3) by (auto simp: acceptLoop_def Let_def split: accept_in.splits if_splits)
  with AtAccept assms(1) announcing_set_pc [OF assms(2), of pc] show ?thesis
    by (simp add: unheard_ok_def)
next
  case (Accepted c)
  obtain a st where acc: "mgr_Accept (l_Port (n_lheap w ! i)) c now (n_store w) = (a, st)" by force
  let ?w1 = "w\<lparr>n_store := st, n_rx := n_rx w @ [a]\<rparr>"
  have w': "w' = set_pc i (SendNew a) ?w1"
    using assms(3) Accepted acc by (simp add: acceptLoop_def Let_def)
  have "length (st_heap st) = Suc (length (st_heap (n_store w)))"
    using acc by (auto simp: mgr_Accept_def Let_def)
  moreover have "announcing w' = Suc (announcing w)"
    using announcing_set_pc [of i ?w1 "SendNew a"] assms(2) Accepted announcing_cong [of ?w1 w]
    by (simp add: w')
  ultimately show ?thesis using assms(1) by (simp add: unheard_ok_def w')
next
  case (SendNew a)
  then obtain w1 ws where w1: "n_store w1 = n_store w" "n_lheap w1 = n_lheap w"
      "length (n_events w1) = Suc (length (n_events w))"
    and w': "w' = set_pc i AtAccept (w1\<lparr>n_watchers := ws\<rparr>)"
    using assms(3) unheard_send by (fastforce simp: acceptLoop_def Let_def)
  have "Suc (announcing w') = announcing w"
    using announcing_set_pc [of i "w1\<lparr>n_watchers := ws\<rparr>" AtAccept] assms(2) SendNew w1(2)
      announcing_cong [of "w1\<lparr>n_watchers := ws\<rparr>" w] by (simp add: w')
  then show ?thesis using assms(1) w1 by (simp add: unheard_ok_def w')
next
  case (SendError err)
  then obtain w1 where w1: "n_store w1 = n_store w" "n_lheap w1 = n_lheap w"
      "length (n_events w1) = Suc (length (n_events w))" and w': "w' = set_pc i SendClosed w1"
    using assms(3) unheard_send by (fastforce simp: acceptLoop_def Let_def)
  then show ?thesis
    using announcing_set_pc [of i w1 SendClosed] assms(1,2) SendError announcing_cong [of w1 w]
    by (simp add: unheard_ok_def)
next
  case SendClosed
  then obtain w1 where w1: "n_store w1 = n_store w" "n_lheap w1 = n_lheap w"
      "length (n_events w1) = Suc (length (n_events w))" and w': "w' = set_pc i LoopDone w1"
    using assms(3) unheard_send by (fastforce simp: acceptLoop_def Let_def)
  then show ?thesis
    using announcing_set_pc [of i w1 LoopDone] assms(1,2) SendClosed announcing_cong [of w1 w]
    by (simp add: unheard_ok_def)
next
  case LoopDone
  with assms(3) show ?thesis by (simp add: acceptLoop_def Let_def)
qed

lemma watchSession_unheard:
  "watchSession b k w = Some w' \<Longrightarrow> n_store w' = n_store w \<and> n_lheap w' = n_lheap w
     \<and> length (n_events w) \<le> length (n_events w')"
  by (auto simp: watchSession_def Let_def split: watch_pc.splits if_splits dest!: unheard_send)

lemma announcing_upd:
  assumes "\<And>l. l_pc (f l) = l_pc l"
  shows "announcing (upd_lsn i f w) = announcing w"
proof (cases "i < length (n_lheap w)")
  case True
  show ?thesis
    using length_filter_update [OF True, of "\<lambda>l. \<exists>a. l_pc l = SendNew a" "f (n_lheap w ! i)"] assms
    by (simp add: announcing_def upd_lsn_def split: if_splits)
next
  case False
  then show ?thesis by (simp add: announcing_def upd_lsn_def list_update_beyond)
qed

lemma lm_Close_unheard:
  assumes "lm_Close E port w = Inr w'"
  shows "length (st_heap (n_store w')) = length (st_heap (n_store w))
     \<and> n_events w' = n_events w \<and> announcing w' = announcing w"
proof -
  obtain l where w': "w' = listener_Close l (w\<lparr>n_store := mgr_CloseAll (e_ord_sess E) port (n_store w)\<rparr>)
      \<lparr>n_listeners := (n_listeners w)(port := None)\<rparr>"
    using assms by (auto simp: lm_Close_Inr)
  have "announcing w' = announcing (listener_Close l (w\<lparr>n_store := mgr_CloseAll (e_ord_sess E) port (n_store w)\<rparr>))"
    unfolding w' by (rule announcing_cong) simp
  also have "\<dots> = announcing w"
    unfolding listener_Close_def by (subst announcing_upd) (simp_all add: announcing_def)
  finally show ?thesis
    by (simp add: w' listener_Close_def mgr_CloseAll_def fold_upd_frame)
qed

lemma lm_Open_unheard:
  "lm_Open (E, ctx, host) port w = Inr w' \<Longrightarrow> n_store w' = n_store w \<and> n_events w' = n_events w
     \<and> announcing w' = announcing w"
  by (auto simp: lm_Open_Inr announcing_def dest!: Start_Inr)

lemma net_step_unheard: "unheard_ok w \<Longrightarrow> net_step False w w' \<Longrightarrow> unheard_ok w'"
proof (erule net_stepE, goal_cases)
  case (1 i inp now)
  then show ?case using acceptLoop_unheard by blast
next
  case (2 k by_ctx)
  then show ?case
    using watchSession_unheard [of by_ctx k w w'] announcing_cong [of w' w] by (simp add: unheard_ok_def)
next
  case (3 d err now a)
  then show ?case
    by (auto simp: StartRxLoop_def Let_def unheard_ok_def announcing_def split: if_splits)
next
  case (5 ctx E host port)
  then show ?case using lm_Open_unheard [of E ctx host port w w'] by (simp add: unheard_ok_def)
next
  case (6 E port)
  then show ?case using lm_Close_unheard [of E port w w'] by (simp add: unheard_ok_def)
next
  case (7 ctx)
  then show ?case by (simp add: unheard_ok_def announcing_def)
qed simp

interpretation unheard: inductive_invariant net_start "net_step False" unheard_ok
proof
  show "unheard_ok w" if "net_start w" for w :: "'a net_scheme"
    using that by (simp add: net_start_def unheard_ok_def NewManager_def)
qed (rule net_step_unheard)



end
