(* ===== verification/Listener_Quiet.thy ===== *)
theory Listener_Quiet
  imports Listener_Props
begin

text \<open>
  The goroutines of \<open>internal/listener\<close> between two inputs. With no connection arriving, no
  data and no command, what the accept loops, the watchers and the consumer of the events
  still have to do comes to an end, and a death that was noticed is reported.
\<close>

section \<open>Turns\<close>

text \<open>The steps that need nothing from outside: an accept loop that is not in \<open>Accept\<close>, a watcher, the consumer.\<close>

inductive turn :: "'a net_scheme \<Rightarrow> 'a net_scheme \<Rightarrow> bool" where
  loop_turn: "i < length (n_lheap w) \<Longrightarrow> l_pc (n_lheap w ! i) \<noteq> AtAccept \<Longrightarrow>
    acceptLoop inp now i w = Some w' \<Longrightarrow> turn w w'"
| watch_turn: "k < length (n_watchers w) \<Longrightarrow> watchSession by_ctx k w = Some w' \<Longrightarrow> turn w w'"
| event_turn: "take_event w = Some w' \<Longrightarrow> turn w w'"

inductive_cases turnE: "turn w w'"

lemma turn_net_step: "turn w w' \<Longrightarrow> net_step True w w'"
  by (auto elim!: turnE intro: net_step.intros)

lemma turns_inv: "turn\<^sup>*\<^sup>* w w' \<Longrightarrow> net_inv w \<Longrightarrow> net_inv w'"
  by (induction rule: rtranclp_induct) (auto intro: net_step_inv turn_net_step)

section \<open>They end\<close>

fun pc_work :: "accept_pc \<Rightarrow> nat" where
  "pc_work (Accepted c) = 7"
| "pc_work (SendNew a) = 6"
| "pc_work (SendError e) = 4"
| "pc_work SendClosed = 2"
| "pc_work _ = 0"

fun watch_work :: "watch_pc \<Rightarrow> nat" where
  "watch_work WatchWait = 4"
| "watch_work WatchCheck = 3"
| "watch_work WatchSend = 2"
| "watch_work WatchDone = 0"

definition work_left :: "'a net_scheme \<Rightarrow> nat" where
  "work_left w = sum_list (map (\<lambda>l. pc_work (l_pc l)) (n_lheap w))
     + sum_list (map (\<lambda>x. watch_work (wa_pc x)) (n_watchers w)) + length (n_events w)"

lemma sum_map_update:
  "i < length xs \<Longrightarrow> sum_list (map f (xs[i := x])) + f (xs ! i) = sum_list (map f xs) + (f x :: nat)"
  by (induction xs arbitrary: i) (auto split: nat.split simp: less_Suc_eq_0_disj)

lemma work_set_pc:
  "i < length (n_lheap w) \<Longrightarrow>
   work_left (set_pc i pc w) + pc_work (l_pc (n_lheap w ! i)) = work_left w + pc_work pc"
  using sum_map_update [of i "n_lheap w" "\<lambda>l. pc_work (l_pc l)" "(n_lheap w ! i)\<lparr>l_pc := pc\<rparr>"]
  by (simp add: work_left_def set_pc_def upd_lsn_def)

lemma work_set_wpc:
  "k < length (n_watchers w) \<Longrightarrow>
   work_left (set_wpc k pc w) + watch_work (wa_pc (n_watchers w ! k)) = work_left w + watch_work pc"
  using sum_map_update [of k "n_watchers w" "\<lambda>x. watch_work (wa_pc x)" "(n_watchers w ! k)\<lparr>wa_pc := pc\<rparr>"]
  by (simp add: work_left_def set_wpc_def)

lemma chan_send_frame:
  "chan_send ev w = Some w1 \<Longrightarrow> w1 = w\<lparr>n_events := n_events w @ [ev]\<rparr>"
  by (simp add: chan_send_def split: if_splits)

lemma work_frame [simp]:
  "work_left (w\<lparr>n_events := n_events w @ [ev]\<rparr>) = Suc (work_left w)"
  "work_left (w\<lparr>n_watchers := n_watchers w @ [x]\<rparr>) = work_left w + watch_work (wa_pc x)"
  "work_left (w\<lparr>n_store := st, n_rx := rx\<rparr>) = work_left w"
  by (simp_all add: work_left_def)

lemma turn_work: "turn w w' \<Longrightarrow> work_left w' < work_left w"
proof (erule turnE)
  fix i inp now
  assume i: "i < length (n_lheap w)" and pc: "l_pc (n_lheap w ! i) \<noteq> AtAccept" and st: "acceptLoop inp now i w = Some w'"
  show ?thesis
  proof (cases "l_pc (n_lheap w ! i)")
    case (Accepted c)
    then obtain a s where "w' = set_pc i (SendNew a) (w\<lparr>n_store := s, n_rx := n_rx w @ [a]\<rparr>)"
      using st by (auto simp: acceptLoop_def Let_def split: prod.splits)
    then show ?thesis
      using work_set_pc [of i "w\<lparr>n_store := s, n_rx := n_rx w @ [a]\<rparr>" "SendNew a"] i Accepted by simp
  next
    case (SendNew a)
    then obtain ev x where "w' = set_pc i AtAccept (w\<lparr>n_events := n_events w @ [ev], n_watchers := n_watchers w @ [x]\<rparr>)"
      and "wa_pc x = WatchWait"
      using st by (auto simp: acceptLoop_def Let_def dest!: chan_send_frame)
    moreover have "work_left (w\<lparr>n_events := n_events w @ [ev], n_watchers := n_watchers w @ [x]\<rparr>)
        = Suc (work_left w) + watch_work (wa_pc x)" by (simp add: work_left_def)
    ultimately show ?thesis
      using work_set_pc [of i "w\<lparr>n_events := n_events w @ [ev], n_watchers := n_watchers w @ [x]\<rparr>" AtAccept] i SendNew
      by simp
  next
    case (SendError err)
    then obtain ev where "w' = set_pc i SendClosed (w\<lparr>n_events := n_events w @ [ev]\<rparr>)"
      using st by (auto simp: acceptLoop_def Let_def dest!: chan_send_frame)
    then show ?thesis
      using work_set_pc [of i "w\<lparr>n_events := n_events w @ [ev]\<rparr>" SendClosed] i SendError by simp
  next
    case SendClosed
    then obtain ev where "w' = set_pc i LoopDone (w\<lparr>n_events := n_events w @ [ev]\<rparr>)"
      using st by (auto simp: acceptLoop_def Let_def dest!: chan_send_frame)
    then show ?thesis
      using work_set_pc [of i "w\<lparr>n_events := n_events w @ [ev]\<rparr>" LoopDone] i SendClosed by simp
  qed (use pc st in \<open>auto simp: acceptLoop_def Let_def\<close>)
next
  fix k by_ctx
  assume k: "k < length (n_watchers w)" and st: "watchSession by_ctx k w = Some w'"
  show ?thesis
  proof (cases "wa_pc (n_watchers w ! k)")
    case WatchWait
    then obtain pc where "w' = set_wpc k pc w" "watch_work pc \<le> 3"
      using st by (auto simp: watchSession_def Let_def split: if_splits)
    then show ?thesis using work_set_wpc [OF k, of pc] WatchWait by simp
  next
    case WatchCheck
    then obtain pc where "w' = set_wpc k pc w" "watch_work pc \<le> 2"
      using st by (auto simp: watchSession_def Let_def split: if_splits)
    then show ?thesis using work_set_wpc [OF k, of pc] WatchCheck by simp
  next
    case WatchSend
    then obtain ev where "w' = set_wpc k WatchDone (w\<lparr>n_events := n_events w @ [ev]\<rparr>)"
      using st by (auto simp: watchSession_def Let_def dest!: chan_send_frame)
    then show ?thesis
      using work_set_wpc [of k "w\<lparr>n_events := n_events w @ [ev]\<rparr>" WatchDone] k WatchSend by simp
  qed (use st in \<open>simp add: watchSession_def Let_def\<close>)
next
  assume "take_event w = Some w'"
  then show ?thesis
    by (auto simp: take_event_def Let_def work_left_def split: list.splits EventType.splits option.splits)
qed

lemma turns_bounded: "(turn ^^ n) w w' \<Longrightarrow> n + work_left w' \<le> work_left w"
  by (induction n arbitrary: w') (auto dest: turn_work, fastforce dest: turn_work)

lemma work_bound: "work_left w \<le> 7 * length (n_lheap w) + 4 * length (n_watchers w) + length (n_events w)"
proof -
  have "pc_work p \<le> 7" for p by (cases p) auto
  then have "sum_list (map (\<lambda>l. pc_work (l_pc l)) ls) \<le> 7 * length ls" for ls :: "listener list"
    by (induction ls) (auto intro: add_mono)
  moreover have "watch_work p \<le> 4" for p by (cases p) auto
  then have "sum_list (map (\<lambda>x. watch_work (wa_pc x)) xs) \<le> 4 * length xs" for xs
    by (induction xs) (auto intro: add_mono)
  ultimately have "sum_list (map (\<lambda>l. pc_work (l_pc l)) (n_lheap w)) \<le> 7 * length (n_lheap w)"
      "sum_list (map (\<lambda>x. watch_work (wa_pc x)) (n_watchers w)) \<le> 4 * length (n_watchers w)"
    by blast+
  then show ?thesis unfolding work_left_def by linarith
qed

lemma turns_end: "\<exists>w'. turn\<^sup>*\<^sup>* w w' \<and> (\<nexists>w''. turn w' w'')"
proof (induction "work_left w" arbitrary: w rule: less_induct)
  case less
  show ?case
  proof (cases "\<exists>w1. turn w w1")
    case True
    then obtain w1 where w1: "turn w w1" by blast
    with less turn_work show ?thesis by (meson converse_rtranclp_into_rtranclp)
  qed blast
qed

section \<open>Where they end\<close>

definition quiet :: "'a net_scheme \<Rightarrow> bool" where
  "quiet w \<longleftrightarrow> n_events w = [] \<and> (\<forall>l\<in>set (n_lheap w). l_pc l = AtAccept \<or> l_pc l = LoopDone)
     \<and> (\<forall>x\<in>set (n_watchers w). wa_pc x = WatchDone \<or>
          (wa_pc x = WatchWait \<and> s_state (sess (n_store w) (wa_session x)) \<noteq> StateDead \<and> \<not> ctx_done w (wa_ctx x)))"

lemma take_event_None: "take_event w = None \<longleftrightarrow> n_events w = []"
  by (simp add: take_event_def Let_def split: list.splits)

lemma stuck_watch:
  assumes "\<And>w'. \<not> turn w w'" and "k < length (n_watchers w)"
  shows "watchSession by_ctx k w = None"
  using assms(1) watch_turn [OF assms(2), of by_ctx] by (cases "watchSession by_ctx k w") blast+

lemma stuck_quiet:
  assumes stuck: "\<And>w'. \<not> turn w w'"
  shows "quiet w"
proof -
  have ev: "n_events w = []" using stuck event_turn take_event_None by (metis option.exhaust)
  then have room: "chan_send e w \<noteq> None" for e by (simp add: chan_send_def events_cap_def)
  have "l_pc l = AtAccept \<or> l_pc l = LoopDone" if "l \<in> set (n_lheap w)" for l
  proof (rule ccontr)
    assume no: "\<not> ?thesis"
    obtain i where i: "i < length (n_lheap w)" "n_lheap w ! i = l" using \<open>l \<in> _\<close> by (auto simp: in_set_conv_nth)
    with no room have "acceptLoop (AcceptFails []) 0 i w \<noteq> None"
      by (auto simp: acceptLoop_def Let_def split: accept_pc.split prod.split)
    with i no stuck loop_turn show False by blast
  qed
  moreover have "wa_pc x = WatchDone \<or>
      (wa_pc x = WatchWait \<and> s_state (sess (n_store w) (wa_session x)) \<noteq> StateDead \<and> \<not> ctx_done w (wa_ctx x))"
    if mem: "x \<in> set (n_watchers w)" for x
  proof -
    obtain k where k: "k < length (n_watchers w)" "n_watchers w ! k = x" using mem by (auto simp: in_set_conv_nth)
    then have none: "watchSession True k w = None" "watchSession False k w = None"
      by (simp_all add: stuck_watch [OF stuck])
    show ?thesis
    proof (cases "wa_pc x")
      case WatchWait
      with none k show ?thesis by (simp add: watchSession_def Let_def WaitDead_done_def split: if_splits)
    qed (use none k room in \<open>simp_all add: watchSession_def Let_def\<close>)
  qed
  ultimately show ?thesis using ev by (simp add: quiet_def)
qed



section \<open>A noticed death is reported\<close>

text \<open>Session \<open>a\<close> is dead and watcher \<open>k\<close> is past \<open>WaitDead\<close>, or the event waits, or it was taken.\<close>

definition reporting :: "nat \<Rightarrow> nat \<Rightarrow> 'a net_scheme \<Rightarrow> bool" where
  "reporting k a w \<longleftrightarrow> a < length (st_heap (n_store w)) \<and> s_state (sess (n_store w) a) = StateDead
     \<and> k < length (n_watchers w) \<and> wa_session (n_watchers w ! k) = a
     \<and> (wa_pc (n_watchers w ! k) \<in> {WatchCheck, WatchSend}
        \<or> (\<exists>ev\<in>set (n_events w). ev_Type ev = EventConnDead \<and> ev_Session ev = Some a)
        \<or> a \<notin> ran (st_sessions (n_store w)))"

lemma reporting_set_pc [simp]: "reporting k a (set_pc i pc w) = reporting k a w"
  by (simp add: reporting_def)

lemma reporting_send: "reporting k a w \<Longrightarrow> reporting k a (w\<lparr>n_events := n_events w @ [ev]\<rparr>)"
  by (auto simp: reporting_def)

lemma reporting_watcher: "reporting k a w \<Longrightarrow> reporting k a (w\<lparr>n_watchers := n_watchers w @ [x]\<rparr>)"
  by (simp add: reporting_def nth_append)

lemma reporting_Accept:
  assumes "reporting k a w" and "mgr_Accept p c now (n_store w) = (b, st)"
  shows "reporting k a (w\<lparr>n_store := st, n_rx := rx\<rparr>)"
proof -
  have b: "b = length (st_heap (n_store w))" "length (st_heap st) = Suc b"
    "\<And>d. d < b \<Longrightarrow> sess st d = sess (n_store w) d"
    "\<exists>i. st_sessions st = (st_sessions (n_store w))(i \<mapsto> b)"
    using assms(2) by (auto simp: mgr_Accept_def Let_def sess_def nth_append)
  then have "a \<in> ran (st_sessions st) \<Longrightarrow> a < b \<Longrightarrow> a \<in> ran (st_sessions (n_store w))"
    by (auto simp: ran_def split: if_splits)
  with assms(1) b show ?thesis by (auto simp: reporting_def)
qed

lemma loop_reporting:
  assumes "reporting k a w" and "acceptLoop inp now i w = Some w'"
  shows "reporting k a w'"
  using assms
  by (auto simp: acceptLoop_def Let_def dest!: chan_send_frame intro: reporting_send reporting_Accept
      reporting_watcher [OF reporting_send, simplified]
      split: accept_pc.splits accept_in.splits if_splits prod.splits)

lemma watch_reporting:
  assumes "reporting k a w" and "j < length (n_watchers w)" and "watchSession by_ctx j w = Some w'"
  shows "reporting k a w'"
proof (cases "j = k")
  case True
  with assms show ?thesis
    by (auto simp: reporting_def watchSession_def Let_def set_wpc_def dest!: chan_send_frame
        split: watch_pc.splits if_splits)
next
  case False
  with assms show ?thesis
    by (auto simp: reporting_def watchSession_def Let_def set_wpc_def dest!: chan_send_frame
        split: watch_pc.splits if_splits)
qed

lemma event_reporting:
  assumes "reporting k a w" and "store_wf (n_store w)" and "take_event w = Some w'"
  shows "reporting k a w'"
proof -
  obtain ev evs where ev: "n_events w = ev # evs" using assms(3) by (auto simp: take_event_def split: list.splits)
  show ?thesis
  proof (cases "ev_Type ev = EventConnDead \<and> ev_Session ev = Some a")
    case True
    then have w': "w' = w\<lparr>n_events := evs, n_store := mgr_Remove (s_ID (sess (n_store w) a)) (n_store w)\<rparr>"
      using assms(3) ev by (simp add: take_event_def Let_def)
    have "a \<notin> ran ((st_sessions (n_store w))(s_ID (sess (n_store w) a) := None))"
      using store_wfD [OF assms(2)] by (fastforce simp: ran_def split: if_splits)
    with assms(1) show ?thesis by (simp add: reporting_def w')
  next
    case False
    have "b \<notin> ran (m(i := None))" if "b \<notin> ran m" for m :: "int \<rightharpoonup> nat" and i b
      using that by (auto simp: ran_def split: if_splits)
    with False ev assms show ?thesis
      by (auto simp: reporting_def take_event_def Let_def split: EventType.splits option.splits)
  qed
qed

lemma turn_reporting: "reporting k a w \<Longrightarrow> net_inv w \<Longrightarrow> turn w w' \<Longrightarrow> reporting k a w'"
  by (auto elim!: turnE intro: loop_reporting watch_reporting event_reporting simp: net_inv_def)

text \<open>
  C10. A death that was noticed is reported and cleaned up. When the watcher of a dead session
  has got past \<open>WaitDead\<close>, then wherever the goroutines come to rest, the session has left
  the manager: its event was sent and the consumer has removed its record.
\<close>

theorem death_reported:
  assumes "reach net_start (net_step c) w" and "k < length (n_watchers w)"
    and "wa_session (n_watchers w ! k) = a" and "wa_pc (n_watchers w ! k) = WatchCheck"
    and "a < length (st_heap (n_store w))" and "s_state (sess (n_store w) a) = StateDead"
    and "turn\<^sup>*\<^sup>* w w'" and "\<nexists>w''. turn w' w''"
  shows "a \<notin> ran (st_sessions (n_store w'))"
proof -
  have inv: "net_inv w" using assms(1) by (rule net.reach_inv)
  have "reporting k a w" using assms(2-6) by (simp add: reporting_def)
  with assms(7) have "reporting k a w'"
    by (induction rule: rtranclp_induct) (use inv turns_inv turn_reporting in blast)+
  moreover have "quiet w'" using assms(8) stuck_quiet by blast
  ultimately show ?thesis by (force simp: reporting_def quiet_def)
qed

text \<open>The connection of the sample run is announced, its peer goes away, and its watcher wakes up.\<close>

definition announced_net :: net where
  "announced_net = set_pc 0 AtAccept (registered_net\<lparr>
     n_events := [\<lparr>ev_Port = 80, ev_Type = EventNewConn, ev_Session = Some 0, ev_Err = None\<rparr>],
     n_watchers := [\<lparr>wa_session = 0, wa_Port = 80, wa_ctx = [0], wa_pc = WatchWait\<rparr>]\<rparr>)"

definition gone_net :: net where
  "gone_net = announced_net\<lparr>n_store := upd_sess 0 (\<lambda>s. fst (rx_turn s 1 [] True)) (n_store announced_net),
     n_rx := []\<rparr>"

lemma gone_reach: "reach net_start (net_step c) (set_wpc 0 WatchCheck gone_net)"
proof -
  have "net_step c registered_net announced_net"
    by (rule accept_step [of 0 _ "ConnArrives peer" 0])
       (simp_all add: acceptLoop_def chan_send_def events_cap_def announced_net_def sample_defs)
  moreover have "net_step c announced_net gone_net"
    by (rule rx_step [of "[]" True 1 0])
       (simp add: StartRxLoop_def gone_net_def announced_net_def sample_defs Let_def)
  moreover have "net_step c gone_net (set_wpc 0 WatchCheck gone_net)"
    by (rule watch_step [of 0 _ False])
       (simp_all add: watchSession_def gone_net_def announced_net_def sample_defs WaitDead_done_def Let_def
         mgr_Accept_def NewManager_def sess_def upd_sess_def rx_turn_def SetState_def newSession_def set_wpc_def)
  ultimately show ?thesis using registered_reach by (meson reach_step)
qed

theorem death_reported_witness:
  "\<exists>w'. turn\<^sup>*\<^sup>* (set_wpc 0 WatchCheck gone_net) w' \<and> 0 \<notin> ran (st_sessions (n_store w'))"
proof -
  let ?w = "set_wpc 0 WatchCheck gone_net"
  obtain w' where w': "turn\<^sup>*\<^sup>* ?w w'" "\<nexists>w''. turn w' w''" using turns_end by blast
  have "0 < length (n_watchers ?w)" "wa_session (n_watchers ?w ! 0) = 0" "wa_pc (n_watchers ?w ! 0) = WatchCheck"
      "0 < length (st_heap (n_store ?w))" "s_state (sess (n_store ?w) 0) = StateDead"
    by (simp_all add: set_wpc_def gone_net_def announced_net_def sample_defs mgr_Accept_def NewManager_def
        sess_def upd_sess_def rx_turn_def SetState_def newSession_def Let_def)
  from death_reported [OF gone_reach this w'] w'(1) show ?thesis by blast
qed

end
