(* ===== verification/World_Change.thy ===== *)
theory World_Change
  imports Dispatch_Props Repl_Model
begin

text \<open>
  How the world changes, for the two programs that run on it (console and server): every
  operation but entering a session keeps the invariant of the world and brings no session to
  the foreground.
\<close>

section \<open>What no operation but entering a session does\<close>

text \<open>No session comes to the foreground.\<close>

definition calm :: "store \<Rightarrow> store \<Rightarrow> bool" where
  "calm st st' \<longleftrightarrow> length (st_heap st) \<le> length (st_heap st')
     \<and> (\<forall>b < length (st_heap st'). s_state (sess st' b) = StateForeground \<longrightarrow>
          b < length (st_heap st) \<and> s_state (sess st b) = StateForeground)"

lemma calm_refl [simp]: "calm st st"
  by (simp add: calm_def)

lemma calm_trans: "calm s t \<Longrightarrow> calm t u \<Longrightarrow> calm s u"
  by (auto simp: calm_def)

lemma calm_at:
  assumes "s_state (f (sess st a)) = StateForeground \<Longrightarrow> s_state (sess st a) = StateForeground"
  shows "calm st (upd_sess a f st)"
  unfolding calm_def
proof (intro conjI allI impI)
  fix b
  assume b: "b < length (st_heap (upd_sess a f st))" and fg: "s_state (sess (upd_sess a f st) b) = StateForeground"
  show "s_state (sess st b) = StateForeground"
    using assms b fg by (cases "b = a") (auto simp: sess_upd sess_upd_other)
qed simp_all

lemma calm_Remove [simp]: "calm st (mgr_Remove sid st)"
  by (simp add: calm_def)

lemma calm_Accept: "mgr_Accept p c now st = (a, st') \<Longrightarrow> calm st st'"
  by (auto simp: calm_def mgr_Accept_def Let_def sess_def nth_append newSession_def less_Suc_eq)

lemma calm_fold: "(\<And>a st. calm st (f a st)) \<Longrightarrow> calm st (fold f as st)"
  by (induction as arbitrary: st) (auto intro: calm_trans)

lemma calm_CloseAll: "calm st (mgr_CloseAll ord port st)"
  unfolding mgr_CloseAll_def by (rule calm_fold) (rule calm_at, simp)

lemma calm_kill: "calm (n_store w) (n_store (kill_one force a w))"
  by (auto simp: kill_one_def Let_def intro!: calm_trans [OF calm_at calm_Remove])

lemma calm_kills: "calm (n_store w) (n_store (fold (kill_one force) as w))"
  by (induction as arbitrary: w) (auto intro: calm_trans calm_kill)

lemma read_of_state [simp]: "ReadBuffered s = (x, s') \<Longrightarrow> s_state s' = s_state s"
  using read_state [of s] by simp

lemma write_of_state: "session_Write s d ans = (s', x) \<Longrightarrow> s_state s' = s_state s"
  using write_state [of s d ans] by simp

lemma fm_stores:
  "fm_Open a p (w, m) = Inr (w1, m1) \<Longrightarrow> n_store (w1 :: world) = n_store w"
  "fm_OpenProxy b p (w, m) = Inr (w1, m1) \<Longrightarrow> n_store w1 = n_store w"
  by (cases a; auto simp: fm_Open_Inr) (cases b; auto simp: fm_OpenProxy_Inr)

lemma fm_Close_store: "fm_Close u p (w, m) = Inr (w1, m1) \<Longrightarrow> n_store (w1 :: world) = n_store w"
  by (auto simp: fm_Close_Inr entry_Close_def Let_def forwarder_Close_def proxy_Close_def split: option.splits)

lemma doSend_calm: "doSend E ctx args w = Ret (out, w') \<Longrightarrow> calm (n_store w) (n_store w')"
  by (auto simp: doSend_def Let_def write_state intro!: calm_at
      split: list.splits sum.splits option.splits if_splits go.splits prod.splits dest!: write_of_state)

lemma doRead_calm: "doRead E ctx args w = Ret (out, w') \<Longrightarrow> calm (n_store w) (n_store w')"
  by (auto simp: doRead_def Let_def read_state intro!: calm_at
      split: list.splits sum.splits option.splits if_splits go.splits prod.splits)

lemma doFwd_store:
  "doFwd E ctx args w = Ret (out, w') \<Longrightarrow> n_store w' = n_store w"
  "doProxy E ctx args w = Ret (out, w') \<Longrightarrow> n_store w' = n_store w"
  by (auto simp: doFwd_def doProxy_def fwd_close_def proxy_log_def Let_def fm_stores fm_Close_store
      split: list.splits option.splits sum.splits prod.splits if_splits)

lemma Dispatch_calm:
  assumes "Dispatch E ctx c w = Ret (out, w')"
  shows "calm (n_store w) (n_store w')"
proof -
  have "calm (n_store w) (n_store w')" if "doOpen E ctx args w = Ret (out, w')" for args
    using that by (auto simp: doOpen_def lm_Open_Inr dest!: Start_Inr
        split: list.splits option.splits sum.splits if_splits)
  moreover have "calm (n_store w) (n_store w')" if "doClose E ctx args w = Ret (out, w')" for args
    using that calm_CloseAll by (auto simp: doClose_def lm_Close_store split: list.splits option.splits sum.splits)
  moreover have "calm (n_store w) (n_store w')" if "doKill E ctx args w = Ret (out, w')" for args
    using that calm_kill calm_kills
    by (auto simp: doKill_def Let_def kill_targets_def split: list.splits sum.splits if_splits go.splits)
  ultimately show ?thesis
    using assms Dispatch_other [OF assms]
    by (cases "cmd_verb c \<in> {''open'', ''close'', ''kill'', ''fwd'', ''proxy'', ''send'', ''read''}")
       (auto simp: Dispatch_def Let_def doSend_calm doRead_calm doFwd_store)
qed

lemma keeps_at:
  assumes "store_wf st" and "s_ID (f (sess st a)) = s_ID (sess st a)"
    and "s_state (sess st a) = StateDead \<Longrightarrow> s_state (f (sess st a)) = StateDead"
  shows "keeps st (upd_sess a f st)"
proof (cases "a < length (st_heap st)")
  case True
  with assms show ?thesis by (auto simp: keeps_def store_wf_def sess_upd)
next
  case False
  then have "upd_sess a f st = st" by (simp add: upd_sess_def list_update_beyond)
  with assms(1) show ?thesis by (simp add: keeps_def)
qed

lemma cancel_good: "world_inv w \<Longrightarrow> ctx_ok ctx w \<Longrightarrow> good w (cancel ctx w)"
proof -
  assume inv: "world_inv w" and ctx: "ctx_ok ctx w"
  have "net_inv (cancel ctx w)" using inv ctx by (intro cancel_inv) (auto simp: world_inv_def ctx_ok_def)
  moreover have "w_fwd (cancel ctx w) = w_fwd w" "cx_next (cancel ctx w) = cx_next w"
      "n_listeners (cancel ctx w) = n_listeners w"
    by (cases ctx; simp add: cancel_def)+
  ultimately show ?thesis using inv by (simp add: good_def world_inv_def fctx_ok_def ports_ok_def IsOpen_def)
qed

lemma good_trans: "good w v \<Longrightarrow> good v u \<Longrightarrow> good w u"
  by (simp add: good_def)

section \<open>Moves of the world\<close>

definition world_move :: "world \<Rightarrow> world \<Rightarrow> bool" where
  "world_move w w' \<longleftrightarrow> good w w' \<and> calm (n_store w) (n_store w')"

lemma world_move_refl: "world_inv w \<Longrightarrow> world_move w w"
  by (simp add: world_move_def good_refl)

lemma world_move_trans: "world_move w v \<Longrightarrow> world_move v u \<Longrightarrow> world_move w u"
  by (auto simp: world_move_def intro: good_trans calm_trans)

lemma world_move_inv: "world_move w w' \<Longrightarrow> world_inv w'"
  by (simp add: world_move_def good_def)

lemma world_move_heap: "world_move w w' \<Longrightarrow> length (st_heap (n_store w)) \<le> length (st_heap (n_store w'))"
  by (simp add: world_move_def calm_def)

lemma move_upd:
  assumes inv: "world_inv w" and "s_ID (f (sess (n_store w) a)) = s_ID (sess (n_store w) a)"
    and "s_state (f (sess (n_store w) a)) = s_state (sess (n_store w) a)
      \<or> (s_state (f (sess (n_store w) a)) \<noteq> StateForeground
         \<and> (s_state (sess (n_store w) a) = StateDead \<longrightarrow> s_state (f (sess (n_store w) a)) = StateDead))"
  shows "world_move w (w\<lparr>n_store := upd_sess a f (n_store w)\<rparr>)"
proof -
  have "good w (w\<lparr>n_store := upd_sess a f (n_store w)\<rparr>)"
    using assms by (intro good_store keeps_at world_inv_wf) auto
  moreover have "calm (n_store w) (upd_sess a f (n_store w))"
    using assms(3) by (intro calm_at) auto
  ultimately show ?thesis by (simp add: world_move_def)
qed

lemma move_cancel: "world_inv w \<Longrightarrow> ctx_ok ctx w \<Longrightarrow> world_move w (cancel ctx w)"
  by (simp add: world_move_def cancel_good)

lemma move_Dispatch:
  assumes "world_inv w" and "enumerates (e_ord_sess E) (st_sessions (n_store w))" and "ctx_ok ctx w"
    and "Dispatch E ctx c w = Ret (out, w')"
  shows "world_move w w'"
  using Dispatch_good [OF assms] Dispatch_calm [OF assms(4)] by (simp add: world_move_def)

lemma move_net:
  assumes "world_inv w" and "net_inv w'" and "calm (n_store w) (n_store w')"
    and "w_fwd w' = w_fwd w" "cx_next w' = cx_next w" "n_listeners w' = n_listeners w"
  shows "world_move w w'"
  using assms by (simp add: world_move_def good_def world_inv_def fctx_ok_def ports_ok_def IsOpen_def)

lemma move_event:
  assumes inv: "world_inv w" and ev: "take_event w = Some w'"
  shows "world_move w w'"
proof (rule move_net [OF inv])
  show "net_inv w'" using take_event_inv [OF _ ev] inv by (simp add: world_inv_def)
qed (use ev in \<open>auto simp: take_event_def Let_def split: list.splits EventType.splits option.splits\<close>)

lemma net_goroutines:
  "acceptLoop inp now i w = Some w' \<Longrightarrow> calm (n_store (w :: world)) (n_store w') \<and> w_fwd w' = w_fwd w
     \<and> cx_next w' = cx_next w \<and> n_listeners w' = n_listeners w"
  "watchSession b j w = Some w' \<Longrightarrow> calm (n_store w) (n_store w') \<and> w_fwd w' = w_fwd w
     \<and> cx_next w' = cx_next w \<and> n_listeners w' = n_listeners w"
  "StartRxLoop data err now a w = Some w' \<Longrightarrow> calm (n_store w) (n_store w') \<and> w_fwd w' = w_fwd w
     \<and> cx_next w' = cx_next w \<and> n_listeners w' = n_listeners w"
proof -
  show "acceptLoop inp now i w = Some w' \<Longrightarrow> calm (n_store w) (n_store w') \<and> w_fwd w' = w_fwd w
     \<and> cx_next w' = cx_next w \<and> n_listeners w' = n_listeners w"
    by (auto simp: acceptLoop_def chan_send_def set_pc_def upd_lsn_def Let_def calm_Accept
        split: accept_pc.splits accept_in.splits if_splits prod.splits)
  show "watchSession b j w = Some w' \<Longrightarrow> calm (n_store w) (n_store w') \<and> w_fwd w' = w_fwd w
     \<and> cx_next w' = cx_next w \<and> n_listeners w' = n_listeners w"
    by (auto simp: watchSession_def chan_send_def set_wpc_def Let_def split: watch_pc.splits if_splits)
  have "s_state (fst (rx_turn s now data err)) = StateForeground \<Longrightarrow> s_state s = StateForeground" for s
    by (auto simp: rx_turn_def SetState_def Let_def split: if_splits)
  then have "calm (n_store w) (upd_sess a (\<lambda>s. fst (rx_turn s now data err)) (n_store w))"
    by (intro calm_at) blast
  then show "StartRxLoop data err now a w = Some w' \<Longrightarrow> calm (n_store w) (n_store w') \<and> w_fwd w' = w_fwd w
     \<and> cx_next w' = cx_next w \<and> n_listeners w' = n_listeners w"
    by (cases err) (auto simp: StartRxLoop_def Let_def split: if_splits)
qed

lemma move_goroutines:
  assumes "world_inv w"
  shows "acceptLoop inp now i w = Some w' \<Longrightarrow> world_move w w'"
    and "watchSession b j w = Some w' \<Longrightarrow> world_move w w'"
    and "StartRxLoop data err now a w = Some w' \<Longrightarrow> world_move w w'"
  using assms net_goroutines acceptLoop_inv watchSession_inv StartRxLoop_inv
  by (meson move_net world_inv_def)+

section \<open>Entering and leaving the foreground\<close>

text \<open>At most one session is in the foreground, the one named.\<close>

definition fronted :: "nat option \<Rightarrow> store \<Rightarrow> bool" where
  "fronted front st \<longleftrightarrow> (\<forall>b < length (st_heap st). s_state (sess st b) = StateForeground \<longrightarrow> front = Some b)"

lemma fronted_calm: "fronted front st \<Longrightarrow> calm st st' \<Longrightarrow> fronted front st'"
  by (auto simp: fronted_def calm_def)

lemma fronted_move: "fronted front (n_store w) \<Longrightarrow> world_move w w' \<Longrightarrow> fronted front (n_store w')"
  by (auto simp: world_move_def intro: fronted_calm)

lemma fronted_enter:
  assumes "fronted None st"
  shows "fronted (Some a) (upd_sess a (\<lambda>s. SetState s StateForeground) st)"
  unfolding fronted_def
proof (intro allI impI)
  fix b
  assume "b < length (st_heap (upd_sess a (\<lambda>s. SetState s StateForeground) st))"
    and "s_state (sess (upd_sess a (\<lambda>s. SetState s StateForeground) st) b) = StateForeground"
  with assms show "Some a = Some b"
    by (cases "b = a") (auto simp: fronted_def sess_upd_other)
qed

lemma fronted_leave:
  assumes "fronted (Some a) st"
  shows "fronted None (if s_state (sess st a) = StateForeground then upd_sess a (\<lambda>s. SetState s StateBackground) st else st)"
proof (cases "s_state (sess st a) = StateForeground")
  case True
  have "s_state (sess (upd_sess a (\<lambda>s. SetState s StateBackground) st) b) \<noteq> StateForeground"
    if b: "b < length (st_heap st)" for b
  proof (cases "b = a")
    case True
    with b show ?thesis by (simp add: sess_upd)
  next
    case False
    with assms b show ?thesis by (auto simp: fronted_def sess_upd_other)
  qed
  with True show ?thesis by (simp add: fronted_def)
next
  case False
  have "s_state (sess st b) \<noteq> StateForeground" if "b < length (st_heap st)" for b
    using assms that False by (metis fronted_def option.inject)
  with False show ?thesis by (simp add: fronted_def)
qed

lemma enter_good:
  assumes "world_inv w" and "s_state (sess (n_store w) a) \<noteq> StateDead"
  shows "good w (w\<lparr>n_store := upd_sess a (\<lambda>s. SetState s StateForeground) (n_store w)\<rparr>)"
  using assms by (intro good_store keeps_at world_inv_wf) auto

text \<open>The orders in which the maps of the world are ranged over are orders of their keys.\<close>

definition env_ok :: "env \<Rightarrow> world \<Rightarrow> bool" where
  "env_ok E w \<longleftrightarrow> enumerates (e_ord_sess E) (st_sessions (n_store w))
     \<and> enumerates (e_ord_ports E) (n_listeners w) \<and> enumerates (e_ord_fwds E) (fm_entries (w_fwd w))"

section \<open>Starting\<close>

lemma world_init_inv: "world_inv (world_init cfg) \<and> n_store (world_init cfg) = NewManager"
  by (simp add: world_init_def net.extend_def net_init_def world_inv_def net_inv_def ctxs_wf_def
      table_ok_def readers_ok_def lctx_ok_def fctx_ok_def ports_ok_def IsOpen_def fm_NewManager_wf NewManager_wf)
     (simp add: NewManager_def fm_NewManager_def)

lemma with_cancel_inv:
  assumes "world_inv w" and "ctx_ok ctx w" and "with_cancel ctx w = (c, v)"
  shows "world_inv v \<and> ctx_ok c v \<and> n_store v = n_store w"
  using assms
  by (auto simp: with_cancel_def ctx_ok_def world_inv_def net_inv_def ctxs_wf_def table_ok_def readers_ok_def
      lctx_ok_def fctx_ok_def ports_ok_def IsOpen_def less_Suc_eq)

section \<open>A world for the concrete runs\<close>

text \<open>
  One shell context is made, the user opens port 80, and a connection arrives and is
  registered: \<open>world0\<close>, \<open>world1\<close>, \<open>world2\<close>.
\<close>

lemma parse_open_use:
  "Parse ''open 80'' False = \<lparr>cmd_kind = CmdTool, cmd_verb = ''open'', cmd_args = [''80''], cmd_raw = ''open 80''\<rparr>"
  "Parse ''use 80'' False = \<lparr>cmd_kind = CmdTool, cmd_verb = ''use'', cmd_args = [''80''], cmd_raw = ''use 80''\<rparr>"
  "atoi ''80'' = Some 80" "ParsePortIdx ''80'' = Inr (80, 0)"
  by code_simp+

definition world0 :: world where
  "world0 = (world_init defaultConfig)\<lparr>cx_next := 1\<rparr>"

definition world1 :: world where
  "world1 = (world_init defaultConfig)\<lparr>cx_next := 2,
     n_lheap := [\<lparr>l_Port = 80, l_Host = [], l_ctx = [1, 0], l_closed = False, l_pc = AtAccept\<rparr>],
     n_listeners := [80 \<mapsto> 0]\<rparr>"

definition world2 :: world where
  "world2 = world1\<lparr>n_store := snd (mgr_Accept 80 (fresh_conn ''peer'') 0 NewManager), n_rx := [0],
     n_lheap := [\<lparr>l_Port = 80, l_Host = [], l_ctx = [1, 0], l_closed = False, l_pc = SendNew 0\<rparr>]\<rparr>"

definition env_80 :: env where "env_80 = plain_env\<lparr>e_ord_sess := [1], e_ord_ports := [80]\<rparr>"

lemma open_80: "\<exists>out. Dispatch plain_env [0] (Parse ''open 80'' False) world0 = Ret (out, world1)"
proof -
  have "lm_Open (plain_env, [0], []) 80 world0 = Inr world1"
    by (simp add: lm_Open_def Start_def resolveHost_def with_cancel_def plain_env_def net_init_def
        world0_def world1_def world_init_def net.extend_def Let_def)
  then show ?thesis by (simp add: parse_open_use Dispatch_def doOpen_def)
qed

lemma world0_env: "env_ok plain_env world0"
  by (simp add: env_ok_def enumerates_def plain_env_def world0_def world_init_def net.extend_def net_init_def
      NewManager_def fm_NewManager_def)

lemma accept_80:
  "\<exists>w. acceptLoop (ConnArrives (fresh_conn ''peer'')) 0 0 world1 = Some w
     \<and> acceptLoop (ConnArrives (fresh_conn ''peer'')) 0 0 w = Some world2 \<and> length (n_lheap w) = 1"
  by (rule exI [of _ "set_pc 0 (Accepted (fresh_conn ''peer'')) world1"])
     (simp add: acceptLoop_def world1_def world2_def set_pc_def upd_lsn_def world_init_def net.extend_def
       net_init_def mgr_Accept_def NewManager_def Let_def)

lemma use_80: "ByPort (e_ord_sess env_80) 80 (n_store world2) = [0]"
  by (simp add: ByPort_def env_80_def world2_def mgr_Accept_def NewManager_def sess_def newSession_def Let_def)

lemma world2_env: "env_ok env_80 world2"
  by (simp add: env_ok_def enumerates_def env_80_def plain_env_def world2_def world1_def world_init_def net.extend_def
      net_init_def mgr_Accept_def NewManager_def fm_NewManager_def Let_def)

end
