(* ===== verification/Console_System.thy ===== *)
theory Console_System
  imports Exit_Props World_Change
begin

text \<open>
  The console program as a whole: the shell of \<open>internal/console/repl.go\<close>, fed by the user and
  by signals, its event loop and drain goroutines, and the goroutines of the listeners and
  sessions, all on one world. Every step is a step of the component's own model.
\<close>

section \<open>Closing everything\<close>

lemma close_list_good:
  assumes "world_inv w" "enumerates (e_ord_sess E) (st_sessions (n_store w))"
  shows "good w (lt.close_list E ps w) \<and> calm (n_store w) (n_store (lt.close_list E ps w))"
  using assms
proof (induction ps arbitrary: w)
  case (Cons p ps)
  show ?case
  proof (cases "lm_Close E p w")
    case (Inr w1)
    have one: "good w w1" "calm (n_store w) (n_store w1)"
      using lm_Close_good [OF Cons.prems Inr] lm_Close_store [OF Inr] calm_CloseAll by simp_all
    have "st_sessions (n_store w1) = st_sessions (n_store w)" using lm_Close_store [OF Inr] by simp
    with Cons.IH [of w1] Cons.prems one Inr show ?thesis
      by (auto simp: good_def intro: calm_trans)
  qed (use Cons in simp)
qed (simp add: good_refl)

lemma fm_Close_good_at:
  assumes inv: "world_inv (w\<lparr>w_fwd := m\<rparr>)" and cl: "fm_Close () p (w, m) = Inr (w1, m1)"
  shows "good (w\<lparr>w_fwd := m\<rparr>) (w1\<lparr>w_fwd := m1\<rparr>)"
proof -
  obtain e where e: "fm_entries m p = Some e" "w1 = entry_Close e w" "m1 = m\<lparr>fm_entries := (fm_entries m)(p := None)\<rparr>"
    using cl by (auto simp: fm_Close_Inr)
  have c: "cancel c (v\<lparr>w_fwd := m\<rparr>) = (cancel c v)\<lparr>w_fwd := m\<rparr>" for c and v :: world
    by (cases c) (simp_all add: cancel_def)
  have "entry_Close e (w\<lparr>w_fwd := m\<rparr>) = (entry_Close e w)\<lparr>w_fwd := m\<rparr>"
    by (simp add: entry_Close_def Let_def forwarder_Close_def proxy_Close_def c split: option.split)
  then have "fm_Close () p (w\<lparr>w_fwd := m\<rparr>, w_fwd (w\<lparr>w_fwd := m\<rparr>)) = Inr (w1\<lparr>w_fwd := m\<rparr>, m1)"
    using e by (simp add: fm_Close_Inr)
  from fm_Close_good [OF inv this] show ?thesis by simp
qed

lemma fm_close_list_good:
  "world_inv (w\<lparr>w_fwd := m\<rparr>) \<Longrightarrow> ft.close_list () ps (w, m) = (w1, m1) \<Longrightarrow>
   good (w\<lparr>w_fwd := m\<rparr>) (w1\<lparr>w_fwd := m1\<rparr>) \<and> n_store w1 = n_store (w :: world)"
proof (induction ps arbitrary: w m)
  case (Cons p ps)
  show ?case
  proof (cases "fm_Close () p (w, m)")
    case (Inr t)
    obtain v k where t: "t = (v, k)" by force
    have one: "good (w\<lparr>w_fwd := m\<rparr>) (v\<lparr>w_fwd := k\<rparr>)" "n_store v = n_store w"
      using fm_Close_good_at [OF Cons.prems(1)] fm_Close_store Inr t by blast+
    then show ?thesis
      using Cons.IH [where w = v and m = k] Cons.prems(2) Inr t by (auto simp: good_def)
  qed (use Cons in simp)
qed (simp add: good_refl)

lemma close_everything_good:
  assumes "world_inv w" and "ctx_ok ctx w" and "enumerates (e_ord_sess E) (st_sessions (n_store w))"
  shows "good w (close_everything E ctx w) \<and> calm (n_store w) (n_store (close_everything E ctx w))"
proof -
  let ?w1 = "cancel ctx w"
  define w2 where "w2 = lm_CloseAll E ?w1"
  obtain w3 m3 where fc: "fm_CloseAll (e_ord_fwds E) (w2, w_fwd w2) = (w3, m3)" by force
  have c: "good w ?w1" using cancel_good assms by blast
  then have inv1: "world_inv ?w1" by (simp add: good_def)
  have "good ?w1 w2 \<and> calm (n_store ?w1) (n_store w2)"
    unfolding w2_def lm_CloseAll_close_list by (rule close_list_good [OF inv1]) (simp add: assms)
  moreover from this have "world_inv (w2\<lparr>w_fwd := w_fwd w2\<rparr>)" by (simp add: good_def)
  then have "good w2 (w3\<lparr>w_fwd := m3\<rparr>) \<and> n_store w3 = n_store w2"
    using fm_close_list_good [where w = w2 and m = "w_fwd w2"] fc unfolding fm_CloseAll_close_list by simp
  ultimately show ?thesis
    using c by (auto simp: close_everything_def Let_def fc simp flip: w2_def intro: good_trans)
qed

section \<open>The step relation\<close>

text \<open>The one input that breaks the invariant: \<open>+bg\<close> typed in a session that has died.\<close>

definition revives :: "rl_input \<Rightarrow> repl \<Rightarrow> bool" where
  "revives inp r \<longleftrightarrow> (\<exists>line a k. inp = RLine line \<and> rp_mode r = InSession a k
     \<and> s_state (cur_sess r a) = StateDead \<and> cmd_kind (Parse line True) = CmdSpecial
     \<and> cmd_verb (Parse line True) \<in> {''+bg'', ''+background''})"

inductive console_step :: "repl \<Rightarrow> repl \<Rightarrow> bool" where
  types: "env_ok E (rp_world r) \<Longrightarrow> \<not> revives inp r \<Longrightarrow> repl_step E inp r = Ret r' \<Longrightarrow> console_step r r'"
| loops: "env_ok E (rp_world r) \<Longrightarrow> eventLoop E inp r = Some r' \<Longrightarrow> console_step r r'"
| drains: "k < length (rp_drainers r) \<Longrightarrow> drain_step E k r = Some r' \<Longrightarrow> console_step r r'"
| accepts: "i < length (n_lheap (rp_world r)) \<Longrightarrow> acceptLoop inp now i (rp_world r) = Some w \<Longrightarrow>
    console_step r (r\<lparr>rp_world := w\<rparr>)"
| watches: "j < length (n_watchers (rp_world r)) \<Longrightarrow> watchSession by_ctx j (rp_world r) = Some w \<Longrightarrow>
    console_step r (r\<lparr>rp_world := w\<rparr>)"
| receives: "StartRxLoop data err now a (rp_world r) = Some w \<Longrightarrow> console_step r (r\<lparr>rp_world := w\<rparr>)"

definition console_start :: "repl \<Rightarrow> bool" where
  "console_start r \<longleftrightarrow> (\<exists>hist cfg. repl_New hist None cfg = Inr r)"

section \<open>The invariant\<close>

definition heap_size :: "repl \<Rightarrow> nat" where
  "heap_size r = length (st_heap (n_store (rp_world r)))"

definition front_ok :: "repl \<Rightarrow> bool" where
  "front_ok r \<longleftrightarrow> (\<forall>b < heap_size r. s_state (cur_sess r b) = StateForeground \<longrightarrow>
     rp_mode r \<noteq> Menu \<and> (\<forall>a k. rp_mode r = InSession a k \<longrightarrow> b = a))"

definition entry_known :: "repl \<Rightarrow> bool" where
  "entry_known r \<longleftrightarrow> (\<forall>a k. rp_mode r = InSession a k \<longrightarrow>
     k < length (rp_drainers r) \<and> dr_session (rp_drainers r ! k) = a)"

definition console_inv :: "repl \<Rightarrow> bool" where
  "console_inv r \<longleftrightarrow> world_inv (rp_world r) \<and> ctx_ok (rp_ctx r) (rp_world r)
     \<and> (\<forall>d\<in>set (rp_drainers r). dr_session d < heap_size r) \<and> entry_known r \<and> front_ok r"

text \<open>A change that starts no drainer and brings no session to the foreground.\<close>

definition gentle :: "repl \<Rightarrow> repl \<Rightarrow> bool" where
  "gentle r r' \<longleftrightarrow> good (rp_world r) (rp_world r') \<and> calm (n_store (rp_world r)) (n_store (rp_world r'))
     \<and> rp_ctx r' = rp_ctx r \<and> map dr_session (rp_drainers r') = map dr_session (rp_drainers r)"

lemma gentle_refl: "world_inv (rp_world r) \<Longrightarrow> gentle r r"
  by (simp add: gentle_def good_refl)

lemma gentle_trans: "gentle r s \<Longrightarrow> gentle s t \<Longrightarrow> gentle r t"
  by (auto simp: gentle_def intro: good_trans calm_trans)

lemma console_inv_world: "console_inv r \<Longrightarrow> world_inv (rp_world r)"
  by (simp add: console_inv_def)

lemma gentle_core:
  assumes inv: "console_inv r" and g: "gentle r r'"
  shows "world_inv (rp_world r') \<and> ctx_ok (rp_ctx r') (rp_world r')
    \<and> (\<forall>d\<in>set (rp_drainers r'). dr_session d < heap_size r')"
proof -
  have "dr_session ` set (rp_drainers r') = dr_session ` set (rp_drainers r)"
    using g by (metis gentle_def list.set_map)
  moreover have "heap_size r \<le> heap_size r'" using g by (simp add: gentle_def calm_def heap_size_def)
  moreover have "n < heap_size r" if "n \<in> dr_session ` set (rp_drainers r)" for n
    using inv that by (auto simp: console_inv_def)
  ultimately have "\<forall>d\<in>set (rp_drainers r'). dr_session d < heap_size r'"
    by (metis imageI less_le_trans)
  with inv g show ?thesis by (auto simp: gentle_def good_def console_inv_def ctx_ok_def)
qed

lemma gentle_same_mode:
  assumes inv: "console_inv r" and g: "gentle r r'" and m: "rp_mode r' = rp_mode r"
  shows "console_inv r'"
proof -
  have len: "length (rp_drainers r') = length (rp_drainers r)"
    using g unfolding gentle_def by (metis length_map)
  have "dr_session (rp_drainers r' ! k) = dr_session (rp_drainers r ! k)" if "k < length (rp_drainers r)" for k
    using g that len nth_map [of k "rp_drainers r'" dr_session] nth_map [of k "rp_drainers r" dr_session]
    by (simp add: gentle_def)
  then have "entry_known r'" using inv len m by (simp add: console_inv_def entry_known_def)
  moreover have "b < heap_size r \<and> s_state (cur_sess r b) = StateForeground"
    if "b < heap_size r'" "s_state (cur_sess r' b) = StateForeground" for b
    using g that by (simp add: gentle_def calm_def heap_size_def cur_sess_def)
  then have "front_ok r'" using inv m unfolding console_inv_def front_ok_def by metis
  ultimately show ?thesis using gentle_core [OF inv g] by (simp add: console_inv_def)
qed

lemma gentle_ends:
  assumes inv: "console_inv r" and g: "gentle r r'" and m: "rp_mode r' = OsExit \<or> (\<exists>e. rp_mode r' = Returned e)"
  shows "console_inv r'"
  using gentle_core [OF inv g] m by (auto simp: console_inv_def entry_known_def front_ok_def)

lemma gentle_upd:
  assumes inv: "world_inv (rp_world r)" and "s_ID (f (cur_sess r a)) = s_ID (cur_sess r a)"
    and "s_state (f (cur_sess r a)) = s_state (cur_sess r a)
      \<or> (s_state (f (cur_sess r a)) \<noteq> StateForeground \<and> (s_state (cur_sess r a) = StateDead \<longrightarrow> s_state (f (cur_sess r a)) = StateDead))"
  shows "gentle r (upd_world_sess a f r)"
  using move_upd [OF inv, of f a] assms by (auto simp: gentle_def upd_world_sess_def world_move_def cur_sess_def)

lemma gentle_print: "world_inv (rp_world r) \<Longrightarrow> gentle r (print s r)" "world_inv (rp_world r) \<Longrightarrow> gentle r (println s r)"
  by (simp_all add: gentle_def good_refl println_def print_def)

lemma gentle_world: "gentle r r' \<Longrightarrow> world_inv (rp_world r')"
  by (simp add: gentle_def good_def)

section \<open>Every step keeps it\<close>

lemma doExit_gentle:
  assumes "console_inv r" and "env_ok E (rp_world r)"
  shows "gentle r (fst (doExit E confirm r))"
proof -
  have w: "world_inv (rp_world r)" using assms(1) by (rule console_inv_world)
  have "good (rp_world r) (close_everything E (rp_ctx r) (rp_world r))
      \<and> calm (n_store (rp_world r)) (n_store (close_everything E (rp_ctx r) (rp_world r)))"
    using assms by (intro close_everything_good) (simp_all add: console_inv_def env_ok_def)
  then show ?thesis using w by (simp add: doExit_def Let_def gentle_def good_refl println_def print_def)
qed

lemma entered_known: "console_inv r \<Longrightarrow> rp_mode r = InSession a k \<Longrightarrow> a < heap_size r"
  unfolding console_inv_def entry_known_def by (metis nth_mem)

lemma leave_inv:
  assumes inv: "console_inv r" and g: "gentle r r'" and m: "rp_mode r = InSession a k"
  shows "console_inv (leaveSession a r')"
proof -
  have w: "world_inv (rp_world r')" using g by (rule gentle_world)
  have a: "a < heap_size r'"
    using entered_known [OF inv m] g by (simp add: gentle_def calm_def heap_size_def)
  define q where "q = (if s_state (cur_sess r' a) = StateForeground
    then upd_world_sess a (\<lambda>s. SetState s StateBackground) r' else r')"
  have lv: "leaveSession a r' = q\<lparr>rp_prompt := Prompt (rp_cfg q), rp_mode := Menu\<rparr>"
    by (simp add: leaveSession_def Let_def q_def)
  have size: "heap_size q = heap_size r'" by (simp add: q_def heap_size_def)
  have "gentle r' q"
    using gentle_refl [OF w] gentle_upd [OF w, of "\<lambda>s. SetState s StateBackground" a] by (simp add: q_def)
  then have "gentle r q" using g gentle_trans by blast
  from gentle_core [OF inv this] have core: "world_inv (rp_world q) \<and> ctx_ok (rp_ctx q) (rp_world q)
      \<and> (\<forall>d\<in>set (rp_drainers q). dr_session d < heap_size q)" .
  have "s_state (cur_sess (leaveSession a r') b) \<noteq> StateForeground" if "b < heap_size r'" for b
  proof (cases "b = a")
    case True
    with a show ?thesis by (simp add: leaveSession_sess heap_size_def)
  next
    case False
    have "s_state (cur_sess r' b) \<noteq> StateForeground"
      using inv g m that False
      by (fastforce simp: console_inv_def front_ok_def gentle_def calm_def heap_size_def cur_sess_def)
    with False a show ?thesis by (simp add: leaveSession_sess heap_size_def)
  qed
  then have "front_ok (leaveSession a r')"
    unfolding front_ok_def using size by (simp add: lv heap_size_def cur_sess_def)
  moreover have "entry_known (leaveSession a r')" by (simp add: lv entry_known_def)
  ultimately show ?thesis using core by (simp add: console_inv_def lv heap_size_def)
qed

lemma enter_inv:
  assumes inv: "console_inv r" and m: "rp_mode r = Menu"
    and a: "a < heap_size r" "s_state (cur_sess r a) \<noteq> StateDead"
  shows "console_inv (enterSession E a idx r)"
proof -
  let ?st = "upd_sess a (\<lambda>s. SetState s StateForeground) (n_store (rp_world r))"
  let ?w = "(rp_world r)\<lparr>n_store := ?st\<rparr>"
  have g: "good (rp_world r) ?w"
    using inv a by (intro good_store keeps_at world_inv_wf) (auto simp: console_inv_def cur_sess_def)
  have fg: "s_state (sess ?st b) = StateForeground \<longrightarrow> b = a" if "b < heap_size r" for b
    using inv m that a
    by (cases "b = a") (auto simp: console_inv_def front_ok_def heap_size_def cur_sess_def sess_upd)
  obtain r0 where r: "enterSession E a idx r = r0" "rp_world r0 = ?w" "rp_ctx r0 = rp_ctx r"
      "rp_drainers r0 = rp_drainers r @ [\<lparr>dr_session = a, dr_running = True\<rparr>]"
      "rp_mode r0 = InSession a (length (rp_drainers r))"
    by (simp add: enterSession_def Let_def upd_world_sess_def println_def print_def)
  have "\<forall>d\<in>set (rp_drainers r0). dr_session d < heap_size r0"
    using inv a r by (auto simp: console_inv_def heap_size_def)
  moreover have "world_inv (rp_world r0) \<and> ctx_ok (rp_ctx r0) (rp_world r0)"
    using inv g r by (auto simp: console_inv_def good_def ctx_ok_def)
  moreover have "entry_known r0" using r by (simp add: entry_known_def)
  moreover have "front_ok r0" using r fg by (auto simp: front_ok_def heap_size_def cur_sess_def)
  ultimately show ?thesis using r(1) by (simp add: console_inv_def)
qed

lemma send_line_inv:
  assumes inv: "console_inv r" and m: "rp_mode r = InSession a k"
  shows "console_inv (send_line E a k line payload r)"
proof -
  have w: "world_inv (rp_world r)" using inv by (rule console_inv_world)
  have a: "a < length (st_heap (n_store (rp_world r)))" using entered_known [OF inv m] by (simp add: heap_size_def)
  obtain s1 n err where res: "session_Write (cur_sess r a) payload (e_write E) = (s1, n, err)" by (metis prod_cases3)
  have s1: "s_state s1 = s_state (cur_sess r a)" "s_ID s1 = s_ID (cur_sess r a)"
    using write_of_state [OF res] session_ops_ID(5) [of "cur_sess r a" payload "e_write E"] res by simp_all
  let ?r1 = "upd_world_sess a (\<lambda>_. s1) r"
  have g1: "gentle r ?r1" using w s1 by (intro gentle_upd) auto
  have w1: "world_inv (rp_world ?r1)" using g1 by (rule gentle_world)
  let ?dead = "upd_world_sess a (\<lambda>s. SetState s StateDead) ?r1"
  have gd: "gentle r ?dead" by (rule gentle_trans [OF g1 gentle_upd [OF w1]]) simp_all
  let ?h = "upd_world_sess a (\<lambda>s. AddHistory s line) ?r1"
  have gh: "gentle r ?h" by (rule gentle_trans [OF g1 gentle_upd [OF w1]]) (simp_all add: AddHistory_def)
  have "console_inv (println x r)" for x
    by (rule gentle_same_mode [OF inv gentle_print(2) [OF w]]) simp
  moreover have "console_inv (leaveSession a (println x ?dead))" for x
    by (rule leave_inv [OF inv gentle_trans [OF gd gentle_print(2) [OF gentle_world [OF gd]]] m])
  moreover have "console_inv (check_remote a k ?h)"
    using gentle_same_mode [OF inv gh] leave_inv [OF inv gh m] by (simp add: check_remote_def)
  ultimately show ?thesis by (simp add: send_line_def Let_def res split: option.split)
qed

lemma session_step_inv:
  assumes inv: "console_inv r" and m: "rp_mode r = InSession a k" and env: "env_ok E (rp_world r)"
    and nr: "\<not> revives inp r"
  shows "console_inv (session_step E a k inp r)"
proof -
  have w: "world_inv (rp_world r)" using inv by (rule console_inv_world)
  have pr: "console_inv (println x r)" "console_inv (print x r)" for x
    by (rule gentle_same_mode [OF inv gentle_print(2) [OF w]], simp)
       (rule gentle_same_mode [OF inv gentle_print(1) [OF w]], simp)
  have lv: "console_inv (leaveSession a r)" "console_inv (leaveSession a (println x r))"
      "console_inv (leaveSession a (print x r))" for x
    using leave_inv [OF inv _ m] gentle_refl [OF w] gentle_print [OF w] by blast+
  have po: "console_inv (check_remote a k (print_out x r))" "console_inv (check_remote a k r)" for x
    using pr lv inv by (simp_all add: check_remote_def print_out_def)
  have ex: "console_inv ((fst (doExit E True r))\<lparr>rp_mode := OsExit\<rparr>)"
    using doExit_gentle [OF inv env, of True] by (intro gentle_ends [OF inv]) (simp_all add: gentle_def)
  have bg: "console_inv (leaveSession a (println x (upd_world_sess a (\<lambda>s. SetState s StateBackground) r)))"
    if "s_state (cur_sess r a) \<noteq> StateDead" for x
  proof (rule leave_inv [OF inv _ m])
    have g: "gentle r (upd_world_sess a (\<lambda>s. SetState s StateBackground) r)"
      using that by (intro gentle_upd [OF w]) simp_all
    show "gentle r (println x (upd_world_sess a (\<lambda>s. SetState s StateBackground) r))"
      by (rule gentle_trans [OF g gentle_print(2) [OF gentle_world [OF g]]])
  qed
  show ?thesis
  proof (cases inp)
    case (RLine l)
    show ?thesis
    proof (cases "cmd_kind (Parse l True) = CmdSpecial")
      case True
      consider "cmd_verb (Parse l True) = ''+back''" | "cmd_verb (Parse l True) \<in> {''+bg'', ''+background''}"
        | "cmd_verb (Parse l True) = ''+exit''" | "cmd_verb (Parse l True) \<notin> {''+back'', ''+bg'', ''+background'', ''+exit''}"
        by blast
      then show ?thesis
      proof cases
        case 2
        then have "s_state (cur_sess r a) \<noteq> StateDead" using nr m True RLine by (auto simp: revives_def)
        with 2 bg True RLine show ?thesis by (auto simp: session_step_def Let_def)
      qed (use True RLine lv ex po in \<open>simp_all add: session_step_def Let_def\<close>)
    next
      case False
      with RLine po send_line_inv [OF inv m] show ?thesis
        by (cases "cmd_kind (Parse l True)") (simp_all add: session_step_def Let_def)
    qed
  next
    case (RErr e)
    have "cmd_kind (Parse [] True) = CmdEmpty" by (simp add: Parse_empty_iff)
    with RErr send_line_inv [OF inv m] show ?thesis by (simp add: session_step_def Let_def)
  qed (use pr lv in \<open>simp_all add: session_step_def\<close>)
qed

lemma print_inv:
  assumes "console_inv r"
  shows "console_inv (println x r)" "console_inv (print x r)" "console_inv (print_out x r)"
  using gentle_same_mode [OF assms] gentle_print [OF console_inv_world [OF assms]]
  by (simp_all add: print_out_def)

lemma doUse_inv:
  assumes inv: "console_inv r" and m: "rp_mode r = Menu" and u: "doUse E args r = Ret r'"
  shows "console_inv r'"
proof -
  have enter: "console_inv (enterSession E a n q)"
    if "a \<in> set (ByPort ord port (n_store (rp_world r)))" "q = r \<or> q = print x r" for a n q ord port x
  proof (rule enter_inv)
    have "store_wf (n_store (rp_world r))" using inv by (simp add: console_inv_def world_inv_wf)
    then have "a < heap_size r" "s_state (cur_sess r a) \<noteq> StateDead"
      using ByPort_mem [OF that(1)] store_wfD by (auto simp: live_on_def heap_size_def cur_sess_def)
    then show "a < heap_size q" "s_state (cur_sess q a) \<noteq> StateDead"
      using that(2) by (auto simp: heap_size_def)
  qed (use that inv m print_inv in auto)
  have enter1: "console_inv (enterSession E a n r)" and enter2: "console_inv (enterSession E a n (print x r))"
    if "slice_at (ByPort ord port (n_store (rp_world r))) i = Ret a" for a n ord port i x
    using enter [OF slice_at_mem [OF that]] by blast+
  show ?thesis
    using u
    by (auto simp: doUse_def Let_def split: list.splits sum.splits if_splits go.splits option.splits)
       (assumption | rule enter1 enter2 print_inv inv)+
qed

lemma menu_step_inv:
  assumes inv: "console_inv r" and m: "rp_mode r = Menu" and env: "env_ok E (rp_world r)"
    and st: "menu_step E inp r = Ret r'"
  shows "console_inv r'"
proof -
  have ret: "console_inv (returned E b r)" for b
    using doExit_gentle [OF inv env, of b]
    unfolding returned_def by (intro gentle_ends [OF inv]) (simp_all add: gentle_def)
  have err: "console_inv (r\<lparr>rp_mode := Returned e\<rparr>)" for e
    using gentle_refl [OF console_inv_world [OF inv]] by (intro gentle_ends [OF inv]) (simp_all add: gentle_def)
  have disp: "console_inv (println out (r\<lparr>rp_world := w\<rparr>))"
    if "Dispatch E (rp_ctx r) c (rp_world r) = Ret (out, w)" for c out w
  proof -
    have "good (rp_world r) w"
      using inv env that by (intro Dispatch_good) (auto simp: console_inv_def env_ok_def)
    then have "gentle r (r\<lparr>rp_world := w\<rparr>)" using Dispatch_calm [OF that] by (simp add: gentle_def)
    then have "console_inv (r\<lparr>rp_world := w\<rparr>)" by (rule gentle_same_mode [OF inv]) simp
    then show ?thesis by (rule print_inv)
  qed
  show ?thesis
    using st ret err disp doUse_inv [OF inv m] print_inv [OF inv] inv
    by (auto simp: menu_step_def Let_def split: rl_input.splits cmd_kind.splits if_splits go.splits prod.splits)
qed

lemma drain_step_inv:
  assumes inv: "console_inv r" and k: "k < length (rp_drainers r)" and d: "drain_step E k r = Some r'"
  shows "console_inv r'"
proof -
  let ?d = "rp_drainers r ! k"
  let ?a = "dr_session ?d"
  obtain data s1 where dr: "DrainRxBuf (cur_sess r ?a) = (data, s1)" by force
  have s1: "s_state s1 = s_state (cur_sess r ?a)" "s_ID s1 = s_ID (cur_sess r ?a)"
    using dr by (auto simp: DrainRxBuf_def split: if_splits)
  let ?r1 = "upd_world_sess ?a (\<lambda>_. s1) r"
  let ?r2 = "case data of None \<Rightarrow> ?r1 | Some bytes \<Rightarrow> print bytes ?r1"
  let ?r3 = "?r2\<lparr>rp_drainers := (rp_drainers ?r2)[k := ?d\<lparr>dr_running := False\<rparr>]\<rparr>"
  have g1: "gentle r ?r1" using s1 by (intro gentle_upd console_inv_world [OF inv]) auto
  have g2: "gentle r ?r2"
    using g1 gentle_trans [OF g1 gentle_print(1) [OF gentle_world [OF g1]]] by (simp split: option.split)
  have dd: "rp_drainers ?r2 = rp_drainers r" "rp_mode ?r2 = rp_mode r" by (simp_all split: option.split)
  have "map dr_session ((rp_drainers r)[k := ?d\<lparr>dr_running := False\<rparr>]) = map dr_session (rp_drainers r)"
    using k by (simp add: map_update list_update_same_conv)
  then have "gentle r ?r3" using g2 dd by (simp add: gentle_def)
  then have "console_inv ?r3" by (rule gentle_same_mode [OF inv]) (simp add: dd)
  moreover have "console_inv ?r2" by (rule gentle_same_mode [OF inv g2 dd(2)])
  ultimately show ?thesis
    using d print_inv by (auto simp: drain_step_def Let_def dr split: if_splits)
qed

lemma eventLoop_inv:
  assumes inv: "console_inv r" and env: "env_ok E (rp_world r)" and ev: "eventLoop E inp r = Some r'"
  shows "console_inv r'"
proof (cases inp)
  case LoopEvent
  then obtain w x where w: "take_event (rp_world r) = Some w" and r': "r' = (print x r)\<lparr>rp_world := w\<rparr>"
    using ev by (auto simp: eventLoop_def split: if_splits list.splits)
  have "gentle r r'"
    using move_event [OF console_inv_world [OF inv] w] by (simp add: gentle_def world_move_def r' print_def)
  then show ?thesis by (rule gentle_same_mode [OF inv]) (simp add: r' print_def)
next
  case (LoopSignal sig)
  have "console_inv ((fst (doExit E False r))\<lparr>rp_mode := OsExit\<rparr>)"
    using doExit_gentle [OF inv env, of False] by (intro gentle_ends [OF inv]) (simp_all add: gentle_def)
  with LoopSignal ev inv show ?thesis by (auto simp: eventLoop_def split: if_splits)
qed

lemma net_gentle: "console_inv r \<Longrightarrow> world_move (rp_world r) w \<Longrightarrow> console_inv (r\<lparr>rp_world := w\<rparr>)"
  by (rule gentle_same_mode [of r]) (simp_all add: gentle_def world_move_def)

lemma console_step_inv:
  assumes inv: "console_inv r" and st: "console_step r r'"
  shows "console_inv r'"
proof -
  have w: "world_inv (rp_world r)" using inv by (rule console_inv_world)
  from st show ?thesis
  proof cases
    case (types E inp)
    then show ?thesis
      using menu_step_inv [OF inv _ types(1)] session_step_inv [OF inv _ types(1,2)] inv
      by (auto simp: repl_step_def split: mode.splits)
  next
    case (loops E inp)
    then show ?thesis using eventLoop_inv [OF inv] by blast
  next
    case (drains k E)
    then show ?thesis using drain_step_inv [OF inv] by blast
  next
    case (accepts i inp now v)
    then show ?thesis using net_gentle [OF inv move_goroutines(1) [OF w]] by simp
  next
    case (watches j b v)
    then show ?thesis using net_gentle [OF inv move_goroutines(2) [OF w]] by simp
  next
    case (receives data err now a v)
    then show ?thesis using net_gentle [OF inv move_goroutines(3) [OF w]] by simp
  qed
qed

lemma console_start_inv: "console_start r \<Longrightarrow> console_inv r"
proof -
  assume "console_start r"
  then obtain hist cfg where n: "repl_New hist None cfg = Inr r" by (auto simp: console_start_def)
  then obtain path where "hist = Inr path" by (cases hist) (simp_all add: repl_New_def)
  with n have w: "with_cancel [] (world_init cfg) = (rp_ctx r, rp_world r)"
    and r: "rp_mode r = Menu" "rp_drainers r = []"
    by (auto simp: repl_New_def split: prod.splits)
  have "world_inv (rp_world r) \<and> ctx_ok (rp_ctx r) (rp_world r) \<and> n_store (rp_world r) = NewManager"
    using with_cancel_inv [OF _ _ w] world_init_inv [of cfg] by (simp add: ctx_ok_def)
  then show ?thesis
    using r by (simp add: console_inv_def entry_known_def front_ok_def heap_size_def) (simp add: NewManager_def)
qed

interpretation cs: inductive_invariant console_start console_step console_inv
  by unfold_locales (auto intro: console_start_inv console_step_inv)


section \<open>A concrete run\<close>

text \<open>The user opens port 80, a connection arrives, and the user enters its session.\<close>

definition console0 :: repl where
  "console0 = \<lparr>rp_world = (world_init defaultConfig)\<lparr>cx_next := 1\<rparr>, rp_cfg = defaultConfig, rp_ctx = [0], rp_mode = Menu,
     rp_prompt = Prompt defaultConfig, rp_drainers = [], rp_signals = True, rp_open = True, rp_out = []\<rparr>"

lemma console0_start: "console_start console0"
  unfolding console_start_def
  by (rule exI [of _ "Inr []"], rule exI [of _ defaultConfig])
     (simp add: repl_New_def with_cancel_def console0_def world_init_def net.extend_def net_init_def)

lemma console1: "\<exists>x. console_step console0 ((println x console0)\<lparr>rp_world := world1\<rparr>)"
proof -
  have w: "rp_world console0 = world0" by (simp add: console0_def world0_def)
  obtain out where "Dispatch plain_env [0] (Parse ''open 80'' False) world0 = Ret (out, world1)"
    using open_80 by blast
  then have "repl_step plain_env (RLine ''open 80'') console0 = Ret ((println out console0)\<lparr>rp_world := world1\<rparr>)"
    using w by (simp add: repl_step_def menu_step_def console0_def parse_open_use println_def print_def)
  moreover have "\<not> revives (RLine ''open 80'') console0" by (simp add: revives_def console0_def)
  ultimately show ?thesis using types w world0_env by metis
qed

lemma console2: "console_step\<^sup>*\<^sup>* (r\<lparr>rp_world := world1\<rparr>) (r\<lparr>rp_world := world2\<rparr>)"
proof -
  obtain w where w: "acceptLoop (ConnArrives (fresh_conn ''peer'')) 0 0 world1 = Some w"
      "acceptLoop (ConnArrives (fresh_conn ''peer'')) 0 0 w = Some world2" and len: "length (n_lheap w) = 1"
    using accept_80 by blast
  have "console_step (r\<lparr>rp_world := world1\<rparr>) ((r\<lparr>rp_world := world1\<rparr>)\<lparr>rp_world := w\<rparr>)"
    by (rule accepts [of 0 _ "ConnArrives (fresh_conn ''peer'')" 0]) (simp add: world1_def, simp add: w(1))
  moreover have "console_step (r\<lparr>rp_world := w\<rparr>) ((r\<lparr>rp_world := w\<rparr>)\<lparr>rp_world := world2\<rparr>)"
    by (rule accepts [of 0 _ "ConnArrives (fresh_conn ''peer'')" 0]) (simp_all add: w(2) len)
  ultimately show ?thesis by (simp add: converse_rtranclp_into_rtranclp)
qed

lemma console3:
  assumes "rp_mode r = Menu"
  shows "\<exists>r'. console_step (r\<lparr>rp_world := world2\<rparr>) r' \<and> rp_mode r' = InSession 0 (length (rp_drainers r))
    \<and> s_state (cur_sess r' 0) = StateForeground"
proof -
  let ?r = "r\<lparr>rp_world := world2\<rparr>"
  have "repl_step env_80 (RLine ''use 80'') ?r = Ret (enterSession env_80 0 1 ?r)"
    using assms
    by (simp add: repl_step_def menu_step_def parse_open_use doUse_def use_80 slice_at_def)
  moreover have "\<not> revives (RLine ''use 80'') ?r" using assms by (simp add: revives_def)
  ultimately have "console_step ?r (enterSession env_80 0 1 ?r)" using world2_env by (intro types [of env_80]) simp_all
  moreover have "rp_mode (enterSession env_80 0 1 ?r) = InSession 0 (length (rp_drainers r))"
    by (simp add: enterSession_def Let_def println_def print_def upd_world_sess_def)
  moreover have "s_state (cur_sess (enterSession env_80 0 1 ?r) 0) = StateForeground"
    by (simp add: enterSession_def Let_def cur_sess_def sess_upd world2_def mgr_Accept_def NewManager_def)
  ultimately show ?thesis by blast
qed


end
