(* ===== verification/Server_System.thy ===== *)
theory Server_System
  imports Server_Steps World_Change
begin

text \<open>
  The server as a whole: one client after another is served by the goroutines of \<open>serveClient\<close>
  (\<open>internal/server/server.go\<close>), on the world that the goroutines of listeners and sessions
  change meanwhile. Every step is a step of the component's own model.
\<close>

section \<open>The step relation\<close>

text \<open>As in the console: \<open>+bg\<close> for a session that has died is left out.\<close>

definition sv_revives :: "server \<Rightarrow> bool" where
  "sv_revives s \<longleftrightarrow> (\<exists>a k line rest. sv_mode s = SvSession a k \<and> sv_cmds s = line # rest
     \<and> s_state (sv_sess s a) = StateDead \<and> trim_space line \<in> {''+bg'', ''+background''})"

inductive server_step :: "server \<Rightarrow> server \<Rightarrow> bool" where
  connects: "sv_mode s = SvDone \<Longrightarrow> server_step s (serveClient s)"
| reads: "reader_step b frame s = Some s' \<Longrightarrow> server_step s s'"
| writes: "writer_step b fails s = Some s' \<Longrightarrow> server_step s s'"
| flushes: "flush_step s = Some s' \<Longrightarrow> server_step s s'"
| forwards: "event_forward b s = Some s' \<Longrightarrow> server_step s s'"
| pumps: "k < length (sv_pumps s) \<Longrightarrow> pump_step b k s = Some s' \<Longrightarrow> server_step s s'"
| runs: "env_ok E (sv_world s) \<Longrightarrow> \<not> sv_revives s \<Longrightarrow> main_step E b s = Some (Ret s') \<Longrightarrow> server_step s s'"
| accepts: "acceptLoop inp now i (sv_world s) = Some w \<Longrightarrow> server_step s (s\<lparr>sv_world := w\<rparr>)"
| watches: "watchSession b j (sv_world s) = Some w \<Longrightarrow> server_step s (s\<lparr>sv_world := w\<rparr>)"
| receives: "StartRxLoop data err now a (sv_world s) = Some w \<Longrightarrow> server_step s (s\<lparr>sv_world := w\<rparr>)"

definition server_start :: "server \<Rightarrow> bool" where
  "server_start s \<longleftrightarrow> (\<exists>sha256 draw cfg bnd token. server_New sha256 draw cfg bnd token = Inr s)"

section \<open>The invariant\<close>

definition attached :: "server \<Rightarrow> nat option" where
  "attached s = (case sv_mode s of SvSession a k \<Rightarrow> Some a | _ \<Rightarrow> None)"

definition pump_sessions :: "server \<Rightarrow> nat list" where
  "pump_sessions s = map px_session (sv_pumps s)"

definition pumps_ok :: "server \<Rightarrow> bool" where
  "pumps_ok s \<longleftrightarrow> (\<forall>a\<in>set (pump_sessions s). a < length (st_heap (n_store (sv_world s))))
     \<and> (\<forall>a k. sv_mode s = SvSession a k \<longrightarrow> k < length (pump_sessions s) \<and> pump_sessions s ! k = a)"

definition server_inv :: "server \<Rightarrow> bool" where
  "server_inv s \<longleftrightarrow> world_inv (sv_world s) \<and> ctx_ok (sv_ctx s) (sv_world s)
     \<and> fronted (attached s) (n_store (sv_world s)) \<and> pumps_ok s"

text \<open>A change of the world alone, with the pumps on the sessions they were on.\<close>

definition moved :: "server \<Rightarrow> server \<Rightarrow> bool" where
  "moved s s' \<longleftrightarrow> world_move (sv_world s) (sv_world s') \<and> sv_ctx s' = sv_ctx s
     \<and> pump_sessions s' = pump_sessions s"

lemma server_inv_world: "server_inv s \<Longrightarrow> world_inv (sv_world s)"
  by (simp add: server_inv_def)

lemma moved_trans: "moved s t \<Longrightarrow> moved t u \<Longrightarrow> moved s u"
  by (auto simp: moved_def intro: world_move_trans)

lemma moved_still:
  "world_inv (sv_world s) \<Longrightarrow> sv_world s' = sv_world s \<Longrightarrow> sv_ctx s' = sv_ctx s \<Longrightarrow>
   pump_sessions s' = pump_sessions s \<Longrightarrow> moved s s'"
  by (simp add: moved_def world_move_refl)

lemma moved_ctx: "ctx_ok (sv_ctx s) (sv_world s) \<Longrightarrow> moved s s' \<Longrightarrow> ctx_ok (sv_ctx s') (sv_world s')"
  by (auto simp: moved_def world_move_def good_def ctx_ok_def)

lemma moved_inv:
  assumes inv: "server_inv s" and m: "moved s s'"
    and front: "fronted (attached s') (n_store (sv_world s'))"
    and mode: "sv_mode s' = sv_mode s \<or> sv_mode s' = SvMenu \<or> sv_mode s' = SvDone"
  shows "server_inv s'"
proof -
  have "length (st_heap (n_store (sv_world s))) \<le> length (st_heap (n_store (sv_world s')))"
    using m by (intro world_move_heap) (simp add: moved_def)
  then have "pumps_ok s'"
    using inv m mode unfolding server_inv_def pumps_ok_def moved_def
    by (metis less_le_trans srv_mode.distinct(1,5))
  moreover have "world_inv (sv_world s')" using m by (auto simp: moved_def intro: world_move_inv)
  ultimately show ?thesis using moved_ctx [OF _ m] inv front by (simp add: server_inv_def)
qed

lemma moved_same:
  assumes "server_inv s" and "moved s s'" and "sv_mode s' = sv_mode s"
  shows "server_inv s'"
proof (rule moved_inv [OF assms(1,2)])
  have "attached s' = attached s" using assms(3) by (simp add: attached_def)
  then show "fronted (attached s') (n_store (sv_world s'))"
    using assms by (auto simp: server_inv_def moved_def intro: fronted_move)
qed (simp add: assms(3))

lemma moved_upd:
  assumes "world_inv (sv_world s)" and "s_ID (f (sv_sess s a)) = s_ID (sv_sess s a)"
    and "s_state (f (sv_sess s a)) = s_state (sv_sess s a)
      \<or> (s_state (f (sv_sess s a)) \<noteq> StateForeground
         \<and> (s_state (sv_sess s a) = StateDead \<longrightarrow> s_state (f (sv_sess s a)) = StateDead))"
  shows "moved s (sv_upd_sess a f s)"
  using move_upd [of "sv_world s" f a] assms by (simp add: moved_def sv_upd_sess_def sv_sess_def pump_sessions_def)

section \<open>Every step keeps it\<close>

lemma end_session_keeps:
  assumes inv: "server_inv s" and m: "moved s s'" and att: "sv_mode s = SvSession a k"
  shows "server_inv (end_session a s')"
proof -
  have w: "world_inv (sv_world s')" using m by (auto simp: moved_def intro: world_move_inv)
  let ?st = "n_store (sv_world s')"
  let ?st' = "if s_state (sess ?st a) = StateForeground then upd_sess a (\<lambda>x. SetState x StateBackground) ?st else ?st"
  have st: "n_store (sv_world (end_session a s')) = ?st'"
    by (simp add: end_session_def Let_def sv_upd_sess_def sv_sess_def)
  have "moved s' (sv_upd_sess a (\<lambda>x. SetState x StateBackground) s')" if "s_state (sv_sess s' a) = StateForeground"
    using that by (intro moved_upd [OF w]) simp_all
  then have "moved s' (end_session a s')"
    by (simp add: end_session_def Let_def moved_def world_move_refl w pump_sessions_def)
  then have m2: "moved s (end_session a s')" using m moved_trans by blast
  have "fronted (Some a) (n_store (sv_world s))" using inv att by (simp add: server_inv_def attached_def)
  then have "fronted (Some a) ?st" using m by (auto simp: moved_def intro: fronted_move)
  then have "fronted None ?st'" by (rule fronted_leave)
  then show ?thesis
    using st by (intro moved_inv [OF inv m2]) (simp_all add: attached_def end_session_def Let_def)
qed

lemma start_session_keeps:
  assumes inv: "server_inv s" and m: "sv_mode s = SvMenu" and a: "a < length (st_heap (n_store (sv_world s)))"
    and live: "s_state (sv_sess s a) \<noteq> StateDead"
  shows "server_inv (start_session a idx s)"
proof -
  let ?t = "start_session a idx s"
  have w: "sv_world ?t = (sv_world s)\<lparr>n_store := upd_sess a (\<lambda>x. SetState x StateForeground) (n_store (sv_world s))\<rparr>"
    by (simp add: start_session_def Let_def sv_upd_sess_def)
  have g: "good (sv_world s) (sv_world ?t)"
    unfolding w using enter_good [OF server_inv_world [OF inv]] live by (simp add: sv_sess_def)
  have t: "sv_mode ?t = SvSession a (length (sv_pumps s))" "sv_ctx ?t = sv_ctx s"
      "pump_sessions ?t = pump_sessions s @ [a]" "length (pump_sessions s) = length (sv_pumps s)"
    by (simp_all add: start_session_def Let_def sv_upd_sess_def sv_send_def pump_sessions_def)
  have "fronted (attached ?t) (n_store (sv_world ?t))"
    using inv m by (simp add: w t attached_def server_inv_def fronted_enter)
  moreover have "pumps_ok ?t"
    using inv a t by (auto simp: pumps_ok_def w server_inv_def nth_append)
  ultimately show ?thesis
    using g inv t(2) by (auto simp: server_inv_def good_def ctx_ok_def)
qed

lemma respond_moved:
  "world_inv (sv_world s) \<Longrightarrow> moved s (sv_send typ x s)" "world_inv (sv_world s) \<Longrightarrow> moved s (respond x s)"
  by (simp_all add: moved_def world_move_refl pump_sessions_def sv_send_def respond_def)

lemma set_exit_moved: "world_inv (sv_world s) \<Longrightarrow> moved s (set_exit k s)"
proof -
  assume w: "world_inv (sv_world s)"
  have "pump_sessions (set_exit k s) = pump_sessions s"
  proof (cases "k < length (sv_pumps s)")
    case True
    then show ?thesis by (simp add: pump_sessions_def set_exit_def map_update list_update_same_conv)
  qed (simp add: pump_sessions_def set_exit_def list_update_beyond)
  then show ?thesis using w by (intro moved_still) (simp_all add: set_exit_def)
qed

lemma set_exit_mode [simp]: "sv_mode (set_exit k s) = sv_mode s" "sv_sess (set_exit k s) a = sv_sess s a"
  "sv_world (set_exit k s) = sv_world s"
  by (simp_all add: set_exit_def sv_sess_def)

lemma session_line_keeps:
  assumes inv: "server_inv s" and m: "sv_mode s = SvSession a k"
    and live: "trim_space line \<in> {''+bg'', ''+background''} \<Longrightarrow> s_state (sv_sess s a) \<noteq> StateDead"
  shows "server_inv (session_line E a k line s)"
proof -
  have w: "world_inv (sv_world s)" using inv by (rule server_inv_world)
  have ex: "moved s (set_exit k s)" using w by (rule set_exit_moved)
  have send: "moved s (sv_send t x q)" if "moved s q" for t x q
    using moved_trans [OF that respond_moved(1)] that by (auto simp: moved_def intro: world_move_inv)
  have bg: "moved s (sv_upd_sess a (\<lambda>x. SetState x StateBackground) (set_exit k s))"
    if "s_state (sv_sess s a) \<noteq> StateDead"
    using that w by (intro moved_trans [OF ex moved_upd]) simp_all
  obtain s1 n err where res: "session_Write (sv_sess s a) (line @ nl) (e_write E) = (s1, n, err)" by (metis prod_cases3)
  have s1: "s_state s1 = s_state (sv_sess s a)" "s_ID s1 = s_ID (sv_sess s a)"
    using write_of_state [OF res] session_ops_ID(5) [of "sv_sess s a" "line @ nl" "e_write E"] res by simp_all
  have wr: "moved s (sv_upd_sess a (\<lambda>_. s1) s)" using s1 by (intro moved_upd [OF w]) auto
  then have w1: "world_inv (sv_world (sv_upd_sess a (\<lambda>_. s1) s))" by (auto simp: moved_def intro: world_move_inv)
  have dead: "moved s (sv_upd_sess a (\<lambda>x. SetState x StateDead) (sv_upd_sess a (\<lambda>_. s1) s))"
    by (rule moved_trans [OF wr moved_upd [OF w1]]) simp_all
  show ?thesis
    using live inv end_session_keeps [OF inv _ m] send [OF ex] send [OF bg] moved_same [OF inv]
      send [OF moved_still [OF w refl refl refl]] wr dead
    by (auto simp: session_line_def Let_def res split: option.split)
qed

lemma serveSession_keeps:
  assumes inv: "server_inv s" and m: "sv_mode s = SvMenu" and u: "serveSession E args s = Ret s'"
  shows "server_inv s'"
proof -
  have send: "server_inv (sv_send t x s)" for t x
    by (rule moved_same [OF inv respond_moved(1) [OF server_inv_world [OF inv]]]) simp
  have start: "server_inv (start_session a n s)"
    if "slice_at (ByPort ord port (n_store (sv_world s))) i = Ret a" for a n ord port i
  proof (rule start_session_keeps [OF inv m])
    have "store_wf (n_store (sv_world s))" using inv by (simp add: server_inv_def world_inv_wf)
    then show "a < length (st_heap (n_store (sv_world s)))" "s_state (sv_sess s a) \<noteq> StateDead"
      using ByPort_mem [OF slice_at_mem [OF that]] store_wfD by (auto simp: live_on_def sv_sess_def)
  qed
  show ?thesis
    using u
    by (auto simp: serveSession_def Let_def split: list.splits sum.splits if_splits go.splits)
       (assumption | rule send start)+
qed

lemma endClient_keeps:
  assumes inv: "server_inv s" and m: "sv_mode s = SvMenu"
  shows "server_inv (endClient s)"
proof -
  have "world_move (sv_world s) (cancel (sv_ctx s) (sv_world s))"
    using inv by (intro move_cancel) (simp_all add: server_inv_def)
  then have mv: "moved s (endClient s)" by (simp add: moved_def endClient_def pump_sessions_def)
  have "fronted None (n_store (sv_world s))" using inv m by (simp add: server_inv_def attached_def)
  then have "fronted None (n_store (sv_world (endClient s)))"
    using mv by (auto simp: moved_def intro: fronted_move)
  then show ?thesis by (intro moved_inv [OF inv mv]) (simp_all add: endClient_def attached_def)
qed

lemma menu_line_keeps:
  assumes inv: "server_inv s" and m: "sv_mode s = SvMenu" and env: "env_ok E (sv_world s)"
    and st: "menu_line E line s = Ret s'"
  shows "server_inv s'"
proof -
  have w: "world_inv (sv_world s)" using inv by (rule server_inv_world)
  have resp: "server_inv (respond x q)" if "server_inv q" for x q
    using moved_same [OF that respond_moved(2) [OF server_inv_world [OF that]]] by (simp add: respond_def)
  have bye: "server_inv (say_bye s)"
  proof -
    let ?q = "s\<lparr>sv_sent := sv_sent s @ [(FrameResponse, ''Bye.'')]\<rparr>"
    have "server_inv ?q"
      by (rule moved_same [OF inv moved_still [OF w]]) (simp_all add: pump_sessions_def)
    then show ?thesis using endClient_keeps [of ?q] m by (simp add: say_bye_def)
  qed
  have disp: "server_inv (s\<lparr>sv_world := v\<rparr>)" if "Dispatch E (sv_ctx s) c (sv_world s) = Ret (out, v)" for c out v
  proof -
    have "world_move (sv_world s) v"
      using inv env that by (intro move_Dispatch) (auto simp: server_inv_def env_ok_def)
    then show ?thesis
      by (intro moved_same [OF inv]) (simp_all add: moved_def pump_sessions_def)
  qed
  show ?thesis
    using st inv bye resp disp serveSession_keeps [OF inv m]
    by (auto simp: menu_line_def Let_def split: if_splits cmd_kind.splits go.splits prod.splits)
qed

lemma still_keeps:
  "server_inv s \<Longrightarrow> sv_world s' = sv_world s \<Longrightarrow> sv_ctx s' = sv_ctx s \<Longrightarrow> sv_pumps s' = sv_pumps s \<Longrightarrow>
   sv_mode s' = sv_mode s \<Longrightarrow> server_inv s'"
  by (rule moved_same [of s]) (auto simp: pump_sessions_def intro: moved_still server_inv_world)

lemma main_step_keeps:
  assumes inv: "server_inv s" and env: "env_ok E (sv_world s)" and nr: "\<not> sv_revives s"
    and st: "main_step E b s = Some (Ret s')"
  shows "server_inv s'"
proof -
  have w: "world_inv (sv_world s)" using inv by (rule server_inv_world)
  have tl: "server_inv (s\<lparr>sv_cmds := rest\<rparr>)" for rest by (rule still_keeps [OF inv]) simp_all
  show ?thesis
  proof (cases "sv_mode s")
    case SvMenu
    then consider "s' = endClient s"
      | line rest where "sv_cmds s = line # rest" "menu_line E line (s\<lparr>sv_cmds := rest\<rparr>) = Ret s'"
      using st by (cases "sv_cmds s") (auto simp: main_step_def split: if_splits)
    then show ?thesis
      using endClient_keeps [OF inv SvMenu] menu_line_keeps [OF tl] env SvMenu by cases auto
  next
    case (SvSession a k)
    then consider "s' = end_session a s" | "s' = end_session a (set_exit k s)"
      | line rest where "sv_cmds s = line # rest" "s' = session_line E a k line (s\<lparr>sv_cmds := rest\<rparr>)"
      using st by (cases "sv_cmds s") (auto simp: main_step_def split: if_splits)
    then show ?thesis
    proof cases
      case 1
      then show ?thesis using end_session_keeps [OF inv moved_still [OF w refl refl refl] SvSession] by simp
    next
      case 2
      then show ?thesis using end_session_keeps [OF inv set_exit_moved [OF w] SvSession] by simp
    next
      case 3
      have "s_state (sv_sess (s\<lparr>sv_cmds := rest\<rparr>) a) \<noteq> StateDead" if "trim_space line \<in> {''+bg'', ''+background''}"
        using that nr 3(1) SvSession by (auto simp: sv_revives_def sv_sess_def)
      then show ?thesis
        unfolding 3(2) by (intro session_line_keeps [OF tl]) (simp_all add: SvSession)
    qed
  next
    case SvDone
    then show ?thesis using st by (simp add: main_step_def split: if_splits)
  qed
qed

lemma pump_sessions_update: "px_session p = px_session (sv_pumps s ! k) \<Longrightarrow>
    pump_sessions (s\<lparr>sv_pumps := (sv_pumps s)[k := p]\<rparr>) = pump_sessions s"
  by (cases "k < length (sv_pumps s)")
     (simp_all add: pump_sessions_def map_update list_update_same_conv list_update_beyond)

lemma pump_step_keeps:
  assumes inv: "server_inv s" and st: "pump_step b k s = Some s'"
  shows "server_inv s'"
proof (cases "px_pending (sv_pumps s ! k)")
  case (Cons m ms)
  then obtain s1 where s1: "s1 = s \<or> push_out m s = Some s1"
    and s': "s' = s1\<lparr>sv_pumps := (sv_pumps s1)[k := (sv_pumps s ! k)\<lparr>px_pending := ms\<rparr>]\<rparr>"
    using st by (auto simp: pump_step_def Let_def split: if_splits)
  then have eq: "sv_world s1 = sv_world s" "sv_ctx s1 = sv_ctx s" "sv_mode s1 = sv_mode s" "sv_pumps s1 = sv_pumps s"
    by (auto simp: push_out_def split: if_splits)
  have "pump_sessions s' = pump_sessions s1" unfolding s' by (rule pump_sessions_update) (simp add: eq)
  then have "pump_sessions s' = pump_sessions s" by (simp add: pump_sessions_def eq)
  then have "moved s s'" using eq by (intro moved_still server_inv_world [OF inv]) (simp_all add: s')
  then show ?thesis by (rule moved_same [OF inv]) (simp add: s' eq)
next
  case Nil
  let ?p = "sv_pumps s ! k"
  obtain data x1 where d: "DrainRxBuf (sv_sess s (px_session ?p)) = (data, x1)" by force
  have x1: "s_state x1 = s_state (sv_sess s (px_session ?p))" "s_ID x1 = s_ID (sv_sess s (px_session ?p))"
    using d by (auto simp: DrainRxBuf_def split: if_splits)
  let ?s1 = "sv_upd_sess (px_session ?p) (\<lambda>_. x1) s"
  obtain p where s': "s' = ?s1\<lparr>sv_pumps := (sv_pumps ?s1)[k := p]\<rparr>" and p: "px_session p = px_session ?p"
    using Nil st unfolding pump_step_def Let_def d by (auto split: if_splits)
  have m1: "moved s ?s1" using x1 by (intro moved_upd server_inv_world [OF inv]) auto
  have "pump_sessions s' = pump_sessions ?s1" unfolding s' by (rule pump_sessions_update) (simp add: p)
  then have "moved s s'" using m1 by (simp add: moved_def s')
  then show ?thesis by (rule moved_same [OF inv]) (simp add: s')
qed

lemma event_forward_keeps:
  assumes inv: "server_inv s" and st: "event_forward b s = Some s'"
  shows "server_inv s'"
proof -
  consider "sv_world s' = sv_world s" | "take_event (sv_world s) = Some (sv_world s')"
    using st by (auto simp: event_forward_def Let_def push_out_def split: if_splits option.splits list.splits)
  then have "world_move (sv_world s) (sv_world s')"
    using move_event world_move_refl server_inv_world [OF inv] by cases simp_all
  moreover have "sv_mode s' = sv_mode s" "sv_pumps s' = sv_pumps s" "sv_ctx s' = sv_ctx s"
    using st by (auto simp: event_forward_def Let_def push_out_def split: if_splits option.splits list.splits)
  ultimately show ?thesis by (intro moved_same [OF inv]) (simp_all add: moved_def pump_sessions_def)
qed

lemma server_step_keeps:
  assumes inv: "server_inv s" and st: "server_step s s'"
  shows "server_inv s'"
proof -
  have w: "world_inv (sv_world s)" using inv by (rule server_inv_world)
  have gor: "server_inv (s\<lparr>sv_world := v\<rparr>)" if "world_move (sv_world s) v" for v
    using that by (intro moved_same [OF inv]) (simp_all add: moved_def pump_sessions_def)
  from st show ?thesis
  proof cases
    case connects
    obtain c v where cv: "with_cancel [] (sv_world s) = (c, v)" by force
    have "world_inv v \<and> ctx_ok c v \<and> n_store v = n_store (sv_world s)"
      by (rule with_cancel_inv [OF w _ cv]) (simp add: ctx_ok_def)
    then show ?thesis
      using connects inv cv
      by (simp add: server_inv_def serveClient_def attached_def pumps_ok_def pump_sessions_def)
  next
    case (reads b frame)
    then show ?thesis
      by (intro still_keeps [OF inv]) (auto simp: reader_step_def split: if_splits option.splits)
  next
    case (writes b fails)
    then show ?thesis
      by (intro still_keeps [OF inv]) (auto simp: writer_step_def split: if_splits list.splits)
  next
    case flushes
    then show ?thesis
      by (intro still_keeps [OF inv]) (auto simp: flush_step_def push_out_def split: if_splits list.splits)
  next
    case (forwards b)
    then show ?thesis using event_forward_keeps [OF inv] by blast
  next
    case (pumps k b)
    then show ?thesis using pump_step_keeps [OF inv] by blast
  next
    case (runs E b)
    then show ?thesis using main_step_keeps [OF inv] by blast
  next
    case (accepts inp now i v)
    then show ?thesis using gor move_goroutines(1) [OF w] by simp
  next
    case (watches b j v)
    then show ?thesis using gor move_goroutines(2) [OF w] by simp
  next
    case (receives data err now a v)
    then show ?thesis using gor move_goroutines(3) [OF w] by simp
  qed
qed

lemma server_start_inv: "server_start s \<Longrightarrow> server_inv s"
proof -
  assume "server_start s"
  then obtain cfg where "sv_world s = world_init cfg" and s: "sv_mode s = SvDone" "sv_pumps s = []" "sv_ctx s = []"
    by (auto simp: server_start_def server_New_def Let_def split: if_splits sum.splits option.splits)
  then have "world_inv (sv_world s) \<and> n_store (sv_world s) = NewManager"
    using world_init_inv [of cfg] by simp
  with s show ?thesis
    by (simp add: server_inv_def ctx_ok_def fronted_def attached_def pumps_ok_def pump_sessions_def)
       (simp add: NewManager_def)
qed

interpretation sys: inductive_invariant server_start server_step server_inv
  by unfold_locales (auto intro: server_start_inv server_step_keeps)


section \<open>A concrete run\<close>

text \<open>A client connects, opens port 80, a connection arrives, and the client attaches to it.\<close>

definition server0 :: server where
  "server0 = \<lparr>sv_world = world_init defaultConfig, sv_cfg = defaultConfig, sv_bind = '':9000'', sv_key = [],
     sv_token = replicate 32 CHR ''k'', sv_ctx = [], sv_mode = SvDone, sv_cmds = [], sv_cmds_closed = False,
     sv_pending = [], sv_outCh = [], sv_sent = [], sv_pumps = [], sv_writing = False, sv_forwarding = False,
     sv_evPending = None\<rparr>"

definition at_menu :: "world \<Rightarrow> out_msg list \<Rightarrow> server" where
  "at_menu w sent = server0\<lparr>sv_world := w, sv_ctx := [0], sv_mode := SvMenu, sv_sent := sent, sv_writing := True,
     sv_forwarding := True\<rparr>"

lemma server0_start: "server_start server0"
proof -
  have "ValidateToken (replicate 32 CHR ''k'') = None" by (simp add: ValidateToken_None token_char_def)
  then have "server_New (\<lambda>_. []) (\<lambda>_. Inr 0) defaultConfig '':9000'' (replicate 32 CHR ''k'') = Inr server0"
    by (simp add: server_New_def Let_def server0_def TokenToKey_def)
  then show ?thesis unfolding server_start_def by blast
qed

lemma serve_connects: "server_step server0 (at_menu world0 [])"
proof -
  have "serveClient server0 = at_menu world0 []"
    by (simp add: serveClient_def server0_def at_menu_def with_cancel_def world0_def world_init_def net.extend_def
        net_init_def)
  then show ?thesis using connects [of server0] by (simp add: server0_def)
qed

lemma serve_reads:
  "line = trim_right line [CHR 0x0D, CHR 0x0A] \<Longrightarrow>
   server_step (at_menu w sent) ((at_menu w sent)\<lparr>sv_cmds := [line]\<rparr>)"
  by (rule reads [of False "Some line"]) (simp add: reader_step_def at_menu_def server0_def cmd_cap_def)

lemma serve_opens: "\<exists>s. server_step\<^sup>*\<^sup>* (at_menu world0 []) s \<and> (\<exists>sent. s = at_menu world1 sent)"
proof -
  obtain out where d: "Dispatch plain_env [0] (Parse ''open 80'' False) world0 = Ret (out, world1)"
    using open_80 by blast
  let ?a = "(at_menu world0 [])\<lparr>sv_cmds := [''open 80'']\<rparr>"
  have a: "server_step (at_menu world0 []) ?a" by (rule serve_reads) code_simp
  have "main_step plain_env False ?a = Some (Ret (respond out (at_menu world1 [])))"
    using d by (simp add: main_step_def menu_line_def parse_open_use at_menu_def server0_def)
  then have b: "server_step ?a (respond out (at_menu world1 []))"
    by (intro runs [of plain_env]) (simp_all add: world0_env at_menu_def sv_revives_def)
  have c: "server_step\<^sup>*\<^sup>* (respond out (at_menu world1 [])) (at_menu world1 (if out = [] then [] else [(FrameResponse, out)]))"
  proof (cases "out = []")
    case False
    let ?r = "respond out (at_menu world1 [])"
    let ?f = "(at_menu world1 [])\<lparr>sv_outCh := [(FrameResponse, out)]\<rparr>"
    have "server_step ?r ?f"
      by (rule flushes)
         (simp add: False flush_step_def push_out_def respond_def sv_send_def at_menu_def server0_def out_cap_def)
    moreover have "server_step ?f (at_menu world1 [(FrameResponse, out)])"
      by (rule writes [of False False]) (simp add: writer_step_def at_menu_def server0_def)
    ultimately show ?thesis using False by (simp add: converse_rtranclp_into_rtranclp)
  qed (simp add: respond_def)
  have "server_step\<^sup>*\<^sup>* (at_menu world0 []) (at_menu world1 (if out = [] then [] else [(FrameResponse, out)]))"
    using a b c by (meson converse_rtranclp_into_rtranclp)
  then show ?thesis by blast
qed

lemma serve_accepts: "server_step\<^sup>*\<^sup>* (at_menu world1 sent) (at_menu world2 sent)"
proof -
  obtain w where w: "acceptLoop (ConnArrives (fresh_conn ''peer'')) 0 0 world1 = Some w"
      "acceptLoop (ConnArrives (fresh_conn ''peer'')) 0 0 w = Some world2"
    using accept_80 by blast
  have eq: "(at_menu v sent)\<lparr>sv_world := u\<rparr> = at_menu u sent" for v u by (simp add: at_menu_def)
  have "server_step (at_menu world1 sent) (at_menu w sent)"
    using server_step.accepts [of _ _ _ "at_menu world1 sent" w] w(1) by (simp add: eq) (simp add: at_menu_def)
  moreover have "server_step (at_menu w sent) (at_menu world2 sent)"
    using server_step.accepts [of _ _ _ "at_menu w sent" world2] w(2) by (simp add: eq) (simp add: at_menu_def)
  ultimately show ?thesis by (meson converse_rtranclp_into_rtranclp rtranclp.rtrancl_refl)
qed

lemma serve_attaches:
  "\<exists>s. server_step\<^sup>*\<^sup>* (at_menu world2 sent) s \<and> sv_mode s = SvSession 0 0 \<and> s_state (sv_sess s 0) = StateForeground"
proof -
  let ?a = "(at_menu world2 sent)\<lparr>sv_cmds := [''use 80'']\<rparr>"
  let ?s = "start_session 0 1 (at_menu world2 sent)"
  have a: "server_step (at_menu world2 sent) ?a" by (rule serve_reads) code_simp
  have "main_step env_80 False ?a = Some (Ret ?s)"
    by (simp add: main_step_def menu_line_def serveSession_def parse_open_use at_menu_def server0_def use_80 slice_at_def)
  then have "server_step ?a ?s"
    by (intro runs [of env_80]) (simp_all add: world2_env at_menu_def sv_revives_def)
  with a have "server_step\<^sup>*\<^sup>* (at_menu world2 sent) ?s" by (meson converse_rtranclp_into_rtranclp rtranclp.rtrancl_refl)
  moreover have "sv_mode ?s = SvSession 0 0"
    by (simp add: start_session_def Let_def sv_upd_sess_def sv_send_def at_menu_def server0_def)
  moreover have "s_state (sv_sess ?s 0) = StateForeground"
    by (simp add: start_session_def Let_def sv_upd_sess_def sv_sess_def sess_upd at_menu_def world2_def mgr_Accept_def
        NewManager_def)
  ultimately show ?thesis by blast
qed


end
