(* ===== verification/Forward_Props.thy ===== *)
theory Forward_Props
  imports Forward_Pipe
begin

text \<open>
  Properties of forwards and proxies (\<open>internal/forward/\<close>): the table of forwards, the bytes
  of a forwarded connection, and the traffic log.
\<close>

section \<open>The table\<close>

definition sample_cs :: ctxs where "sample_cs = \<lparr>cx_next = 1, cx_cancelled = []\<rparr>"

lemma fm_close_wf_step: "fm_wf (snd s) \<Longrightarrow> fm_Close u p s = Inr t \<Longrightarrow> fm_wf (snd t)"
  by (cases s; cases t) (auto dest: fm_Close_wf)


lemma sample_open:
  "fm_Open (plain_env, [0], ''10.0.0.1'', 22) 8022 (sample_cs, fm_NewManager 10) = Inr
     (sample_cs\<lparr>cx_next := 2\<rparr>, (fm_NewManager 10)\<lparr>fm_entries := [8022 \<mapsto>
        \<lparr>en_Rule = \<lparr>r_LocalPort = 8022, r_RemoteHost = ''10.0.0.1'', r_RemotePort = 22, r_IsProxy = False,
                   r_LogFile = []\<rparr>,
         en_fwd = Some \<lparr>f_Rule = \<lparr>r_LocalPort = 8022, r_RemoteHost = ''10.0.0.1'', r_RemotePort = 22,
                          r_IsProxy = False, r_LogFile = []\<rparr>,
                        f_ctx = [1, 0], f_closed = False, f_dialTimeout = 10000000000, f_pipes = 0,
                        f_totalTX = 0, f_totalRX = 0\<rparr>,
         en_proxy = None\<rparr>]\<rparr>)"
  by (simp add: fm_Open_Inr plain_env_def sample_cs_def fm_NewManager_def Let_def)


text \<open>
  \<open>CloseAll\<close> empties the table, whatever order the map is ranged over.
\<close>

theorem forward_CloseAll_empties:
  assumes "enumerates ord (fm_entries m)"
  shows "fm_entries (snd (fm_CloseAll ord (cs, m))) = Map.empty"
proof -
  have "\<not> fm_present (fm_CloseAll ord (cs, m)) p" for p
    unfolding fm_CloseAll_close_list
    by (rule ft.close_list_empty) (use assms in \<open>auto simp: enumerates_def fm_present_def\<close>)
  then show ?thesis by (auto simp: fm_present_def)
qed

theorem forward_CloseAll_empties_witness:
  "\<exists>cs1 m1. fm_Open (plain_env, [0], ''h'', 22) 8022 (sample_cs, fm_NewManager 10) = Inr (cs1, m1)
     \<and> fm_entries (snd (fm_CloseAll [8022] (cs1, m1))) = Map.empty"
proof -
  obtain cs1 m1 where op: "fm_Open (plain_env, [0], ''h'', 22) 8022 (sample_cs, fm_NewManager 10) = Inr (cs1, m1)"
    by (simp add: fm_Open_Inr plain_env_def fm_NewManager_def)
  then have "enumerates [8022] (fm_entries m1)"
    by (auto simp: fm_Open_Inr enumerates_def fm_NewManager_def)
  from forward_CloseAll_empties [OF this] op show ?thesis by blast
qed

section \<open>The bytes of a connection\<close>


text \<open>A connection over which a request goes out, and whose client then closes its sending side.\<close>

definition pipe0 :: pipe where
  "pipe0 = \<lparr>pi_tee = True, pi_ctx = [], pi_lr = dir_new, pi_rl = dir_new, pi_done = False\<rparr>"

definition asked :: dir where
  "asked = dir_new\<lparr>d_sent := ''GET'', d_pos := 3, d_dst := ''GET'', d_log := [''GET'']\<rparr>"

lemma pipe0_reach: "reach pipe_start (pipe_step cs) pipe0"
  by (rule reach_start) (simp add: pipe_start_def pipe0_def)

lemma asked_reach: "reach pipe_start (pipe_step cs) (pipe0\<lparr>pi_lr := asked\<rparr>)"
proof -
  let ?d = "dir_new\<lparr>d_sent := ''GET''\<rparr>"
  have "dir_step True False dir_new ?d False"
    using peer_sends [of dir_new True False "''GET''"] by (simp add: dir_new_def)
  then have "pipe_step cs pipe0 (pipe0\<lparr>pi_lr := ?d\<rparr>)"
    using lr_step [of pipe0 ?d False cs] by (simp add: pipe0_def)
  moreover have "dir_step True False ?d asked False"
    using copies [of ?d False 3 True] by (simp add: dir_new_def asked_def copy_turn_def Let_def eval_nat_numeral)
  then have "pipe_step cs (pipe0\<lparr>pi_lr := ?d\<rparr>) (pipe0\<lparr>pi_lr := asked\<rparr>)"
    using lr_step [of "pipe0\<lparr>pi_lr := ?d\<rparr>" asked False cs] by (simp add: pipe0_def)
  ultimately show ?thesis using pipe0_reach by (meson reach_step)
qed


lemma pipe_steps_frozen:
  assumes "(pipe_step cs)\<^sup>*\<^sup>* p q" and "pi_done p" and "\<not> d_run (pi_rl p)"
  shows "pi_done q \<and> \<not> d_run (pi_rl q) \<and> d_dst (pi_rl q) = d_dst (pi_rl p)"
  using assms
proof (induction rule: rtranclp_induct)
  case (step q r)
  from step.hyps(2) step show ?case
    by (cases rule: pipe_step.cases)
       (auto dest: dir_step_done dir_step_frozen)
qed simp

text \<open>
  C40. Once one direction has ended, both are cut. There is a run in which the client sends a
  request and closes its sending side, the answer arrives, and no continuation of the run
  ever delivers a byte of it.
\<close>

theorem half_close_truncates:
  "\<exists>p. reach pipe_start (pipe_step cs) p
     \<and> d_sent (pi_lr p) = ''GET'' \<and> d_eof (pi_lr p) \<and> d_dst (pi_lr p) = ''GET''
     \<and> d_sent (pi_rl p) = ''page'' \<and> \<not> d_eof (pi_rl p)
     \<and> (\<forall>q. (pipe_step cs)\<^sup>*\<^sup>* p q \<longrightarrow> d_dst (pi_rl q) = [])"
proof -
  let ?eof = "asked\<lparr>d_eof := True\<rparr>"
  let ?fin = "copy_end ?eof"
  let ?p1 = "pipe0\<lparr>pi_lr := asked\<rparr>"
  let ?p2 = "pipe0\<lparr>pi_lr := ?eof\<rparr>"
  let ?p3 = "pipe0\<lparr>pi_lr := ?fin, pi_done := True\<rparr>"
  let ?p4 = "?p3\<lparr>pi_rl := dir_new\<lparr>d_sent := ''page''\<rparr>\<rparr>"
  let ?p5 = "?p3\<lparr>pi_rl := copy_end (dir_new\<lparr>d_sent := ''page''\<rparr>)\<rparr>"
  have "pipe_step cs ?p1 ?p2"
    using lr_step [of ?p1 ?eof False cs] peer_closes [of True False asked] by (simp add: pipe0_def)
  moreover have "dir_step True False ?eof ?fin True"
    by (rule read_ends) (simp_all add: asked_def dir_new_def)
  then have "pipe_step cs ?p2 ?p3" using lr_step [of ?p2 ?fin True cs] by (simp add: pipe0_def)
  moreover have "dir_step True True dir_new (dir_new\<lparr>d_sent := ''page''\<rparr>) True"
    using peer_sends [of dir_new True True "''page''"] by (simp add: dir_new_def)
  then have "pipe_step cs ?p3 ?p4" using rl_step [of ?p3 _ True cs] by (simp add: pipe0_def)
  moreover have "dir_step True True (dir_new\<lparr>d_sent := ''page''\<rparr>) (copy_end (dir_new\<lparr>d_sent := ''page''\<rparr>)) True"
    by (rule read_ends) (simp_all add: dir_new_def)
  then have "pipe_step cs ?p4 ?p5" using rl_step [of ?p4 _ True cs] by (simp add: pipe0_def)
  ultimately have "reach pipe_start (pipe_step cs) ?p5"
    using asked_reach [of cs] by (meson reach_step)
  moreover have "d_dst (pi_rl q) = []" if "(pipe_step cs)\<^sup>*\<^sup>* ?p5 q" for q
    using pipe_steps_frozen [OF that] by (simp add: copy_end_def dir_new_def)
  moreover have "d_sent (pi_lr ?p5) = ''GET'' \<and> d_eof (pi_lr ?p5) \<and> d_dst (pi_lr ?p5) = ''GET''
     \<and> d_sent (pi_rl ?p5) = ''page'' \<and> \<not> d_eof (pi_rl ?p5)"
    by (simp add: copy_end_def asked_def dir_new_def)
  ultimately show ?thesis by blast
qed

theorem half_close_truncates_witness:
  "\<exists>p. reach pipe_start (pipe_step sample_cs) p \<and> d_sent (pi_rl p) = ''page'' \<and> d_dst (pi_rl p) = []"
  using half_close_truncates [of sample_cs] by blast

section \<open>The log\<close>

text \<open>Reading back one quoted character.\<close>

definition unhex :: "char \<Rightarrow> nat" where
  "unhex h = (if of_char h < (58::nat) then of_char h - 48 else of_char h - 87)"

definition unescape :: "char \<Rightarrow> char" where
  "unescape d = (if d = CHR ''a'' then CHR 0x07 else if d = CHR ''b'' then CHR 0x08
     else if d = CHR ''f'' then CHR 0x0C else if d = CHR ''n'' then CHR 0x0A
     else if d = CHR ''r'' then CHR 0x0D else if d = CHR ''t'' then CHR 0x09
     else if d = CHR ''v'' then CHR 0x0B else d)"

fun unquote1 :: "string \<Rightarrow> (char \<times> string) option" where
  "unquote1 (c # d # h # l # r) =
     (if c \<noteq> CHR 0x5C then Some (c, d # h # l # r)
      else if d = CHR ''x'' then Some (char_of (16 * unhex h + unhex l), r)
      else Some (unescape d, h # l # r))"
| "unquote1 (c # r) = (if c \<noteq> CHR 0x5C then Some (c, r) else
     case r of [] \<Rightarrow> None | d # r \<Rightarrow> Some (unescape d, r))"
| "unquote1 [] = None"

lemma unquote1_plain: "c \<noteq> CHR 0x5C \<Longrightarrow> unquote1 (c # r) = Some (c, r)"
  by (cases "c # r" rule: unquote1.cases) simp_all

lemma unquote1_escape: "d \<noteq> CHR ''x'' \<Longrightarrow> unquote1 (CHR 0x5C # d # r) = Some (unescape d, r)"
  by (cases "CHR 0x5C # d # r" rule: unquote1.cases) auto

lemma unhex_digit: "d < 16 \<Longrightarrow> unhex (hex_digit d) = d"
  by (simp add: unhex_def hex_digit_def of_char_of)

lemma unquote1_quote_char: "unquote1 (quote_char c @ r) = Some (c, r)"
proof -
  define n where "n = (of_char c :: nat)"
  have c: "c = char_of n" and n: "n < 256" by (simp_all add: n_def)
  have hex: "char_of (16 * unhex (hex_digit (n div 16)) + unhex (hex_digit (n mod 16))) = c"
  proof -
    have "n div 16 < 16" by (rule less_mult_imp_div_less) (use n in simp)
    then show ?thesis by (simp add: unhex_digit c)
  qed
  have plain: "c \<noteq> CHR 0x5C" if "n \<noteq> 92"
    using that by (auto simp: n_def)
  consider "n \<in> {34, 92, 7, 8, 12, 10, 13, 9, 11}"
    | "n \<notin> {34, 92, 7, 8, 12, 10, 13, 9, 11}" "n < 32 \<or> 127 \<le> n"
    | "n \<notin> {34, 92, 7, 8, 12, 10, 13, 9, 11}" "\<not> (n < 32 \<or> 127 \<le> n)" by blast
  then show ?thesis
  proof cases
    case 1
    then show ?thesis
      unfolding quote_char_def Let_def n_def [symmetric]
      by (elim insertE) (simp_all add: unquote1_escape unescape_def c char_of_def bit_0)
  next
    case 2
    then show ?thesis
      unfolding quote_char_def Let_def n_def [symmetric] by (simp add: hex)
  next
    case 3
    then show ?thesis
      unfolding quote_char_def Let_def n_def [symmetric] by (simp add: unquote1_plain plain)
  qed
qed

lemma quote_char_head: "quote_char c \<noteq> [] \<and> hd (quote_char c) \<noteq> CHR 0x22"
proof -
  have "c \<noteq> CHR 0x22" if "(of_char c :: nat) \<noteq> 34" using that by auto
  then show ?thesis by (auto simp: quote_char_def Let_def)
qed

lemma quoted_inject:
  "concat (map quote_char s) @ [CHR 0x22] = concat (map quote_char t) @ [CHR 0x22] \<Longrightarrow> s = t"
proof (induction s arbitrary: t)
  case Nil
  then show ?case
    using quote_char_head by (cases t) (auto simp: Cons_eq_append_conv append_eq_Cons_conv)
next
  case (Cons c s)
  show ?case
  proof (cases t)
    case Nil
    with Cons.prems show ?thesis
      using quote_char_head [of c] by (auto simp: append_eq_Cons_conv)
  next
    case (Cons d u)
    have "quote_char c @ (concat (map quote_char s) @ [CHR 0x22])
        = quote_char d @ (concat (map quote_char u) @ [CHR 0x22])"
      using Cons.prems unfolding Cons by (simp only: list.map concat.simps append_assoc)
    then have "unquote1 (quote_char c @ (concat (map quote_char s) @ [CHR 0x22]))
        = unquote1 (quote_char d @ (concat (map quote_char u) @ [CHR 0x22]))" by (rule arg_cong)
    then have "c = d" "concat (map quote_char s) @ [CHR 0x22] = concat (map quote_char u) @ [CHR 0x22]"
      unfolding unquote1_quote_char by simp_all
    then show ?thesis using Cons.IH Cons by blast
  qed
qed

text \<open>
  The traffic log is faithful. Every chunk is one line, its quoted form holds no line
  break whatever the traffic contains, and the line determines the bytes of the chunk; the
  writer reports the length of the chunk, not of the line, so \<open>io.TeeReader\<close> sees no short
  write.
\<close>

theorem log_faithful:
  "(logWriter_Write tag p = logWriter_Write tag p' \<longleftrightarrow> p = p')
   \<and> (\<exists>body. fst (logWriter_Write tag p) = tag @ body @ nl \<and> CHR 0x0A \<notin> set body)
   \<and> snd (logWriter_Write tag p) = length p"
proof -
  have "p = p'" if "logWriter_Write tag p = logWriter_Write tag p'"
  proof -
    from that have "tag @ '' '' @ go_quote p @ nl = tag @ '' '' @ go_quote p' @ nl"
      unfolding logWriter_Write_def by (rule Pair_inject)
    then have "go_quote p = go_quote p'" by (simp only: same_append_eq append_same_eq)
    then have "concat (map quote_char p) @ [CHR 0x22] = concat (map quote_char p') @ [CHR 0x22]"
      unfolding go_quote_def by (simp only: list.inject)
    then show ?thesis by (rule quoted_inject)
  qed
  moreover have "fst (logWriter_Write tag p) = tag @ ('' '' @ go_quote p) @ nl"
    by (simp only: logWriter_Write_def fst_conv append_assoc)
  moreover have "CHR 0x0A \<notin> set ('' '' @ go_quote p)" using go_quote_no_nl [of p] by simp
  moreover have "snd (logWriter_Write tag p) = length p" by (simp only: logWriter_Write_def snd_conv)
  ultimately show ?thesis by blast
qed

end
