(* ===== verification/Forward_System.thy ===== *)
theory Forward_System
  imports Forward_Pipe
begin

text \<open>
  A running forwarder with all its connections: \<open>acceptLoop\<close>, \<open>handle\<close>, \<open>Close\<close> and the counters of
  \<open>internal/forward/forwarder.go\<close>, composed from the connections of \<open>Forward_Pipe\<close>. The state
  holds the contexts, the forwarder, whether its accept loop still runs, how many accepted
  connections are being dialled, the connections, and what \<open>handle\<close> has printed.
\<close>

record fsys =
  fs_cs :: ctxs
  fs_fwd :: forwarder
  fs_accepting :: bool
  fs_dialling :: nat
  fs_conns :: "pipe list"
  fs_out :: string

definition fs_start :: "fsys \<Rightarrow> bool" where
  "fs_start x \<longleftrightarrow> f_totalTX (fs_fwd x) = 0 \<and> f_totalRX (fs_fwd x) = 0 \<and> f_pipes (fs_fwd x) = 0
     \<and> \<not> f_closed (fs_fwd x) \<and> fs_accepting x \<and> fs_dialling x = 0 \<and> fs_conns x = []
     \<and> f_ctx (fs_fwd x) \<noteq> []"

text \<open>
  \<open>Accept\<close> returned: a connection, whose \<open>handle\<close> starts with the dial, or an error, on which
  the loop returns in both cases of its \<open>select\<close>.
\<close>

definition fwd_accept :: "bool \<Rightarrow> fsys \<Rightarrow> fsys option" where
  "fwd_accept fails x =
     (if \<not> fs_accepting x then None
      else if fails then Some (x\<lparr>fs_accepting := False\<rparr>)
      else if f_closed (fs_fwd x) then None
      else Some (x\<lparr>fs_dialling := Suc (fs_dialling x)\<rparr>))"

definition dial_failed_text :: "int \<Rightarrow> string \<Rightarrow> string" where
  "dial_failed_text port err = ''[fwd :'' @ itoa port @ ''] dial failed: '' @ err @ nl"

text \<open>The dial returned (\<open>dial\<close>: the network's error): a message, or a connection with its metrics.\<close>

definition fwd_handle :: "string option \<Rightarrow> fsys \<Rightarrow> fsys option" where
  "fwd_handle dial x =
     (if fs_dialling x = 0 then None
      else
        (let x1 = x\<lparr>fs_dialling := fs_dialling x - 1\<rparr> in
         case handle False (f_ctx (fs_fwd x)) (fs_cs x) dial of
           Inl err \<Rightarrow>
             Some (x1\<lparr>fs_out := fs_out x1 @ dial_failed_text (r_LocalPort (f_Rule (fs_fwd x))) err\<rparr>)
         | Inr p \<Rightarrow>
             Some (x1\<lparr>fs_fwd := (fs_fwd x1)\<lparr>f_pipes := Suc (f_pipes (fs_fwd x1))\<rparr>,
                      fs_conns := fs_conns x1 @ [p]\<rparr>)))"

text \<open>A connection moved from \<open>p\<close> to \<open>q\<close>: a direction that ended adds its count to the totals.\<close>

definition add_totals :: "pipe \<Rightarrow> pipe \<Rightarrow> forwarder \<Rightarrow> forwarder" where
  "add_totals p q f =
     (let f1 = (if d_run (pi_lr p) \<and> \<not> d_run (pi_lr q)
                then f\<lparr>f_totalTX := f_totalTX f + of_nat (length (d_dst (pi_lr q)))\<rparr> else f)
      in if d_run (pi_rl p) \<and> \<not> d_run (pi_rl q)
         then f1\<lparr>f_totalRX := f_totalRX f1 + of_nat (length (d_dst (pi_rl q)))\<rparr> else f1)"

inductive fs_step :: "fsys \<Rightarrow> fsys \<Rightarrow> bool" where
  accepts: "fwd_accept fails x = Some y \<Longrightarrow> fs_step x y"
| handles: "fwd_handle dial x = Some y \<Longrightarrow> fs_step x y"
| moves: "i < length (fs_conns x) \<Longrightarrow> pipe_step (fs_cs x) (fs_conns x ! i) q \<Longrightarrow>
    fs_step x (x\<lparr>fs_conns := (fs_conns x)[i := q],
                 fs_fwd := add_totals (fs_conns x ! i) q (fs_fwd x)\<rparr>)"
| closes: "forwarder_Close (fs_fwd x) (fs_cs x) = (f, cs) \<Longrightarrow> fs_step x (x\<lparr>fs_fwd := f, fs_cs := cs\<rparr>)"
| cancels: "fs_step x (x\<lparr>fs_cs := cancel c (fs_cs x)\<rparr>)"

section \<open>The counters\<close>

definition ended :: "dir \<Rightarrow> nat" where
  "ended d = (if d_run d then 0 else length (d_dst d))"

definition fs_inv :: "fsys \<Rightarrow> bool" where
  "fs_inv x \<longleftrightarrow>
     f_totalTX (fs_fwd x) = of_nat (sum_list (map (\<lambda>p. ended (pi_lr p)) (fs_conns x)))
     \<and> f_totalRX (fs_fwd x) = of_nat (sum_list (map (\<lambda>p. ended (pi_rl p)) (fs_conns x)))
     \<and> f_pipes (fs_fwd x) = length (fs_conns x)
     \<and> (\<forall>p\<in>set (fs_conns x). pipe_ok p \<and> pi_ctx p = f_ctx (fs_fwd x) \<and> \<not> pi_tee p)
     \<and> f_ctx (fs_fwd x) \<noteq> [] \<and> (f_closed (fs_fwd x) \<longrightarrow> ctx_done (fs_cs x) (f_ctx (fs_fwd x)))"

lemma handle_Inr:
  "handle tee c cs dial = Inr p \<longleftrightarrow> \<not> ctx_done cs c \<and> dial = None
     \<and> p = \<lparr>pi_tee = tee, pi_ctx = c, pi_lr = dir_new, pi_rl = dir_new, pi_done = False\<rparr>"
  by (auto simp: handle_def split: option.splits)

lemma ended_new [simp]: "ended dir_new = 0"
  by (simp add: ended_def dir_new_def)

lemma fs_start_inv: "fs_start x \<Longrightarrow> fs_inv x"
  by (simp add: fs_start_def fs_inv_def)

lemma sum_list_moved:
  "i < length ps \<Longrightarrow> f q = f (ps ! i) + (k::nat) \<Longrightarrow>
   sum_list (map f (ps[i := q])) = sum_list (map f ps) + k"
  by (induction ps arbitrary: i) (auto split: nat.split simp: less_Suc_eq_0_disj)

lemma dir_step_ended:
  assumes "dir_step tee b d d' b'"
  shows "ended d' = ended d + (if d_run d \<and> \<not> d_run d' then length (d_dst d') else 0)"
  using assms
  by (induction rule: dir_step.induct) (auto simp: ended_def copy_end_def copy_turn_def Let_def)

lemma pipe_step_ended:
  assumes "pipe_step cs p q"
  shows "ended (pi_lr q) = ended (pi_lr p) + (if d_run (pi_lr p) \<and> \<not> d_run (pi_lr q) then length (d_dst (pi_lr q)) else 0)"
    and "ended (pi_rl q) = ended (pi_rl p) + (if d_run (pi_rl p) \<and> \<not> d_run (pi_rl q) then length (d_dst (pi_rl q)) else 0)"
    and "pi_ctx q = pi_ctx p" "pi_tee q = pi_tee p"
  using assms by (induction rule: pipe_step.induct) (auto dest: dir_step_ended)

lemma add_totals_frame [simp]:
  "f_pipes (add_totals p q f) = f_pipes f" "f_ctx (add_totals p q f) = f_ctx f"
  "f_closed (add_totals p q f) = f_closed f" "f_Rule (add_totals p q f) = f_Rule f"
  by (simp_all add: add_totals_def Let_def)

lemma add_totals_count:
  "f_totalTX (add_totals p q f) = f_totalTX f
     + of_nat (if d_run (pi_lr p) \<and> \<not> d_run (pi_lr q) then length (d_dst (pi_lr q)) else 0)"
  "f_totalRX (add_totals p q f) = f_totalRX f
     + of_nat (if d_run (pi_rl p) \<and> \<not> d_run (pi_rl q) then length (d_dst (pi_rl q)) else 0)"
  by (simp_all add: add_totals_def Let_def)

lemma moves_inv:
  assumes inv: "fs_inv x" and i: "i < length (fs_conns x)" and st: "pipe_step (fs_cs x) (fs_conns x ! i) q"
  shows "fs_inv (x\<lparr>fs_conns := (fs_conns x)[i := q], fs_fwd := add_totals (fs_conns x ! i) q (fs_fwd x)\<rparr>)"
proof -
  let ?p = "fs_conns x ! i"
  have p: "pipe_ok ?p" "pi_ctx ?p = f_ctx (fs_fwd x)" "\<not> pi_tee ?p"
    using inv nth_mem [OF i] by (auto simp: fs_inv_def)
  then have "pipe_ok q" "pi_ctx q = f_ctx (fs_fwd x)" "\<not> pi_tee q"
    using pipe_step_ok [OF st] pipe_step_ended(3,4) [OF st] by auto
  then have "\<forall>r\<in>set ((fs_conns x)[i := q]). pipe_ok r \<and> pi_ctx r = f_ctx (fs_fwd x) \<and> \<not> pi_tee r"
    using inv set_update_subset_insert [of "fs_conns x" i q] by (auto simp: fs_inv_def)
  then show ?thesis
    using inv
      sum_list_moved [OF i, where f = "\<lambda>p. ended (pi_lr p)", OF pipe_step_ended(1) [OF st]]
      sum_list_moved [OF i, where f = "\<lambda>p. ended (pi_rl p)", OF pipe_step_ended(2) [OF st]]
    by (simp add: fs_inv_def add_totals_count)
qed

lemma fwd_handle_inv: "fs_inv x \<Longrightarrow> fwd_handle dial x = Some y \<Longrightarrow> fs_inv y"
proof -
  have "pipe_ok \<lparr>pi_tee = False, pi_ctx = c, pi_lr = dir_new, pi_rl = dir_new, pi_done = False\<rparr>" for c
    by (rule pipe_ok_start) (simp add: pipe_start_def)
  then show "fs_inv x \<Longrightarrow> fwd_handle dial x = Some y \<Longrightarrow> fs_inv y"
    by (auto simp: fwd_handle_def Let_def fs_inv_def handle_Inr split: if_splits sum.splits)
qed

lemma fs_step_inv: "fs_inv x \<Longrightarrow> fs_step x y \<Longrightarrow> fs_inv y"
proof -
  assume inv: "fs_inv x" and "fs_step x y"
  from this(2) show "fs_inv y"
  proof cases
    case (accepts fails)
    then show ?thesis using inv by (auto simp: fwd_accept_def fs_inv_def split: if_splits)
  next
    case (handles dial)
    with inv show ?thesis by (blast intro: fwd_handle_inv)
  next
    case (moves i q)
    then show ?thesis using moves_inv [OF inv] by simp
  next
    case (closes f cs)
    then show ?thesis
      using inv by (auto simp: fs_inv_def forwarder_Close_def ctx_done_cancel)
  next
    case (cancels c)
    then show ?thesis using inv by (auto simp: fs_inv_def intro: ctx_done_mono)
  qed
qed

interpretation fs: inductive_invariant fs_start fs_step fs_inv
  by unfold_locales (auto intro: fs_start_inv fs_step_inv)

text \<open>
  C20. The totals of a forward are exact for what they count: in every reachable state, modulo
  2^64, the number of bytes written to the remote side (and back) by the directions that have
  ended, over all connections so far. A direction that is still running counts nothing, however
  much it has carried.
\<close>

theorem totals_exact:
  assumes "reach fs_start fs_step x"
  shows "f_totalTX (fs_fwd x)
      = of_nat (sum_list (map (\<lambda>p. if d_run (pi_lr p) then 0 else length (d_dst (pi_lr p))) (fs_conns x)))
    \<and> f_totalRX (fs_fwd x)
      = of_nat (sum_list (map (\<lambda>p. if d_run (pi_rl p) then 0 else length (d_dst (pi_rl p))) (fs_conns x)))
    \<and> f_pipes (fs_fwd x) = length (fs_conns x)
    \<and> ((\<forall>p\<in>set (fs_conns x). d_run (pi_lr p) \<and> d_run (pi_rl p)) \<longrightarrow> forwarder_Stats (fs_fwd x) = (0, 0))"
proof -
  have inv: "fs_inv x" using assms by (rule fs.reach_inv)
  moreover have "forwarder_Stats (fs_fwd x) = (0, 0)"
    if "\<forall>p\<in>set (fs_conns x). d_run (pi_lr p) \<and> d_run (pi_rl p)"
  proof -
    have "map (\<lambda>p. ended (pi_lr p)) (fs_conns x) = map (\<lambda>_. 0) (fs_conns x)"
      "map (\<lambda>p. ended (pi_rl p)) (fs_conns x) = map (\<lambda>_. 0) (fs_conns x)"
      using that by (simp_all add: ended_def)
    with inv show ?thesis by (simp add: fs_inv_def forwarder_Stats_def)
  qed
  ultimately show ?thesis by (simp add: fs_inv_def ended_def)
qed

section \<open>After Close\<close>

lemma closed_step:
  assumes inv: "fs_inv x" and c: "f_closed (fs_fwd x)" and st: "fs_step x y"
  shows "f_closed (fs_fwd y) \<and> length (fs_conns y) = length (fs_conns x)"
  using st
proof cases
  case (accepts fails)
  then show ?thesis using c by (auto simp: fwd_accept_def split: if_splits)
next
  case (handles dial)
  have "ctx_done (fs_cs x) (f_ctx (fs_fwd x))" using inv c by (simp add: fs_inv_def)
  with handles c show ?thesis by (auto simp: fwd_handle_def handle_def Let_def split: if_splits)
next
  case (closes f cs)
  then show ?thesis by (auto simp: forwarder_Close_def)
qed (simp_all add: c)

text \<open>
  A closed forward carries nothing new: whatever happens after \<open>Close\<close>, no connection is
  added, not even one that was being dialled, and for each connection that exists the
  \<open>select\<close> of its \<open>handle\<close> can close both ends.
\<close>

theorem closed_forward_quiet:
  assumes "reach fs_start fs_step x" and "f_closed (fs_fwd x)" and "fs_step\<^sup>*\<^sup>* x y"
  shows "length (fs_conns y) = length (fs_conns x)
    \<and> (\<forall>p\<in>set (fs_conns y). pipe_step (fs_cs y) p (p\<lparr>pi_done := True\<rparr>))
    \<and> (\<forall>dial z. fwd_handle dial y = Some z \<longrightarrow> fs_conns z = fs_conns y)"
proof -
  have inv: "fs_inv y \<and> f_closed (fs_fwd y) \<and> length (fs_conns y) = length (fs_conns x)"
    using assms(3)
  proof (induction rule: rtranclp_induct)
    case base
    show ?case using assms(1,2) fs.reach_inv by blast
  next
    case (step y z)
    then show ?case using closed_step [of y z] fs_step_inv [of y z] by simp
  qed
  then have d: "ctx_done (fs_cs y) (f_ctx (fs_fwd y))" by (simp add: fs_inv_def)
  have "pipe_step (fs_cs y) p (p\<lparr>pi_done := True\<rparr>)" if "p \<in> set (fs_conns y)" for p
    using that inv d by (intro pipe_step.ctx_step) (auto simp: fs_inv_def)
  moreover have "fs_conns z = fs_conns y" if "fwd_handle dial y = Some z" for dial z
    using that d by (auto simp: fwd_handle_def handle_def Let_def split: if_splits)
  ultimately show ?thesis using inv by blast
qed

section \<open>A concrete run\<close>

definition fsys0 :: fsys where
  "fsys0 = \<lparr>fs_cs = \<lparr>cx_next = 1, cx_cancelled = []\<rparr>,
     fs_fwd = \<lparr>f_Rule = \<lparr>r_LocalPort = 8022, r_RemoteHost = ''10.0.0.1'', r_RemotePort = 22,
                          r_IsProxy = False, r_LogFile = []\<rparr>,
              f_ctx = [0], f_closed = False, f_dialTimeout = 10, f_pipes = 0, f_totalTX = 0, f_totalRX = 0\<rparr>,
     fs_accepting = True, fs_dialling = 0, fs_conns = [], fs_out = []\<rparr>"

definition fsys1 :: fsys where
  "fsys1 = fsys0\<lparr>fs_fwd := (fs_fwd fsys0)\<lparr>f_pipes := 1\<rparr>,
     fs_conns := [\<lparr>pi_tee = False, pi_ctx = [0], pi_lr = dir_new, pi_rl = dir_new, pi_done = False\<rparr>]\<rparr>"

definition fsys2 :: fsys where
  "fsys2 = fsys1\<lparr>fs_fwd := (fs_fwd fsys1)\<lparr>f_closed := True\<rparr>, fs_cs := \<lparr>cx_next = 1, cx_cancelled = [0]\<rparr>\<rparr>"

lemma fsys1_reach: "reach fs_start fs_step fsys1"
proof -
  let ?d = "fsys0\<lparr>fs_dialling := 1\<rparr>"
  have "reach fs_start fs_step fsys0" by (rule reach_start) (simp add: fs_start_def fsys0_def)
  moreover have "fs_step fsys0 ?d" by (rule accepts [of False]) (simp add: fwd_accept_def fsys0_def)
  moreover have "fs_step ?d fsys1"
    by (rule handles [of None]) (simp add: fwd_handle_def handle_def fsys1_def fsys0_def ctx_done_def)
  ultimately show ?thesis by (meson reach_step)
qed

lemma fsys2_reach: "reach fs_start fs_step fsys2"
proof -
  have "fs_step fsys1 (fsys1\<lparr>fs_fwd := (fs_fwd fsys1)\<lparr>f_closed := True\<rparr>, fs_cs := \<lparr>cx_next = 1, cx_cancelled = [0]\<rparr>\<rparr>)"
    by (rule closes) (simp add: forwarder_Close_def fsys1_def fsys0_def cancel_def)
  then show ?thesis using fsys1_reach unfolding fsys2_def by (blast intro: reach_step)
qed

theorem totals_exact_witness: "f_pipes (fs_fwd fsys1) = 1 \<and> forwarder_Stats (fs_fwd fsys1) = (0, 0)"
  using totals_exact [OF fsys1_reach] by (simp add: fsys1_def dir_new_def)

theorem closed_forward_quiet_witness:
  "length (fs_conns fsys2) = 1 \<and> pipe_step (fs_cs fsys2) (fs_conns fsys2 ! 0) ((fs_conns fsys2 ! 0)\<lparr>pi_done := True\<rparr>)"
proof -
  have "f_closed (fs_fwd fsys2)" "length (fs_conns fsys2) = 1" by (simp_all add: fsys2_def fsys1_def)
  with closed_forward_quiet [OF fsys2_reach, of fsys2] show ?thesis by simp
qed

end
