(* ===== verification/Proxy_System.thy ===== *)
theory Proxy_System
  imports Forward_Pipe
begin

text \<open>
  A running proxy with all its connections: \<open>acceptLoop\<close>, \<open>handle\<close>, \<open>SetLogFile\<close> and \<open>Close\<close> of
  \<open>internal/forward/proxy.go\<close>, composed from the connections of \<open>Forward_Pipe\<close>. Each of the two
  goroutines of a connection builds its log writer when it starts, with the destination the
  proxy has at that moment; the mutex makes a line of the log one step.
\<close>

section \<open>The system\<close>

record proxy_conn =
  xc_pipe :: pipe
  xc_peer :: string
  xc_outTX :: "log_dest option"
  xc_outRX :: "log_dest option"

text \<open>A line of the log: where it went, which connection and direction, and the chunk.\<close>

record log_entry =
  le_dest :: log_dest
  le_conn :: nat
  le_tx :: bool
  le_chunk :: string

record psys =
  ps_cs :: ctxs
  ps_proxy :: proxy
  ps_accepting :: bool
  ps_dialling :: "string list"
  ps_conns :: "proxy_conn list"
  ps_log :: "log_entry list"
  ps_out :: string

definition ps_start :: "psys \<Rightarrow> bool" where
  "ps_start x \<longleftrightarrow> \<not> p_closed (ps_proxy x) \<and> ps_accepting x \<and> ps_dialling x = [] \<and> ps_conns x = []
     \<and> ps_log x = []"

text \<open>\<open>Accept\<close> returned a connection from \<open>peer\<close>, or an error, on which the loop returns.\<close>

definition ps_accept :: "string option \<Rightarrow> psys \<Rightarrow> psys option" where
  "ps_accept conn x =
     (if \<not> ps_accepting x then None
      else case conn of
        None \<Rightarrow> Some (x\<lparr>ps_accepting := False\<rparr>)
      | Some peer \<Rightarrow>
          if p_closed (ps_proxy x) then None
          else Some (x\<lparr>ps_dialling := ps_dialling x @ [peer]\<rparr>))"

definition proxy_dial_failed :: "int \<Rightarrow> string \<Rightarrow> string" where
  "proxy_dial_failed port err = ''[proxy :'' @ itoa port @ ''] dial failed: '' @ err @ nl"

text \<open>The dial for the \<open>k\<close>-th waiting connection returned.\<close>

definition ps_handle :: "nat \<Rightarrow> string option \<Rightarrow> psys \<Rightarrow> psys option" where
  "ps_handle k dial x =
     (if length (ps_dialling x) \<le> k then None
      else
        (let peer = ps_dialling x ! k;
             x1 = x\<lparr>ps_dialling := take k (ps_dialling x) @ drop (Suc k) (ps_dialling x)\<rparr> in
         case handle True (p_ctx (ps_proxy x)) (ps_cs x) dial of
           Inl err \<Rightarrow>
             Some (x1\<lparr>ps_out := ps_out x1 @ proxy_dial_failed (r_LocalPort (p_Rule (ps_proxy x))) err\<rparr>)
         | Inr p \<Rightarrow>
             Some (x1\<lparr>ps_conns := ps_conns x1 @
               [\<lparr>xc_pipe = p, xc_peer = peer, xc_outTX = None, xc_outRX = None\<rparr>]\<rparr>)))"

text \<open>A goroutine of connection \<open>i\<close> starts: it reads the destination without the lock.\<close>

definition ps_begin :: "bool \<Rightarrow> nat \<Rightarrow> psys \<Rightarrow> psys option" where
  "ps_begin tx i x =
     (if length (ps_conns x) \<le> i then None
      else
        (let c = ps_conns x ! i; out = p_logOut (ps_proxy x) in
         if tx then (if xc_outTX c \<noteq> None then None
                     else Some (x\<lparr>ps_conns := (ps_conns x)[i := c\<lparr>xc_outTX := Some out\<rparr>]\<rparr>))
         else (if xc_outRX c \<noteq> None then None
               else Some (x\<lparr>ps_conns := (ps_conns x)[i := c\<lparr>xc_outRX := Some out\<rparr>]\<rparr>))))"

text \<open>Only a goroutine that has started copies or ends.\<close>

definition dir_moved :: "dir \<Rightarrow> dir \<Rightarrow> bool" where
  "dir_moved d e \<longleftrightarrow> d_pos d \<noteq> d_pos e \<or> d_log d \<noteq> d_log e \<or> d_run d \<noteq> d_run e"

definition may_move :: "proxy_conn \<Rightarrow> pipe \<Rightarrow> bool" where
  "may_move c q \<longleftrightarrow> (dir_moved (pi_lr (xc_pipe c)) (pi_lr q) \<longrightarrow> xc_outTX c \<noteq> None)
     \<and> (dir_moved (pi_rl (xc_pipe c)) (pi_rl q) \<longrightarrow> xc_outRX c \<noteq> None)"

text \<open>The lines written while connection \<open>i\<close> moves from \<open>p\<close> to \<open>q\<close>.\<close>

definition new_lines :: "log_dest option \<Rightarrow> nat \<Rightarrow> bool \<Rightarrow> dir \<Rightarrow> dir \<Rightarrow> log_entry list" where
  "new_lines out i tx d e =
     (case out of None \<Rightarrow> []
      | Some o1 \<Rightarrow> map (\<lambda>chunk. \<lparr>le_dest = o1, le_conn = i, le_tx = tx, le_chunk = chunk\<rparr>)
          (drop (length (d_log d)) (d_log e)))"

definition ps_move :: "nat \<Rightarrow> pipe \<Rightarrow> psys \<Rightarrow> psys" where
  "ps_move i q x =
     (let c = ps_conns x ! i in
      x\<lparr>ps_conns := (ps_conns x)[i := c\<lparr>xc_pipe := q\<rparr>],
        ps_log := ps_log x @ new_lines (xc_outTX c) i True (pi_lr (xc_pipe c)) (pi_lr q)
          @ new_lines (xc_outRX c) i False (pi_rl (xc_pipe c)) (pi_rl q)\<rparr>)"

inductive ps_step :: "psys \<Rightarrow> psys \<Rightarrow> bool" where
  accepts: "ps_accept conn x = Some y \<Longrightarrow> ps_step x y"
| handles: "ps_handle k dial x = Some y \<Longrightarrow> ps_step x y"
| begins: "ps_begin tx i x = Some y \<Longrightarrow> ps_step x y"
| moves: "i < length (ps_conns x) \<Longrightarrow> pipe_step (ps_cs x) (xc_pipe (ps_conns x ! i)) q \<Longrightarrow>
    may_move (ps_conns x ! i) q \<Longrightarrow> ps_step x (ps_move i q x)"
| sets_log: "proxy_SetLogFile E path (ps_proxy x) = Inr p \<Longrightarrow> ps_step x (x\<lparr>ps_proxy := p\<rparr>)"
| closes: "proxy_Close (ps_proxy x) (ps_cs x) = (p, cs) \<Longrightarrow> ps_step x (x\<lparr>ps_proxy := p, ps_cs := cs\<rparr>)"
| cancels: "ps_step x (x\<lparr>ps_cs := cancel c (ps_cs x)\<rparr>)"

text \<open>The bytes appended to a destination, in order.\<close>

definition log_line :: "psys \<Rightarrow> log_entry \<Rightarrow> string" where
  "log_line x e =
     fst (logWriter_Write
       (proxy_tag (p_Rule (ps_proxy x)) (xc_peer (ps_conns x ! le_conn e)) @ (if le_tx e then '' TX'' else '' RX''))
       (le_chunk e))"

definition log_text :: "psys \<Rightarrow> log_dest \<Rightarrow> string" where
  "log_text x dest = concat (map (log_line x) (filter (\<lambda>e. le_dest e = dest) (ps_log x)))"

section \<open>The invariant\<close>

definition chunks :: "nat \<Rightarrow> bool \<Rightarrow> log_entry list \<Rightarrow> string list" where
  "chunks i tx log = map le_chunk (filter (\<lambda>e. le_conn e = i \<and> le_tx e = tx) log)"

lemma chunks_append [simp]: "chunks i tx (xs @ ys) = chunks i tx xs @ chunks i tx ys"
  by (simp add: chunks_def)

text \<open>One direction of connection \<open>i\<close> agrees with the log.\<close>

definition logged :: "nat \<Rightarrow> bool \<Rightarrow> log_dest option \<Rightarrow> dir \<Rightarrow> log_entry list \<Rightarrow> bool" where
  "logged i tx out d log \<longleftrightarrow> chunks i tx log = d_log d
     \<and> (\<forall>e\<in>set log. le_conn e = i \<and> le_tx e = tx \<longrightarrow> out = Some (le_dest e))"

definition conn_ok :: "nat \<Rightarrow> proxy_conn \<Rightarrow> log_entry list \<Rightarrow> bool" where
  "conn_ok i c log \<longleftrightarrow> pipe_ok (xc_pipe c) \<and> pi_tee (xc_pipe c)
     \<and> logged i True (xc_outTX c) (pi_lr (xc_pipe c)) log \<and> logged i False (xc_outRX c) (pi_rl (xc_pipe c)) log"

definition ps_inv :: "psys \<Rightarrow> bool" where
  "ps_inv x \<longleftrightarrow> (\<forall>i < length (ps_conns x). conn_ok i (ps_conns x ! i) (ps_log x))
     \<and> (\<forall>e\<in>set (ps_log x). le_conn e < length (ps_conns x))"

lemma dir_step_log: "dir_step tee isdone d e b \<Longrightarrow> prefix (d_log d) (d_log e)"
  by (induction rule: dir_step.induct) (auto simp: copy_end_def copy_turn_def Let_def)

lemma pipe_step_log:
  assumes "pipe_step cs p q"
  shows "prefix (d_log (pi_lr p)) (d_log (pi_lr q)) \<and> prefix (d_log (pi_rl p)) (d_log (pi_rl q)) \<and> pi_tee q = pi_tee p"
  using assms by (induction rule: pipe_step.induct) (auto dest: dir_step_log)

lemma chunks_new:
  "chunks i tx (new_lines out j ty d e) =
     (if i = j \<and> tx = ty \<and> out \<noteq> None then drop (length (d_log d)) (d_log e) else [])"
  by (auto simp: chunks_def new_lines_def comp_def split: option.split)

lemma set_new: "l \<in> set (new_lines out j ty d e) \<Longrightarrow> le_conn l = j \<and> le_tx l = ty \<and> out = Some (le_dest l)"
  by (auto simp: new_lines_def split: option.splits)

lemma logged_move:
  assumes "logged i tx out d log" and "prefix (d_log d) (d_log e)" and "dir_moved d e \<longrightarrow> out \<noteq> None"
    and "\<forall>l\<in>set rest. le_conn l \<noteq> i \<or> le_tx l \<noteq> tx"
  shows "logged i tx out e (log @ new_lines out i tx d e @ rest)"
    and "logged i tx out e (log @ rest @ new_lines out i tx d e)"
proof -
  have "chunks i tx rest = []" using assms(4) by (auto simp: chunks_def filter_empty_conv)
  moreover have "d_log d @ drop (length (d_log d)) (d_log e) = d_log e"
    using assms(2) by (auto simp: prefix_def)
  moreover have "d_log e = d_log d" if "out = None" using assms(3) that by (auto simp: dir_moved_def)
  ultimately show "logged i tx out e (log @ new_lines out i tx d e @ rest)"
    "logged i tx out e (log @ rest @ new_lines out i tx d e)"
    using assms(1,4) by (auto simp: logged_def chunks_new dest: set_new)
qed

lemma logged_other:
  "logged i tx out d log \<Longrightarrow> \<forall>l\<in>set rest. le_conn l \<noteq> i \<Longrightarrow> logged i tx out d (log @ rest)"
  by (auto simp: logged_def chunks_def filter_empty_conv)

lemma move_inv:
  assumes inv: "ps_inv x" and i: "i < length (ps_conns x)"
    and st: "pipe_step (ps_cs x) (xc_pipe (ps_conns x ! i)) q" and ok: "may_move (ps_conns x ! i) q"
  shows "ps_inv (ps_move i q x)"
proof -
  let ?c = "ps_conns x ! i"
  let ?tx = "new_lines (xc_outTX ?c) i True (pi_lr (xc_pipe ?c)) (pi_lr q)"
  let ?rx = "new_lines (xc_outRX ?c) i False (pi_rl (xc_pipe ?c)) (pi_rl q)"
  have c: "conn_ok i ?c (ps_log x)" using inv i by (simp add: ps_inv_def)
  have new: "\<forall>l\<in>set ?tx. le_conn l = i \<and> le_tx l" "\<forall>l\<in>set ?rx. le_conn l = i \<and> \<not> le_tx l"
    using set_new by blast+
  have "logged i True (xc_outTX ?c) (pi_lr q) (ps_log x @ ?tx @ ?rx)"
    using c ok pipe_step_log [OF st] new(2) by (intro logged_move(1)) (auto simp: conn_ok_def may_move_def)
  moreover have "logged i False (xc_outRX ?c) (pi_rl q) (ps_log x @ ?tx @ ?rx)"
    using c ok pipe_step_log [OF st] new(1) by (intro logged_move(2)) (auto simp: conn_ok_def may_move_def)
  ultimately have mine: "conn_ok i (?c\<lparr>xc_pipe := q\<rparr>) (ps_log x @ ?tx @ ?rx)"
    using c pipe_step_ok [OF st] pipe_step_log [OF st] by (simp add: conn_ok_def)
  have "conn_ok j (ps_conns x ! j) (ps_log x @ ?tx @ ?rx)" if "j < length (ps_conns x)" "j \<noteq> i" for j
    using inv that new by (auto simp: ps_inv_def conn_ok_def intro!: logged_other)
  with mine inv i new show ?thesis
    by (auto simp: ps_inv_def ps_move_def Let_def nth_list_update)
qed

lemma handle_inv:
  assumes "ps_inv x" and "ps_handle k dial x = Some y"
  shows "ps_inv y"
proof (cases "handle True (p_ctx (ps_proxy x)) (ps_cs x) dial")
  case (Inl err)
  with assms show ?thesis by (auto simp: ps_handle_def ps_inv_def Let_def split: if_splits)
next
  case (Inr p)
  then have p: "pipe_ok p" "pi_tee p" "d_log (pi_lr p) = []" "d_log (pi_rl p) = []"
    using pipe_ok_start [of p] by (auto simp: handle_def pipe_start_def dir_new_def split: if_splits option.splits)
  have "chunks (length (ps_conns x)) tx (ps_log x) = []" for tx
    using assms(1) by (auto simp: ps_inv_def chunks_def filter_empty_conv)
  then have "conn_ok (length (ps_conns x)) \<lparr>xc_pipe = p, xc_peer = peer, xc_outTX = None, xc_outRX = None\<rparr> (ps_log x)" for peer
    using p assms(1) by (auto simp: conn_ok_def logged_def ps_inv_def)
  with Inr assms show ?thesis
    by (auto simp: ps_handle_def ps_inv_def Let_def nth_append less_Suc_eq split: if_splits)
qed

lemma begin_inv: "ps_inv x \<Longrightarrow> ps_begin tx i x = Some y \<Longrightarrow> ps_inv y"
  by (auto simp: ps_begin_def ps_inv_def conn_ok_def logged_def Let_def nth_list_update split: if_splits)

lemma ps_step_inv: "ps_inv x \<Longrightarrow> ps_step x y \<Longrightarrow> ps_inv y"
proof -
  assume inv: "ps_inv x" and "ps_step x y"
  from this(2) show "ps_inv y"
  proof cases
    case (accepts conn)
    with inv show ?thesis by (auto simp: ps_accept_def ps_inv_def split: option.splits if_splits)
  next
    case (handles k dial)
    with inv show ?thesis by (simp add: handle_inv)
  next
    case (begins tx i)
    with inv show ?thesis by (simp add: begin_inv)
  next
    case (moves i q)
    with inv show ?thesis by (simp add: move_inv)
  qed (use inv in \<open>simp_all add: ps_inv_def\<close>)
qed

interpretation ps: inductive_invariant ps_start ps_step ps_inv
proof
  show "ps_inv x" if "ps_start x" for x using that by (simp add: ps_start_def ps_inv_def)
qed (rule ps_step_inv)

section \<open>What the log holds\<close>


lemma begun_stays:
  assumes "ps_step x y" and "i < length (ps_conns x)"
  shows "i < length (ps_conns y) \<and> (xc_outTX (ps_conns x ! i) = Some o1 \<longrightarrow> xc_outTX (ps_conns y ! i) = Some o1)
    \<and> (xc_outRX (ps_conns x ! i) = Some o2 \<longrightarrow> xc_outRX (ps_conns y ! i) = Some o2)
    \<and> prefix (ps_log x) (ps_log y)"
  using assms
proof cases
  case (accepts conn)
  then show ?thesis using assms(2) by (auto simp: ps_accept_def split: option.splits if_splits)
next
  case (handles k dial)
  then show ?thesis
    using assms(2) by (auto simp: ps_handle_def Let_def nth_append split: if_splits sum.splits)
next
  case (begins tx j)
  then show ?thesis
    using assms(2) by (auto simp: ps_begin_def Let_def nth_list_update split: if_splits)
next
  case (moves j q)
  then show ?thesis using assms(2) by (auto simp: ps_move_def Let_def nth_list_update)
qed (use assms(2) in simp_all)


section \<open>A concrete run\<close>

text \<open>A connection starts while the log goes to the terminal; the log is redirected; then it carries two bytes.\<close>

definition proxy0 :: proxy where
  "proxy0 = \<lparr>p_Rule = \<lparr>r_LocalPort = 8022, r_RemoteHost = ''10.0.0.1'', r_RemotePort = 22, r_IsProxy = True, r_LogFile = []\<rparr>,
     p_ctx = [0], p_closed = False, p_dialTimeout = 10, p_logOut = Stdout\<rparr>"

definition ps0 :: psys where
  "ps0 = \<lparr>ps_cs = \<lparr>cx_next = 1, cx_cancelled = []\<rparr>, ps_proxy = proxy0, ps_accepting = True, ps_dialling = [],
     ps_conns = [], ps_log = [], ps_out = []\<rparr>"

definition pconn :: "dir \<Rightarrow> proxy_conn" where
  "pconn d = \<lparr>xc_pipe = \<lparr>pi_tee = True, pi_ctx = [0], pi_lr = d, pi_rl = dir_new, pi_done = False\<rparr>,
     xc_peer = ''peer'', xc_outTX = Some Stdout, xc_outRX = None\<rparr>"

definition ps1 :: psys where "ps1 = ps0\<lparr>ps_conns := [pconn dir_new]\<rparr>"
definition ps2 :: psys where "ps2 = ps1\<lparr>ps_proxy := proxy0\<lparr>p_logOut := LogFile ''f''\<rparr>\<rparr>"
definition ps3 :: psys where "ps3 = ps2\<lparr>ps_conns := [pconn (dir_new\<lparr>d_sent := ''hi''\<rparr>)]\<rparr>"
definition ps4 :: psys where
  "ps4 = ps2\<lparr>ps_conns := [pconn (dir_new\<lparr>d_sent := ''hi'', d_pos := 2, d_dst := ''hi'', d_log := [''hi'']\<rparr>)],
     ps_log := [\<lparr>le_dest = Stdout, le_conn = 0, le_tx = True, le_chunk = ''hi''\<rparr>]\<rparr>"

lemma ps1_reach: "reach ps_start ps_step ps1"
proof -
  let ?a = "ps0\<lparr>ps_dialling := [''peer'']\<rparr>"
  let ?b = "ps0\<lparr>ps_conns := [(pconn dir_new)\<lparr>xc_outTX := None\<rparr>]\<rparr>"
  have "reach ps_start ps_step ps0" by (rule reach_start) (simp add: ps_start_def ps0_def proxy0_def)
  moreover have "ps_step ps0 ?a"
    by (rule accepts [of "Some ''peer''"]) (simp add: ps_accept_def ps0_def proxy0_def)
  moreover have "ps_step ?a ?b"
    by (rule handles [of 0 None])
       (simp add: ps_handle_def handle_def ps0_def proxy0_def ctx_done_def pconn_def)
  moreover have "ps_step ?b ps1"
    by (rule begins [of True 0]) (simp add: ps_begin_def ps1_def ps0_def proxy0_def pconn_def Let_def)
  ultimately show ?thesis by (meson reach_step)
qed

lemma ps4_steps: "ps_step\<^sup>*\<^sup>* ps1 ps4"
proof -
  have "ps_step ps1 ps2"
    unfolding ps2_def
    by (rule sets_log [of plain_env "''f''"]) (simp add: proxy_SetLogFile_def plain_env_def ps1_def ps0_def)
  moreover have "ps_step ps2 ps3"
  proof -
    let ?q = "xc_pipe (pconn (dir_new\<lparr>d_sent := ''hi''\<rparr>))"
    have c: "ps_conns ps2 = [pconn dir_new]" by (simp add: ps2_def ps1_def)
    have "dir_step True False dir_new (dir_new\<lparr>d_sent := ''hi''\<rparr>) False"
      using peer_sends [of dir_new True False "''hi''"] by (simp add: dir_new_def)
    then have "pipe_step (ps_cs ps2) (xc_pipe (ps_conns ps2 ! 0)) ?q"
      using lr_step [of "xc_pipe (pconn dir_new)"] by (simp add: c pconn_def)
    then have "ps_step ps2 (ps_move 0 ?q ps2)"
      by (intro moves) (simp_all add: c may_move_def dir_moved_def pconn_def)
    moreover have "ps_move 0 ?q ps2 = ps3"
      by (simp add: ps_move_def ps3_def ps2_def ps1_def ps0_def Let_def pconn_def new_lines_def dir_new_def)
    ultimately show ?thesis by simp
  qed
  moreover have "ps_step ps3 ps4"
  proof -
    let ?d = "dir_new\<lparr>d_sent := ''hi'', d_pos := 2, d_dst := ''hi'', d_log := [''hi'']\<rparr>"
    let ?q = "xc_pipe (pconn ?d)"
    have c: "ps_conns ps3 = [pconn (dir_new\<lparr>d_sent := ''hi''\<rparr>)]" by (simp add: ps3_def)
    have "dir_step True False (dir_new\<lparr>d_sent := ''hi''\<rparr>) ?d False"
      using copies [of "dir_new\<lparr>d_sent := ''hi''\<rparr>" False 2 True]
      by (simp add: dir_new_def copy_turn_def Let_def eval_nat_numeral)
    then have "pipe_step (ps_cs ps3) (xc_pipe (ps_conns ps3 ! 0)) ?q"
      using lr_step [of "xc_pipe (pconn (dir_new\<lparr>d_sent := ''hi''\<rparr>))"] by (simp add: c pconn_def)
    then have "ps_step ps3 (ps_move 0 ?q ps3)"
      by (intro moves) (simp_all add: c may_move_def dir_moved_def pconn_def)
    moreover have "ps_move 0 ?q ps3 = ps4"
      by (simp add: ps_move_def ps4_def ps3_def ps2_def ps1_def ps0_def Let_def pconn_def new_lines_def dir_new_def)
    ultimately show ?thesis by simp
  qed
  ultimately show ?thesis by (meson converse_rtranclp_into_rtranclp rtranclp.rtrancl_refl)
qed



end
