(* ===== verification/Spec2Isabelle.thy ===== *)
theory Spec2Isabelle
  imports Conversation Server_Run Root_Props Completer_Model Parser_Props Session_Wait Listener_Quiet
    Console_System Server_System Forward_Props Forward_System Proxy_System
begin

text \<open>
  A verification library for tcpsh, an interactive TCP server and connection manager written
  in Go. The program opens TCP listeners, keeps the connections they accept as sessions,
  forwards and proxies TCP connections, and is driven by commands: typed at a local shell
  (console mode), or sent over an encrypted connection by a client to a headless server.

  \<^bold>\<open>How the parts fit.\<close> A listener (\<open>internal/listener\<close>) accepts connections, registers each with
  the session manager (\<open>internal/session\<close>), starts its receive loop and a watcher, and sends
  events. The shell (\<open>internal/console\<close>) parses a line, runs it through the dispatcher, which
  works on the listener manager, the session manager and the forward manager
  (\<open>internal/forward\<close>), and prints the text it gets. The server (\<open>internal/server\<close>) runs the
  same dispatcher on lines it decrypts (\<open>internal/proto\<close>) and sends the texts back; the client
  (\<open>internal/client\<close>) is its other end. \<open>cmd/root.go\<close> chooses the mode.

  \<^bold>\<open>The theories\<close>, in the order they build on each other.
  \<^item> \<open>Prelude\<close>: the result of a Go call that may panic, slice indexing, ranging over a map, and two
    interfaces: a step relation with an inductive invariant, and a table of ports.
  \<^item> \<open>Go_Text\<close>: the functions of \<open>strings\<close> and \<open>strconv\<close> the program uses, on byte strings.
  \<^item> \<open>Parser_Model\<close>: \<open>console/parser.go\<close>. \<open>Proto_Model\<close>: \<open>proto/proto.go\<close>.
    \<open>Config_Model\<close>: \<open>config/config.go\<close> and \<open>history/\<close>. \<open>Ui_Model\<close>: \<open>pkg/ui/theme.go\<close>.
  \<^item> \<open>Session_Model\<close>: \<open>session/state.go\<close>, \<open>session/session.go\<close>; \<open>Session_Mgr\<close>: \<open>session/manager.go\<close>, over
    a heap of sessions shared by address; \<open>Session_Wait\<close>: \<open>WaitDead\<close> and the receive loop below the
    level of atomic operations.
  \<^item> \<open>Go_Env\<close>: contexts of the package \<open>context\<close>, and everything a command asks of the operating
    system, the terminal, the user and the order of Go's maps, as one record.
  \<^item> \<open>Listener_Model\<close>: \<open>listener/listener.go\<close> and \<open>listener/manager.go\<close>; \<open>Listener_Steps\<close>: their
    goroutines as a step relation \<open>net_step\<close> and its invariant.
  \<^item> \<open>Forward_Model\<close>: \<open>forward/manager.go\<close> with the objects it starts; \<open>Forward_Pipe\<close>: one forwarded
    connection of \<open>forward/forwarder.go\<close> and \<open>forward/proxy.go\<close> as a step relation; \<open>Forward_System\<close>:
    a running forwarder with all its connections and its counters; \<open>Proxy_System\<close>: a running proxy
    with all its connections and its log.
  \<^item> \<open>Views_Model\<close>: \<open>pkg/ui/views/tables.go\<close>. \<open>Dispatcher_Model\<close>: \<open>console/dispatcher.go\<close> and
    \<open>executor/system.go\<close>. \<open>Repl_Model\<close>: \<open>console/repl.go\<close>, \<open>console/signals.go\<close>.
    \<open>Server_Model\<close>: \<open>server/server.go\<close>. \<open>Client_Model\<close>: \<open>client/client.go\<close>.
    \<open>Root_Model\<close>: \<open>cmd/root.go\<close>. \<open>Completer_Model\<close>: the completion tree of \<open>console/repl.go\<close>.
  \<^item> Compositions: \<open>Server_Steps\<close>: the goroutines of \<open>serveClient\<close> as one step relation; \<open>Server_Run\<close>:
    the daemon, which serves one client after another; \<open>Conversation\<close>: a client and the server that
    serves it, with the frames between them; \<open>Console_System\<close>: the console program, the shell with
    its event loop and drain goroutines and the goroutines of listeners and sessions;
    \<open>Server_System\<close>: the server over all its clients with the same goroutines. \<open>World_Change\<close> holds
    what the two share: how the world changes.
  \<^item> The properties: \<open>Parser_Props\<close>, \<open>Proto_Props\<close>, \<open>Session_Props\<close>, \<open>Session_Wait\<close>,
    \<open>Listener_Props\<close>, \<open>Listener_Quiet\<close>, \<open>Forward_Props\<close>, \<open>Dispatch_Props\<close>, \<open>Exchange_Props\<close>, \<open>Repl_Props\<close>,
    \<open>Exit_Props\<close>, \<open>Answer_Props\<close>, \<open>Server_Props\<close>, \<open>Root_Props\<close>, the compositions, and, for what spans
    server, client and shell, this theory.

  \<^bold>\<open>State and operations.\<close> A struct of the program is a record with its fields; mutable objects
  that are shared by pointer (sessions, listeners) live in a list, and an address is a
  position in it. The records extend each other as the program's objects do: contexts, then
  the listener package with the session store, then the dispatcher's world with the forward
  manager. An operation takes the state and returns it updated; an error is \<open>Inl\<close> of the
  message the code builds; an index out of range is \<open>Panic\<close>. Operations that a mutex makes
  atomic are single steps, and goroutines are step functions whose result \<open>None\<close> means that
  they wait. Go \<open>int\<close> is \<open>int\<close>, with the range checked where numbers are parsed; atomic counters
  are words of their width. The order in which a map is ranged over is an argument, and the
  theorems say whether the result depends on it.

  \<^bold>\<open>Interfaces.\<close> \<open>port_table\<close> is the contract of the listener table (\<open>lt\<close>) and, twice, of the
  forward table (\<open>ft\<close>, \<open>pt\<close>). \<open>inductive_invariant\<close> is instantiated by the goroutines of the
  listeners (\<open>net\<close>, \<open>unheard\<close>), a forwarded connection (\<open>pipe\<close>), a forwarder (\<open>fs\<close>), \<open>WaitDead\<close>
  (\<open>wd\<close>, \<open>wo\<close>), the server (\<open>srv\<close>), the daemon (\<open>dm\<close>), the conversation of client and server
  (\<open>conv\<close>), the console program (\<open>cs\<close>), the server over all its clients (\<open>sys\<close>) and a
  proxy (\<open>ps\<close>). \<open>frame_codec\<close>, which gives \<open>prefix_code\<close>, is the framing of the protocol
  (\<open>raw\<close>).

  \<^bold>\<open>What the lemmas show.\<close> Invariants of every reachable state of the goroutines and of every
  command; functional correctness of the commands; round trips of parser and protocol; the
  receive buffer as a FIFO; transparency of forwarded connections; the exact conditions under
  which the program panics; equivalence of the remote and the local dispatcher; client and server staying
  in step, and every command being answered; exact totals of a forwarder; the goroutines of
  the listeners coming to rest within a fixed number of turns; types of parsed commands. Where the
  program does not do what its documentation or its comments say, the theorem states what it
  does.

  \<^bold>\<open>Bounds.\<close> The channels have the capacities of the code: 64 events, 64 outgoing frames and 8
  commands in the server, 32 events and one response in the client. There is no fuel: every
  definition is total, and loops that need not end are step relations.

  \<^bold>\<open>Not modelled.\<close> Third-party code and the kernel are parameters: the cipher and SHA-256, the
  terminal library, the line editor, the configuration library, the shell of \<open>!\<close> commands, and
  the answers of sockets and files. Text is bytes; white space and letter case are those of
  ASCII, and \<open>%q\<close> quotes bytes above 126 in hexadecimal. Byte counts in tables are exact below
  2^53, where the program's floating point is. Of the \<open>pipes\<close> list of a forwarder, which the program
  never reads, only the length is kept. In \<open>Conversation\<close> the frames are delivered whole and in
  order, as the framing and TCP promise, and the user types commands that the menu answers;
  session mode is left to the separate models of server and client. When a client leaves, the
  pumps of its session are forgotten: the last turn of a pump that has not yet seen its exit
  flag, which may still drain a session, is not part of the next client's state.
\<close>

section \<open>The remote shell against the local one\<close>

text \<open>
  C7. Run through the server, a command of the dispatcher does what it does in the local
  shell: from the same world and context the two reach the same world, and the response frame
  carries exactly the text the shell prints before its line feed; an empty text is printed
  by the shell and not sent by the server. The two panic on the same lines.
\<close>

theorem server_equals_console:
  assumes "rp_mode r = Menu" and "sv_world s = rp_world r" and "sv_ctx s = rp_ctx r"
    and "cmd_kind (Parse line False) = CmdTool" and "cmd_verb (Parse line False) \<notin> {''exit'', ''use''}"
  shows "(repl_step E (RLine line) r = Panic \<longleftrightarrow> menu_line E line s = Panic)
    \<and> (\<forall>r' s'. repl_step E (RLine line) r = Ret r' \<and> menu_line E line s = Ret s' \<longrightarrow>
         sv_world s' = rp_world r'
         \<and> (\<exists>out. rp_out r' = rp_out r @ out @ nl
              \<and> sv_pending s' = sv_pending s @ (if out = [] then [] else [(FrameResponse, out)])))"
proof -
  define c where "c = Parse line False"
  have ne: "line \<noteq> []"
    using assms(4) Parse_empty_iff [of line False] by auto
  have r: "repl_step E (RLine line) r = (case Dispatch E (rp_ctx r) c (rp_world r) of
      Panic \<Rightarrow> Panic | Ret (out, w) \<Rightarrow> Ret (println out (r\<lparr>rp_world := w\<rparr>)))"
    using assms(1,4,5) by (simp add: repl_step_def menu_step_def Let_def flip: c_def)
  have s: "menu_line E line s = (case Dispatch E (rp_ctx r) c (rp_world r) of
      Panic \<Rightarrow> Panic | Ret (out, w) \<Rightarrow> Ret (respond out (s\<lparr>sv_world := w\<rparr>)))"
    using assms(2-5) ne by (simp add: menu_line_def Let_def flip: c_def)
  show ?thesis
  proof (cases "Dispatch E (rp_ctx r) c (rp_world r)")
    case (Ret x)
    obtain out w where "x = (out, w)" by force
    with Ret show ?thesis unfolding r s by (simp add: respond_def println_def print_def)
  next
    case Panic
    then show ?thesis unfolding r s by simp
  qed
qed

theorem server_equals_console_witness:
  "\<exists>r' s'. repl_step plain_env (RLine ''help'') menu_repl = Ret r'
     \<and> menu_line plain_env ''help'' (menu_server\<lparr>sv_ctx := []\<rparr>) = Ret s' \<and> sv_world s' = rp_world r'"
proof -
  let ?s = "menu_server\<lparr>sv_ctx := []\<rparr>"
  obtain r' where r: "repl_step plain_env (RLine ''help'') menu_repl = Ret r'"
    by (simp add: repl_step_def menu_step_def menu_repl_def parse_help Dispatch_def doHelp_def)
  obtain s' where s: "menu_line plain_env ''help'' ?s = Ret s'"
    by (simp add: menu_line_def parse_help Dispatch_def doHelp_def)
  have "rp_mode menu_repl = Menu" "sv_world ?s = rp_world menu_repl" "sv_ctx ?s = rp_ctx menu_repl"
    by (simp_all add: menu_repl_def menu_server_def)
  moreover have "cmd_kind (Parse ''help'' False) = CmdTool" "cmd_verb (Parse ''help'' False) \<notin> {''exit'', ''use''}"
    by (simp_all add: parse_help)
  ultimately have "sv_world s' = rp_world r'"
    using server_equals_console [THEN conjunct2, rule_format, OF _ _ _ _ _ conjI [OF r s]] by blast
  with r s show ?thesis by blast
qed

section \<open>Entering a session\<close>

lemma splitn3: "CHR '':'' \<notin> set a \<Longrightarrow> CHR '':'' \<notin> set b \<Longrightarrow>
  splitn (a @ '':'' @ b @ '':'' @ c) CHR '':'' 3 = [a, b, c]"
  using splitn_cut [of "CHR '':''" a "b @ CHR '':'' # c" 1] splitn_cut [of "CHR '':''" b c 0]
  by (simp add: eval_nat_numeral del: splitn.simps(3))

text \<open>
  The start of a session survives the wire: from the payload the server sends, the client
  recovers the port, the index and the whole remote address, colons included, and shows the
  prompt of the local shell. (Another payload, with fewer than two colons-separated parts,
  would make it panic: the server never sends one.)
\<close>

theorem session_start_roundtrip:
  "\<exists>c'. client_enter (session_start_payload s idx) c = Ret c' \<and> cl_mode c' = ClSession
    \<and> cl_prompt c' = ''['' @ itoa (s_Port s) @ '':'' @ itoa idx @ '']> ''
    \<and> (\<exists>tip. cl_out c' = cl_out c @ ''  Entering session '' @ itoa (s_Port s) @ '':'' @ itoa idx
          @ '' ('' @ s_RemoteAddr s @ ''). Type '' @ tip)"
proof -
  have "splitn (session_start_payload s idx) CHR '':'' 3 = [itoa (s_Port s), itoa idx, s_RemoteAddr s]"
    unfolding session_start_payload_def by (rule splitn3 [OF itoa_no_colon itoa_no_colon])
  then show ?thesis by (simp add: client_enter_def Let_def cl_println_def)
qed

section \<open>Conversations that go wrong\<close>

lemma trim_cmd: "trim_space ''!true'' = ''!true''" "str_fields ''!true'' = [''!true'']"
  "to_lower ''!true'' = ''!true''" "trim_space ''true'' = ''true''"
  by code_simp+

lemma parse_true: "Parse ''!true'' False = \<lparr>cmd_kind = CmdSystem, cmd_verb = [], cmd_args = [''true''], cmd_raw = ''!true''\<rparr>"
  by code_simp

text \<open>
  C36. A command without output hangs the client. The line \<open>!true\<close> makes the client wait for a
  response; the server runs the command, sends nothing and is back in its menu. As long as
  nothing else arrives the client cannot move: no interrupt is read while it waits.
\<close>

theorem empty_output_hangs:
  assumes "cl_mode c = ClMenu" and "cl_responseCh c = []" and "cl_readErrCh c = []"
    and "wr ''!true'' = None" and "sv_mode s = SvMenu" and "e_shell E ''true'' = ([], None)"
  shows "\<exists>c'. client_step wr (ClLine ''!true'') c = Some c' \<and> cl_sent c' = cl_sent c @ [''!true'']
    \<and> menu_line E ''!true'' s = Ret s
    \<and> (\<forall>which. client_wait which c' = None) \<and> (\<forall>inp. client_step wr inp c' = None)"
proof -
  let ?c = "c\<lparr>cl_sent := cl_sent c @ [''!true''], cl_mode := ClWait ''!true''\<rparr>"
  have "client_step wr (ClLine ''!true'') c = Some ?c"
    using assms(1,4) by (simp add: client_step_def client_menu_def trim_cmd cl_send_def Let_def del: str_fields.simps)
  moreover have "menu_line E ''!true'' s = Ret s"
    using assms(6) by (simp add: menu_line_def parse_true RunSystem_def executor_Run_def trim_cmd respond_def)
  moreover have "client_wait which ?c = None" for which
    using assms(2,3) by (cases which) (simp_all add: client_wait_def take_response_def take_err_def)
  moreover have "client_step wr inp ?c = None" for inp by (simp add: client_step_def)
  ultimately show ?thesis by (intro exI [of _ ?c]) simp
qed

definition new_client :: client where
  "new_client = \<lparr>cl_mode = ClMenu, cl_prompt = client_prompt, cl_sent = [], cl_out = [], cl_err = [],
     cl_reading = True, cl_eventCh = [], cl_responseCh = [], cl_sessionStartCh = [], cl_readErrCh = []\<rparr>"

theorem empty_output_hangs_witness:
  "\<exists>c'. client_step (\<lambda>_. None) (ClLine ''!true'') new_client = Some c'
     \<and> menu_line plain_env ''!true'' menu_server = Ret menu_server \<and> client_wait SelResponse c' = None"
  using empty_output_hangs [of new_client "\<lambda>_. None" menu_server plain_env]
  by (auto simp: new_client_def menu_server_def plain_env_def)

lemma special_words: "trim_space ''+back'' = ''+back''" "to_lower ''+back'' = ''+back''"
  by code_simp+





end
